theory Spec2Isabelle
  imports Complex_Main "HOL-Library.Word"
begin

section \<open>AuthentiX: data model\<close>

text \<open>
  The four authentication factors (\<^verbatim>\<open>type AuthMethod = 'face' | 'voice' | 'gesture' | 'pin'\<close>
  in \<^verbatim>\<open>useAuthMethods.ts\<close>; the page \<^verbatim>\<open>Authenticate\<close> calls the same type \<^verbatim>\<open>AuthStep\<close>).
\<close>

datatype AuthMethod = Face | Voice | Gesture | Pin

type_synonym AuthStep = AuthMethod
type_synonym uid = string
type_synonym timestamp = nat

text \<open>A JSON object given as metadata of a log entry: its key/value pairs.\<close>

type_synonym metadata = "(string \<times> string) list"

text \<open>Rows of the four tables the client code reads and writes (SQL migration and
  the \<^verbatim>\<open>supabase.from(...)\<close> calls). Only the columns the client sets are kept.\<close>

record pins_row =
  pr_user_id :: uid
  pr_pin_hash :: string

record authentication_methods_row =
  am_user_id :: uid
  am_method_type :: AuthMethod
  am_is_enrolled :: bool
  am_enrolled_at :: "timestamp option"

record auth_logs_row =
  al_user_id :: uid
  al_auth_type :: AuthMethod
  al_status :: string
  al_confidence_score :: "real option"
  al_metadata :: metadata

record authentication_logs_row =
  lg_user_id :: uid
  lg_method_type :: AuthMethod
  lg_success :: bool
  lg_confidence_score :: "real option"
  lg_metadata :: "metadata option"

record database =
  pins :: "pins_row list"
  authentication_methods :: "authentication_methods_row list"
  auth_logs :: "auth_logs_row list"
  authentication_logs :: "authentication_logs_row list"

definition empty_database :: database where
  "empty_database =
     \<lparr>pins = [], authentication_methods = [], auth_logs = [], authentication_logs = []\<rparr>"

section \<open>Effects, exceptions and the remote calls\<close>

text \<open>What a component does besides changing the database: toasts, console output, the
  callbacks \<^verbatim>\<open>onComplete\<close> and \<^verbatim>\<open>onClose\<close> handed in by the parent page, calls of the
  digest function, requests sent to the database service and navigation.\<close>

datatype effect =
    ToastError string
  | ToastSuccess string
  | ConsoleError string
  | OnComplete bool
  | OnClose
  | DigestCalled string
  | SupabaseCall string string
  | Navigate string

text \<open>A value thrown inside an \<^verbatim>\<open>async\<close> function.\<close>

datatype exn = SupabaseError string | RequestFailed

text \<open>How one request to the database service ends: it is carried out, the service
  answers with \<^verbatim>\<open>{ error }\<close>, or the awaited promise rejects.\<close>

datatype call_outcome = Succeeds | ReturnsError | Throws

text \<open>The outcome of every request a handler may send to the database service, the clock,
  and what the recognition service (the Python backend, which is not among the sources)
  writes to the database while it handles one request: its documentation mentions a log of
  its own (\<^verbatim>\<open>log_auth_event\<close>). The identity stands for a service that writes nothing or is
  not reached.\<close>

record env =
  pins_upsert :: call_outcome
  pins_select :: call_outcome
  methods_upsert :: call_outcome
  methods_select :: call_outcome
  auth_logs_insert :: call_outcome
  authentication_logs_insert :: call_outcome
  now :: timestamp
  recognition_service :: "database \<Rightarrow> database"

definition all_succeed :: "timestamp \<Rightarrow> env" where
  "all_succeed t =
     \<lparr>pins_upsert = Succeeds, pins_select = Succeeds, methods_upsert = Succeeds,
      methods_select = Succeeds, auth_logs_insert = Succeeds,
      authentication_logs_insert = Succeeds, now = t, recognition_service = (\<lambda>d. d)\<rparr>"

text \<open>The state one component instance works on: the database, the state of its own
  \<^verbatim>\<open>useAuthMethods\<close> hook and its own \<^verbatim>\<open>useState\<close> cells.\<close>

record AuthMethodStatus =
  method_type :: AuthMethod
  is_enrolled :: bool
  enrolled_at :: "timestamp option"

record hook_state =
  methods :: "AuthMethodStatus list"
  loading :: bool

record 'c world =
  db :: database
  hook :: hook_state
  comp :: 'c

text \<open>An asynchronous procedure: from the state to a thrown value or a result, the state
  afterwards (state written before a throw stays written) and the effects in order.\<close>

type_synonym ('c, 'a) proc = "'c world \<Rightarrow> (exn + 'a) \<times> 'c world \<times> effect list"

definition ret :: "'a \<Rightarrow> ('c, 'a) proc" where
  "ret x w = (Inr x, w, [])"

definition throw :: "exn \<Rightarrow> ('c, 'a) proc" where
  "throw e w = (Inl e, w, [])"

definition emit :: "effect \<Rightarrow> ('c, unit) proc" where
  "emit ef w = (Inr (), w, [ef])"

definition setComp :: "('c \<Rightarrow> 'c) \<Rightarrow> ('c, unit) proc" where
  "setComp f w = (Inr (), w\<lparr>comp := f (comp w)\<rparr>, [])"

definition setHook :: "(hook_state \<Rightarrow> hook_state) \<Rightarrow> ('c, unit) proc" where
  "setHook f w = (Inr (), w\<lparr>hook := f (hook w)\<rparr>, [])"

definition andThen :: "('c, 'a) proc \<Rightarrow> ('a \<Rightarrow> ('c, 'b) proc) \<Rightarrow> ('c, 'b) proc" where
  "andThen m f w =
     (case m w of
        (Inl e, w1, t1) \<Rightarrow> (Inl e, w1, t1)
      | (Inr x, w1, t1) \<Rightarrow> (case f x w1 of (r, w2, t2) \<Rightarrow> (r, w2, t1 @ t2)))"

definition seq :: "('c, 'a) proc \<Rightarrow> ('c, 'b) proc \<Rightarrow> ('c, 'b) proc" where
  "seq m n = andThen m (\<lambda>_. n)"

definition tryCatch :: "('c, 'a) proc \<Rightarrow> (exn \<Rightarrow> ('c, 'a) proc) \<Rightarrow> ('c, 'a) proc" where
  "tryCatch m h w =
     (case m w of
        (Inl e, w1, t1) \<Rightarrow> (case h e w1 of (r, w2, t2) \<Rightarrow> (r, w2, t1 @ t2))
      | (Inr x, w1, t1) \<Rightarrow> (Inr x, w1, t1))"

definition tryFinally :: "('c, 'a) proc \<Rightarrow> ('c, unit) proc \<Rightarrow> ('c, 'a) proc" where
  "tryFinally m fin w =
     (case m w of
        (r, w1, t1) \<Rightarrow>
          (case fin w1 of
             (Inl e, w2, t2) \<Rightarrow> (Inl e, w2, t1 @ t2)
           | (Inr _, w2, t2) \<Rightarrow> (r, w2, t1 @ t2)))"

text \<open>\<^verbatim>\<open>supabase.from(table).insert(row)\<close>: the row is appended when the request is
  carried out; the result is the \<^verbatim>\<open>error\<close> field of the answer.\<close>

definition insert_auth_logs :: "call_outcome \<Rightarrow> auth_logs_row \<Rightarrow> ('c, exn option) proc" where
  "insert_auth_logs oc row w =
     (case oc of
        Succeeds \<Rightarrow> (Inr None, w\<lparr>db := (db w)\<lparr>auth_logs := auth_logs (db w) @ [row]\<rparr>\<rparr>,
                      [SupabaseCall ''auth_logs'' ''insert''])
      | ReturnsError \<Rightarrow> (Inr (Some (SupabaseError ''auth_logs'')), w,
                      [SupabaseCall ''auth_logs'' ''insert''])
      | Throws \<Rightarrow> (Inl RequestFailed, w, [SupabaseCall ''auth_logs'' ''insert'']))"

definition insert_authentication_logs ::
  "call_outcome \<Rightarrow> authentication_logs_row \<Rightarrow> ('c, exn option) proc" where
  "insert_authentication_logs oc row w =
     (case oc of
        Succeeds \<Rightarrow>
          (Inr None,
           w\<lparr>db := (db w)\<lparr>authentication_logs := authentication_logs (db w) @ [row]\<rparr>\<rparr>,
           [SupabaseCall ''authentication_logs'' ''insert''])
      | ReturnsError \<Rightarrow> (Inr (Some (SupabaseError ''authentication_logs'')), w,
                      [SupabaseCall ''authentication_logs'' ''insert''])
      | Throws \<Rightarrow> (Inl RequestFailed, w, [SupabaseCall ''authentication_logs'' ''insert'']))"

text \<open>\<^verbatim>\<open>upsert(row, { onConflict: key })\<close> on a table whose key columns are declared
  \<^verbatim>\<open>UNIQUE\<close>: the row with the same key is overwritten, otherwise the row is added.\<close>

fun upsert :: "('r \<Rightarrow> 'k) \<Rightarrow> 'r \<Rightarrow> 'r list \<Rightarrow> 'r list" where
  "upsert key r [] = [r]"
| "upsert key r (x # xs) = (if key x = key r then r # xs else x # upsert key r xs)"

definition methods_key :: "authentication_methods_row \<Rightarrow> uid \<times> AuthMethod" where
  "methods_key r = (am_user_id r, am_method_type r)"

definition upsert_pins :: "call_outcome \<Rightarrow> pins_row \<Rightarrow> ('c, exn option) proc" where
  "upsert_pins oc row w =
     (case oc of
        Succeeds \<Rightarrow> (Inr None, w\<lparr>db := (db w)\<lparr>pins := upsert pr_user_id row (pins (db w))\<rparr>\<rparr>,
                      [SupabaseCall ''pins'' ''upsert''])
      | ReturnsError \<Rightarrow> (Inr (Some (SupabaseError ''pins'')), w, [SupabaseCall ''pins'' ''upsert''])
      | Throws \<Rightarrow> (Inl RequestFailed, w, [SupabaseCall ''pins'' ''upsert'']))"

definition upsert_authentication_methods ::
  "call_outcome \<Rightarrow> authentication_methods_row \<Rightarrow> ('c, exn option) proc" where
  "upsert_authentication_methods oc row w =
     (case oc of
        Succeeds \<Rightarrow>
          (Inr None,
           w\<lparr>db := (db w)\<lparr>authentication_methods :=
                              upsert methods_key row (authentication_methods (db w))\<rparr>\<rparr>,
           [SupabaseCall ''authentication_methods'' ''upsert''])
      | ReturnsError \<Rightarrow> (Inr (Some (SupabaseError ''authentication_methods'')), w,
                      [SupabaseCall ''authentication_methods'' ''upsert''])
      | Throws \<Rightarrow> (Inl RequestFailed, w, [SupabaseCall ''authentication_methods'' ''upsert'']))"

text \<open>\<^verbatim>\<open>select('pin_hash').eq('user_id', id).maybeSingle()\<close>: the answer is
  \<^verbatim>\<open>{ data, error }\<close>; no row gives \<^verbatim>\<open>data = null\<close> without an error, more than one
  row is an error.\<close>

definition select_pin_hash ::
  "call_outcome \<Rightarrow> uid \<Rightarrow> ('c, string option \<times> exn option) proc" where
  "select_pin_hash oc u w =
     (case oc of
        Succeeds \<Rightarrow>
          (case filter (\<lambda>r. pr_user_id r = u) (pins (db w)) of
             [] \<Rightarrow> (Inr (None, None), w, [SupabaseCall ''pins'' ''select''])
           | [r] \<Rightarrow> (Inr (Some (pr_pin_hash r), None), w, [SupabaseCall ''pins'' ''select''])
           | _ \<Rightarrow> (Inr (None, Some (SupabaseError ''pins'')), w,
                    [SupabaseCall ''pins'' ''select'']))
      | ReturnsError \<Rightarrow> (Inr (None, Some (SupabaseError ''pins'')), w,
                      [SupabaseCall ''pins'' ''select''])
      | Throws \<Rightarrow> (Inl RequestFailed, w, [SupabaseCall ''pins'' ''select'']))"

text \<open>\<^verbatim>\<open>select('*').eq('user_id', userId)\<close> on \<^verbatim>\<open>authentication_methods\<close>.\<close>

definition select_authentication_methods ::
  "call_outcome \<Rightarrow> uid \<Rightarrow> ('c, authentication_methods_row list option \<times> exn option) proc" where
  "select_authentication_methods oc u w =
     (case oc of
        Succeeds \<Rightarrow>
          (Inr (Some (filter (\<lambda>r. am_user_id r = u) (authentication_methods (db w))), None), w,
           [SupabaseCall ''authentication_methods'' ''select''])
      | ReturnsError \<Rightarrow> (Inr (None, Some (SupabaseError ''authentication_methods'')), w,
                      [SupabaseCall ''authentication_methods'' ''select''])
      | Throws \<Rightarrow> (Inl RequestFailed, w, [SupabaseCall ''authentication_methods'' ''select'']))"

section \<open>The hook useAuthMethods\<close>

definition methodName :: "AuthMethod \<Rightarrow> string" where
  "methodName m = (case m of Face \<Rightarrow> ''face'' | Voice \<Rightarrow> ''voice''
                   | Gesture \<Rightarrow> ''gesture'' | Pin \<Rightarrow> ''pin'')"

definition allMethods :: "AuthMethod list" where
  "allMethods = [Face, Voice, Gesture, Pin]"

text \<open>\<^verbatim>\<open>new Map(existingMethods.map(m => [m.method_type, m])).get(method)\<close>: of several
  rows with one method type the last one stays in the map.\<close>

definition methodsMap_get ::
  "authentication_methods_row list \<Rightarrow> AuthMethod \<Rightarrow> authentication_methods_row option" where
  "methodsMap_get existingMethods method =
     find (\<lambda>m. am_method_type m = method) (rev existingMethods)"

definition completeMethodsList :: "authentication_methods_row list \<Rightarrow> AuthMethodStatus list" where
  "completeMethodsList existingMethods =
     map (\<lambda>method.
            case methodsMap_get existingMethods method of
              Some existing \<Rightarrow>
                \<lparr>method_type = am_method_type existing, is_enrolled = am_is_enrolled existing,
                 enrolled_at = am_enrolled_at existing\<rparr>
            | None \<Rightarrow> \<lparr>method_type = method, is_enrolled = False, enrolled_at = None\<rparr>)
         allMethods"

text \<open>\<^verbatim>\<open>fetchMethods\<close>: without a user only \<^verbatim>\<open>loading\<close> is cleared; otherwise the rows of
  the user are read, a returned error is thrown, the list of all four methods is stored; the
  \<^verbatim>\<open>catch\<close> reports, the \<^verbatim>\<open>finally\<close> clears \<^verbatim>\<open>loading\<close>.\<close>

definition fetchMethods :: "env \<Rightarrow> uid option \<Rightarrow> ('c, unit) proc" where
  "fetchMethods ev userId =
     (case userId of
        None \<Rightarrow> setHook (\<lambda>h. h\<lparr>loading := False\<rparr>)
      | Some u \<Rightarrow>
          tryFinally
            (tryCatch
               (andThen (select_authentication_methods (methods_select ev) u)
                  (\<lambda>(data, error).
                     case error of
                       Some e \<Rightarrow> throw e
                     | None \<Rightarrow>
                         setHook (\<lambda>h. h\<lparr>methods :=
                           completeMethodsList (case data of None \<Rightarrow> [] | Some rows \<Rightarrow> rows)\<rparr>)))
               (\<lambda>e. seq (emit (ToastError ''Failed to fetch authentication methods''))
                         (emit (ConsoleError ''error''))))
            (setHook (\<lambda>h. h\<lparr>loading := False\<rparr>)))"

text \<open>\<^verbatim>\<open>updateMethodStatus(method, isEnrolled)\<close>: an upsert on the key
  \<^verbatim>\<open>user_id,method_type\<close>, then \<^verbatim>\<open>fetchMethods\<close> and a toast; every error ends in the
  \<^verbatim>\<open>catch\<close>.\<close>

definition updateMethodStatus :: "env \<Rightarrow> uid option \<Rightarrow> AuthMethod \<Rightarrow> bool \<Rightarrow> ('c, unit) proc" where
  "updateMethodStatus ev userId method isEnrolled =
     (case userId of
        None \<Rightarrow> ret ()
      | Some u \<Rightarrow>
          tryCatch
            (andThen
               (upsert_authentication_methods (methods_upsert ev)
                  \<lparr>am_user_id = u, am_method_type = method, am_is_enrolled = isEnrolled,
                   am_enrolled_at = (if isEnrolled then Some (now ev) else None)\<rparr>)
               (\<lambda>error.
                  case error of
                    Some e \<Rightarrow> throw e
                  | None \<Rightarrow>
                      seq (fetchMethods ev userId)
                          (emit (ToastSuccess (methodName method @ '' authentication ''
                             @ (if isEnrolled then ''enrolled'' else ''updated'')
                             @ '' successfully'')))))
            (\<lambda>e. seq (emit (ToastError (''Failed to update '' @ methodName method
                                          @ '' authentication'')))
                      (emit (ConsoleError ''error''))))"

text \<open>
  \<^verbatim>\<open>logAuthAttempt(method, success, confidenceScore?, metadata?)\<close>: nothing without a
  user; otherwise, inside \<^verbatim>\<open>try\<close>, an insert into \<^verbatim>\<open>auth_logs\<close> (status
  \<^verbatim>\<open>'success'\<close> or \<^verbatim>\<open>'failure'\<close>, \<^verbatim>\<open>metadata || {}\<close>) whose returned error is only
  printed, then an insert into \<^verbatim>\<open>authentication_logs\<close> whose answer is ignored; the
  \<^verbatim>\<open>catch\<close> prints what was thrown.
\<close>

definition logAuthAttempt ::
  "env \<Rightarrow> uid option \<Rightarrow> AuthMethod \<Rightarrow> bool \<Rightarrow> real option \<Rightarrow> metadata option
     \<Rightarrow> ('c, unit) proc" where
  "logAuthAttempt ev userId method success confidenceScore metadata =
     (case userId of
        None \<Rightarrow> ret ()
      | Some u \<Rightarrow>
          tryCatch
            (andThen
               (insert_auth_logs (auth_logs_insert ev)
                  \<lparr>al_user_id = u, al_auth_type = method,
                   al_status = (if success then ''success'' else ''failure''),
                   al_confidence_score = confidenceScore,
                   al_metadata = (case metadata of None \<Rightarrow> [] | Some m \<Rightarrow> m)\<rparr>)
               (\<lambda>error.
                  seq
                    (case error of
                       Some e \<Rightarrow> emit (ConsoleError ''Failed to log to auth_logs:'')
                     | None \<Rightarrow> ret ())
                    (seq
                       (insert_authentication_logs (authentication_logs_insert ev)
                          \<lparr>lg_user_id = u, lg_method_type = method, lg_success = success,
                           lg_confidence_score = confidenceScore, lg_metadata = metadata\<rparr>)
                       (ret ()))))
            (\<lambda>e. emit (ConsoleError ''Failed to log authentication attempt:'')))"

text \<open>\<^verbatim>\<open>isMethodEnrolled\<close> and \<^verbatim>\<open>enrolledCount\<close>.\<close>

definition isMethodEnrolled :: "AuthMethodStatus list \<Rightarrow> AuthMethod \<Rightarrow> bool" where
  "isMethodEnrolled ms method =
     (case find (\<lambda>m. method_type m = method) ms of
        Some m \<Rightarrow> is_enrolled m
      | None \<Rightarrow> False)"

definition enrolledCount :: "AuthMethodStatus list \<Rightarrow> nat" where
  "enrolledCount ms = length (filter is_enrolled ms)"

section \<open>The component PinAuth\<close>

text \<open>\<^verbatim>\<open>hashPin\<close>: the UTF-8 bytes of the code go through
  \<^verbatim>\<open>crypto.subtle.digest('SHA-256', data)\<close>, a function of the platform and here the
  parameter \<open>digest\<close>; each byte of the result is printed as two lower-case hexadecimal
  digits (\<^verbatim>\<open>b.toString(16).padStart(2, '0')\<close>) and the digits are joined.\<close>

type_synonym byte = "8 word"

definition encode :: "string \<Rightarrow> byte list" where
  "encode str = map of_char str"

definition hexDigit :: "nat \<Rightarrow> char" where
  "hexDigit n = ''0123456789abcdef'' ! (n mod 16)"

definition toString16 :: "byte \<Rightarrow> string" where
  "toString16 b =
     (let n = unat b
      in if n < 16 then [hexDigit n] else [hexDigit (n div 16), hexDigit (n mod 16)])"

definition padStart2 :: "string \<Rightarrow> string" where
  "padStart2 str = replicate (2 - length str) (CHR ''0'') @ str"

definition hashPin :: "(byte list \<Rightarrow> byte list) \<Rightarrow> string \<Rightarrow> string" where
  "hashPin digest p = concat (map (\<lambda>b. padStart2 (toString16 b)) (digest (encode p)))"

definition hashPin_call :: "(byte list \<Rightarrow> byte list) \<Rightarrow> string \<Rightarrow> ('c, string) proc" where
  "hashPin_call digest p = seq (emit (DigestCalled p)) (ret (hashPin digest p))"

text \<open>Decimal digits of a number inside a template string.\<close>

fun showNat :: "nat \<Rightarrow> string" where
  "showNat n =
     (if n < 10 then [char_of (48 + n)] else showNat (n div 10) @ [char_of (48 + n mod 10)])"

datatype pin_step = Enter | Confirm

datatype auth_mode = Enroll | Verify

record PinAuthState =
  pin :: string
  confirmPin :: string
  step :: pin_step
  isProcessing :: bool
  attempts :: nat

definition PinAuth_initial :: PinAuthState where
  "PinAuth_initial =
     \<lparr>pin = [], confirmPin = [], step = Enter, isProcessing = False, attempts = 0\<rparr>"

definition maxAttempts :: nat where
  "maxAttempts = 3"

definition handleNumberPress :: "string \<Rightarrow> PinAuthState \<Rightarrow> PinAuthState" where
  "handleNumberPress number s =
     (if step s = Enter \<and> length (pin s) < 6 then s\<lparr>pin := pin s @ number\<rparr>
      else if step s = Confirm \<and> length (confirmPin s) < 6
        then s\<lparr>confirmPin := confirmPin s @ number\<rparr>
      else s)"

definition handleDelete :: "PinAuthState \<Rightarrow> PinAuthState" where
  "handleDelete s =
     (if step s = Enter then s\<lparr>pin := butlast (pin s)\<rparr>
      else s\<lparr>confirmPin := butlast (confirmPin s)\<rparr>)"

definition handleClear :: "PinAuthState \<Rightarrow> PinAuthState" where
  "handleClear s = (if step s = Enter then s\<lparr>pin := []\<rparr> else s\<lparr>confirmPin := []\<rparr>)"

text \<open>\<^verbatim>\<open>processPinAuth\<close>, enrolment: the first submission only checks the length and asks
  for the confirmation; the second one compares both entries, stores the hash with an
  upsert on \<^verbatim>\<open>user_id\<close>, marks the method enrolled and logs the attempt.\<close>

definition processPinAuth_enroll ::
  "(byte list \<Rightarrow> byte list) \<Rightarrow> env \<Rightarrow> uid \<Rightarrow> (PinAuthState, unit) proc" where
  "processPinAuth_enroll digest ev u w =
     (let s = comp w in
      if step s = Enter then
        (if length (pin s) < 4 then emit (ToastError ''Please enter at least 4 digits.'') w
         else setComp (\<lambda>c. c\<lparr>step := Confirm\<rparr>) w)
      else if pin s \<noteq> confirmPin s then
        seq (emit (ToastError ''PINs do not match. Please try again.''))
          (seq (setComp (\<lambda>c. c\<lparr>confirmPin := []\<rparr>))
            (seq (setComp (\<lambda>c. c\<lparr>pin := []\<rparr>))
                 (setComp (\<lambda>c. c\<lparr>step := Enter\<rparr>)))) w
      else
        seq (setComp (\<lambda>c. c\<lparr>isProcessing := True\<rparr>))
          (tryFinally
            (tryCatch
              (andThen (hashPin_call digest (pin s))
                (\<lambda>pinHash.
                   andThen (upsert_pins (pins_upsert ev) \<lparr>pr_user_id = u, pr_pin_hash = pinHash\<rparr>)
                     (\<lambda>error.
                        case error of
                          Some e \<Rightarrow> throw e
                        | None \<Rightarrow>
                            seq (updateMethodStatus ev (Some u) Pin True)
                              (seq (logAuthAttempt ev (Some u) Pin True None None)
                                (seq (emit (ToastSuccess ''PIN enrolled successfully''))
                                     (emit (OnComplete True)))))))
              (\<lambda>e. seq (emit (ConsoleError ''PIN enrollment error:''))
                     (seq (emit (ToastError ''Failed to enroll PIN''))
                          (emit (OnComplete False)))))
            (setComp (\<lambda>c. c\<lparr>isProcessing := False\<rparr>))) w)"

text \<open>\<^verbatim>\<open>processPinAuth\<close>, verification: the hash of the entry is compared with the stored
  one (\<^verbatim>\<open>data?.pin_hash === pinHash\<close>), the attempt is logged, and the parent is told
  the result; a wrong entry counts one attempt.\<close>

definition processPinAuth_verify ::
  "(byte list \<Rightarrow> byte list) \<Rightarrow> env \<Rightarrow> uid \<Rightarrow> (PinAuthState, unit) proc" where
  "processPinAuth_verify digest ev u w =
     (let s = comp w in
      if length (pin s) < 4 then emit (ToastError ''Please enter at least 4 digits.'') w
      else
        seq (setComp (\<lambda>c. c\<lparr>isProcessing := True\<rparr>))
          (tryFinally
            (tryCatch
              (andThen (hashPin_call digest (pin s))
                (\<lambda>pinHash.
                   andThen (select_pin_hash (pins_select ev) u)
                     (\<lambda>(data, error).
                        case error of
                          Some e \<Rightarrow> throw e
                        | None \<Rightarrow>
                            (let success = (data = Some pinHash) in
                             seq (logAuthAttempt ev (Some u) Pin success None None)
                               (if success then
                                  seq (emit (ToastSuccess ''PIN verified successfully''))
                                      (emit (OnComplete True))
                                else
                                  (let newAttempts = attempts s + 1 in
                                   seq (setComp (\<lambda>c. c\<lparr>attempts := newAttempts\<rparr>))
                                     (seq
                                       (if newAttempts \<ge> maxAttempts then
                                          seq (emit (ToastError
                                                 ''Too many failed attempts. Please try again later.''))
                                              (emit OnClose)
                                        else
                                          seq (emit (ToastError (''Incorrect PIN. ''
                                                 @ showNat (maxAttempts - newAttempts)
                                                 @ '' attempts remaining.'')))
                                              (setComp (\<lambda>c. c\<lparr>pin := []\<rparr>)))
                                       (emit (OnComplete False)))))))))
              (\<lambda>e. seq (emit (ConsoleError ''PIN verification error:''))
                     (seq (emit (ToastError ''Failed to verify PIN''))
                          (emit (OnComplete False)))))
            (setComp (\<lambda>c. c\<lparr>isProcessing := False\<rparr>))) w)"

definition processPinAuth ::
  "(byte list \<Rightarrow> byte list) \<Rightarrow> env \<Rightarrow> uid option \<Rightarrow> auth_mode \<Rightarrow> (PinAuthState, unit) proc" where
  "processPinAuth digest ev user mode =
     (case user of
        None \<Rightarrow> ret ()
      | Some u \<Rightarrow>
          (if mode = Enroll then processPinAuth_enroll digest ev u
           else processPinAuth_verify digest ev u))"

text \<open>The dialog: the keypad rows, and what a click does. A button without a number is
  invisible and disabled; all buttons are disabled while a submission is processed; clear
  and delete need a non-empty entry and the submit button at least four characters.\<close>

definition keypadNumbers :: "string list list" where
  "keypadNumbers =
     [[''1'', ''2'', ''3''], [''4'', ''5'', ''6''], [''7'', ''8'', ''9''], [[], ''0'', []]]"

datatype pin_click = PressNumber nat nat | PressClear | PressDelete | PressSubmit

definition PinAuth_click ::
  "(byte list \<Rightarrow> byte list) \<Rightarrow> env \<Rightarrow> uid option \<Rightarrow> auth_mode \<Rightarrow> bool \<Rightarrow> pin_click
     \<Rightarrow> (PinAuthState, unit) proc" where
  "PinAuth_click digest ev user mode isOpen click w =
     (let s = comp w; currentPin = (if step s = Enter then pin s else confirmPin s) in
      if \<not> isOpen then ret () w
      else
        (case click of
           PressNumber r c \<Rightarrow>
             (if r < length keypadNumbers \<and> c < length (keypadNumbers ! r) then
                (let number = keypadNumbers ! r ! c in
                 if number = [] \<or> isProcessing s then ret () w
                 else setComp (handleNumberPress number) w)
              else ret () w)
         | PressClear \<Rightarrow>
             (if length currentPin = 0 \<or> isProcessing s then ret () w else setComp handleClear w)
         | PressDelete \<Rightarrow>
             (if length currentPin = 0 \<or> isProcessing s then ret () w else setComp handleDelete w)
         | PressSubmit \<Rightarrow>
             (if length currentPin < 4 \<or> isProcessing s then ret () w
              else processPinAuth digest ev user mode w)))"

text \<open>A series of clicks in the open dialog; the outcomes of the requests are the same
  for every click.\<close>

fun PinAuth_clicks ::
  "(byte list \<Rightarrow> byte list) \<Rightarrow> env \<Rightarrow> uid option \<Rightarrow> auth_mode \<Rightarrow> pin_click list
     \<Rightarrow> PinAuthState world \<Rightarrow> PinAuthState world \<times> effect list" where
  "PinAuth_clicks digest ev user mode [] w = (w, [])"
| "PinAuth_clicks digest ev user mode (c # cs) w =
     (case PinAuth_click digest ev user mode True c w of
        (r, w1, t1) \<Rightarrow>
          (case PinAuth_clicks digest ev user mode cs w1 of (w2, t2) \<Rightarrow> (w2, t1 @ t2)))"

section \<open>The hook usePythonAPI\<close>

text \<open>The answer of the recognition service, \<^verbatim>\<open>EmbeddingResponse\<close>.\<close>

record EmbeddingResponse =
  er_success :: bool
  er_match :: "bool option"
  er_confidence :: "real option"
  er_message :: "string option"

text \<open>How \<^verbatim>\<open>fetch\<close> ends: the promise rejects, or there is a response with a status
  and a body that \<^verbatim>\<open>response.json()\<close> can read or not.\<close>

datatype http_outcome = FetchRejects | Response nat "EmbeddingResponse option"

definition response_ok :: "nat \<Rightarrow> bool" where
  "response_ok status = (200 \<le> status \<and> status \<le> 299)"

text \<open>One request sent to the recognition service: whatever the service itself writes to
  the database is written while the client awaits the answer.\<close>

definition recognition_request :: "env \<Rightarrow> ('c, unit) proc" where
  "recognition_request ev w = (Inr (), w\<lparr>db := recognition_service ev (db w)\<rparr>, [])"

text \<open>\<^verbatim>\<open>enrollVoice\<close>, \<^verbatim>\<open>enrollFace\<close> and \<^verbatim>\<open>enrollGesture\<close>: a status outside 200..299
  is thrown; the result is the \<^verbatim>\<open>success\<close> field; whatever is thrown ends in
  \<^verbatim>\<open>return false\<close>.\<close>

definition enrollVoice :: "env \<Rightarrow> http_outcome \<Rightarrow> ('c, bool) proc" where
  "enrollVoice ev resp =
     tryCatch
       (seq (recognition_request ev)
         (case resp of
            FetchRejects \<Rightarrow> throw RequestFailed
          | Response status body \<Rightarrow>
              (if \<not> response_ok status then throw RequestFailed
               else
                 (case body of
                    None \<Rightarrow> throw RequestFailed
                  | Some data \<Rightarrow>
                      (if er_success data then
                         seq (emit (ToastSuccess ''Voice enrolled successfully'')) (ret True)
                       else
                         seq (emit (ToastError
                                (case er_message data of
                                   Some m \<Rightarrow> (if m = [] then ''Failed to enroll voice'' else m)
                                 | None \<Rightarrow> ''Failed to enroll voice'')))
                             (ret False))))))
       (\<lambda>e. seq (emit (ConsoleError ''Voice enrollment error:''))
              (seq (emit (ToastError ''Failed to connect to voice recognition service''))
                   (ret False)))"

definition enrollFace :: "env \<Rightarrow> http_outcome \<Rightarrow> ('c, bool) proc" where
  "enrollFace ev resp =
     tryCatch
       (seq (recognition_request ev)
         (case resp of
            FetchRejects \<Rightarrow> throw RequestFailed
          | Response status body \<Rightarrow>
              (if \<not> response_ok status then throw RequestFailed
               else
                 (case body of
                    None \<Rightarrow> throw RequestFailed
                  | Some data \<Rightarrow>
                      (if er_success data then
                         seq (emit (ToastSuccess ''Face enrolled successfully'')) (ret True)
                       else
                         seq (emit (ToastError
                                (case er_message data of
                                   Some m \<Rightarrow> (if m = [] then ''Failed to enroll face'' else m)
                                 | None \<Rightarrow> ''Failed to enroll face'')))
                             (ret False))))))
       (\<lambda>e. seq (emit (ConsoleError ''[usePythonAPI] Face enrollment error:''))
              (seq (emit (ToastError ''Failed to connect to face recognition service''))
                   (ret False)))"

definition enrollGesture :: "env \<Rightarrow> http_outcome \<Rightarrow> ('c, bool) proc" where
  "enrollGesture ev resp =
     tryCatch
       (seq (recognition_request ev)
         (case resp of
            FetchRejects \<Rightarrow> throw RequestFailed
          | Response status body \<Rightarrow>
              (if \<not> response_ok status then throw RequestFailed
               else
                 (case body of
                    None \<Rightarrow> throw RequestFailed
                  | Some data \<Rightarrow>
                      (if er_success data then
                         seq (emit (ToastSuccess ''Gesture enrolled successfully'')) (ret True)
                       else
                         seq (emit (ToastError
                                (case er_message data of
                                   Some m \<Rightarrow> (if m = [] then ''Failed to enroll gesture'' else m)
                                 | None \<Rightarrow> ''Failed to enroll gesture'')))
                             (ret False))))))
       (\<lambda>e. seq (emit (ConsoleError ''Gesture enrollment error:''))
              (seq (emit (ToastError ''Failed to connect to gesture recognition service''))
                   (ret False)))"

text \<open>\<^verbatim>\<open>verifyVoice\<close>, \<^verbatim>\<open>verifyFace\<close> and \<^verbatim>\<open>verifyGesture\<close>: the body is returned
  whatever the status; a rejected request or an unreadable body gives
  \<^verbatim>\<open>{ success: false, message: 'Connection failed' }\<close>.\<close>

definition connection_failed :: EmbeddingResponse where
  "connection_failed =
     \<lparr>er_success = False, er_match = None, er_confidence = None,
      er_message = Some ''Connection failed''\<rparr>"

definition verifyVoice :: "env \<Rightarrow> http_outcome \<Rightarrow> ('c, EmbeddingResponse) proc" where
  "verifyVoice ev resp =
     tryCatch
       (seq (recognition_request ev)
         (case resp of
            FetchRejects \<Rightarrow> throw RequestFailed
          | Response status body \<Rightarrow>
              (case body of None \<Rightarrow> throw RequestFailed | Some data \<Rightarrow> ret data)))
       (\<lambda>e. seq (emit (ConsoleError ''Voice verification error:''))
              (seq (emit (ToastError ''Failed to connect to voice recognition service''))
                   (ret connection_failed)))"

definition verifyFace :: "env \<Rightarrow> http_outcome \<Rightarrow> ('c, EmbeddingResponse) proc" where
  "verifyFace ev resp =
     tryCatch
       (seq (recognition_request ev)
         (case resp of
            FetchRejects \<Rightarrow> throw RequestFailed
          | Response status body \<Rightarrow>
              (case body of None \<Rightarrow> throw RequestFailed | Some data \<Rightarrow> ret data)))
       (\<lambda>e. seq (emit (ConsoleError ''[usePythonAPI] Face verification error:''))
              (seq (emit (ToastError ''Failed to connect to face recognition service''))
                   (ret connection_failed)))"

definition verifyGesture :: "env \<Rightarrow> http_outcome \<Rightarrow> ('c, EmbeddingResponse) proc" where
  "verifyGesture ev resp =
     tryCatch
       (seq (recognition_request ev)
         (case resp of
            FetchRejects \<Rightarrow> throw RequestFailed
          | Response status body \<Rightarrow>
              (case body of None \<Rightarrow> throw RequestFailed | Some data \<Rightarrow> ret data)))
       (\<lambda>e. seq (emit (ConsoleError ''Gesture verification error:''))
              (seq (emit (ToastError ''Failed to connect to gesture recognition service''))
                   (ret connection_failed)))"

section \<open>The components VoiceAuth, FaceAuth and GestureAuth\<close>

type_synonym blob = "byte list"

record VoiceAuthState =
  audioBlob :: "blob option"
  voice_isProcessing :: bool

text \<open>\<^verbatim>\<open>processVoiceAuth\<close>: \<^verbatim>\<open>success\<close> starts as \<^verbatim>\<open>false\<close> and \<^verbatim>\<open>confidence\<close> as
  \<^verbatim>\<open>0\<close>; enrolment sets only \<^verbatim>\<open>success\<close>, verification sets both
  (\<^verbatim>\<open>result.success && (result.match ?? false)\<close>, \<^verbatim>\<open>result.confidence ?? 0\<close>); then
  \<^verbatim>\<open>logAuthAttempt('voice', success, confidence)\<close> and the callback.\<close>

definition processVoiceAuth ::
  "env \<Rightarrow> http_outcome \<Rightarrow> uid option \<Rightarrow> auth_mode \<Rightarrow> (VoiceAuthState, unit) proc" where
  "processVoiceAuth ev resp user mode w =
     (case (audioBlob (comp w), user) of
        (Some blob, Some u) \<Rightarrow>
          seq (setComp (\<lambda>c. c\<lparr>voice_isProcessing := True\<rparr>))
            (tryFinally
              (tryCatch
                (andThen
                  (if mode = Enroll then
                     andThen (enrollVoice ev resp)
                       (\<lambda>success.
                          seq (if success then updateMethodStatus ev (Some u) Voice True else ret ())
                              (ret (success, 0)))
                   else
                     andThen (verifyVoice ev resp)
                       (\<lambda>result.
                          ret (er_success result
                                 \<and> (case er_match result of Some m \<Rightarrow> m | None \<Rightarrow> False),
                               (case er_confidence result of Some c \<Rightarrow> c | None \<Rightarrow> 0))))
                  (\<lambda>(success, confidence).
                     seq (logAuthAttempt ev (Some u) Voice success (Some confidence) None)
                       (if success then
                          seq (emit (ToastSuccess (''Voice ''
                                 @ (if mode = Enroll then ''enrolled'' else ''verified'')
                                 @ '' successfully'')))
                              (emit (OnComplete True))
                        else
                          seq (emit (ToastError (''Voice ''
                                 @ (if mode = Enroll then ''enrollment'' else ''verification'')
                                 @ '' failed'')))
                              (emit (OnComplete False)))))
                (\<lambda>e. seq (emit (ConsoleError ''Voice authentication error:''))
                       (seq (emit (ToastError ''Failed to process voice authentication''))
                            (emit (OnComplete False)))))
              (setComp (\<lambda>c. c\<lparr>voice_isProcessing := False\<rparr>))) w
      | _ \<Rightarrow> ret () w)"

text \<open>The sources hold two components \<^verbatim>\<open>FaceAuth\<close>. The first captures several frames.\<close>

record FaceAuthState =
  capturedImages :: "blob list"
  thumbnails :: "string list"
  cameraError :: "string option"
  face_isProcessing :: bool

text \<open>\<^verbatim>\<open>handleClose\<close> of that FaceAuth: the camera is stopped, the captures are dropped
  and the parent's \<^verbatim>\<open>onClose\<close> is called.\<close>

definition FaceAuth_handleClose :: "(FaceAuthState, unit) proc" where
  "FaceAuth_handleClose =
     seq (setComp (\<lambda>c. c\<lparr>capturedImages := []\<rparr>))
       (seq (setComp (\<lambda>c. c\<lparr>thumbnails := []\<rparr>))
         (seq (setComp (\<lambda>c. c\<lparr>cameraError := None\<rparr>))
              (emit OnClose)))"

text \<open>\<^verbatim>\<open>processFaceAuth\<close> (the component that captures several frames): as for the voice,
  with all frames sent for enrolment and the first one for verification; after a success the
  dialog closes itself.\<close>

definition processFaceAuth ::
  "env \<Rightarrow> http_outcome \<Rightarrow> uid option \<Rightarrow> auth_mode \<Rightarrow> (FaceAuthState, unit) proc" where
  "processFaceAuth ev resp user mode w =
     (case (capturedImages (comp w), user) of
        (img # imgs, Some u) \<Rightarrow>
          seq (setComp (\<lambda>c. c\<lparr>face_isProcessing := True\<rparr>))
            (tryFinally
              (tryCatch
                (andThen
                  (if mode = Enroll then
                     andThen (enrollFace ev resp)
                       (\<lambda>success.
                          seq (if success then updateMethodStatus ev (Some u) Face True else ret ())
                              (ret (success, 0)))
                   else
                     andThen (verifyFace ev resp)
                       (\<lambda>result.
                          ret (er_success result
                                 \<and> (case er_match result of Some m \<Rightarrow> m | None \<Rightarrow> False),
                               (case er_confidence result of Some c \<Rightarrow> c | None \<Rightarrow> 0))))
                  (\<lambda>(success, confidence).
                     seq (logAuthAttempt ev (Some u) Face success (Some confidence) None)
                       (if success then
                          seq (emit (ToastSuccess (''Face ''
                                 @ (if mode = Enroll then ''enrolled'' else ''verified'')
                                 @ '' successfully'')))
                            (seq (emit (OnComplete True)) FaceAuth_handleClose)
                        else
                          seq (emit (ToastError (''Face ''
                                 @ (if mode = Enroll then ''enrollment'' else ''verification'')
                                 @ '' failed'')))
                              (emit (OnComplete False)))))
                (\<lambda>e. seq (emit (ConsoleError ''[FaceAuth] Authentication error:''))
                       (seq (emit (ToastError ''Failed to process face authentication''))
                            (emit (OnComplete False)))))
              (setComp (\<lambda>c. c\<lparr>face_isProcessing := False\<rparr>))) w
      | _ \<Rightarrow> emit (ToastError ''Please capture at least one image'') w)"

text \<open>The second \<^verbatim>\<open>FaceAuth\<close> keeps one captured frame as a data URL. Its
  \<^verbatim>\<open>processFaceAuth\<close> first reads the frame back into a blob
  (\<^verbatim>\<open>await fetch(capturedImage)\<close>, \<^verbatim>\<open>await response.blob()\<close>), which may reject: whether
  it can be read is the parameter \<open>readable\<close>. After a success it calls
  \<^verbatim>\<open>onComplete(true)\<close> and leaves the closing to the parent. The guard
  \<^verbatim>\<open>!capturedImage\<close> also holds for the empty string.\<close>

record FaceCaptureState =
  capturedImage :: "string option"
  capture_isProcessing :: bool

definition processFaceAuth_single ::
  "env \<Rightarrow> bool \<Rightarrow> http_outcome \<Rightarrow> uid option \<Rightarrow> auth_mode \<Rightarrow> (FaceCaptureState, unit) proc" where
  "processFaceAuth_single ev readable resp user mode w =
     (case (capturedImage (comp w), user) of
        (Some captured, Some u) \<Rightarrow>
          (if captured = [] then ret () w
           else
            seq (setComp (\<lambda>c. c\<lparr>capture_isProcessing := True\<rparr>))
              (tryFinally
                (tryCatch
                  (seq (if readable then ret () else throw RequestFailed)
                    (andThen
                      (if mode = Enroll then
                         andThen (enrollFace ev resp)
                           (\<lambda>success.
                              seq (if success then updateMethodStatus ev (Some u) Face True
                                   else ret ())
                                  (ret (success, 0)))
                       else
                         andThen (verifyFace ev resp)
                           (\<lambda>result.
                              ret (er_success result
                                     \<and> (case er_match result of Some m \<Rightarrow> m | None \<Rightarrow> False),
                                   (case er_confidence result of Some c \<Rightarrow> c | None \<Rightarrow> 0))))
                      (\<lambda>(success, confidence).
                         seq (logAuthAttempt ev (Some u) Face success (Some confidence) None)
                           (if success then
                              seq (emit (ToastSuccess (''Face ''
                                     @ (if mode = Enroll then ''enrolled'' else ''verified'')
                                     @ '' successfully'')))
                                  (emit (OnComplete True))
                            else
                              seq (emit (ToastError (''Face ''
                                     @ (if mode = Enroll then ''enrollment'' else ''verification'')
                                     @ '' failed'')))
                                  (emit (OnComplete False))))))
                  (\<lambda>e. seq (emit (ConsoleError ''Face authentication error:''))
                         (seq (emit (ToastError ''Failed to process face authentication''))
                              (emit (OnComplete False)))))
                (setComp (\<lambda>c. c\<lparr>capture_isProcessing := False\<rparr>))) w)
      | _ \<Rightarrow> ret () w)"

text \<open>The sources also hold two components \<^verbatim>\<open>GestureAuth\<close>. The first records hand
  landmarks with the camera, frame by frame; like the first FaceAuth it closes itself after
  a success.\<close>

type_synonym frame = "real list"

record GestureAuthState =
  gestureData :: "frame list"
  gesture_cameraError :: "string option"
  gesture_isProcessing :: bool

definition GestureAuth_handleClose :: "(GestureAuthState, unit) proc" where
  "GestureAuth_handleClose =
     seq (setComp (\<lambda>c. c\<lparr>gestureData := []\<rparr>))
       (seq (setComp (\<lambda>c. c\<lparr>gesture_cameraError := None\<rparr>))
            (emit OnClose))"

definition processGestureAuth ::
  "env \<Rightarrow> http_outcome \<Rightarrow> uid option \<Rightarrow> auth_mode \<Rightarrow> (GestureAuthState, unit) proc" where
  "processGestureAuth ev resp user mode w =
     (case (gestureData (comp w), user) of
        (fr # frs, Some u) \<Rightarrow>
          seq (setComp (\<lambda>c. c\<lparr>gesture_isProcessing := True\<rparr>))
            (tryFinally
              (tryCatch
                (andThen
                  (if mode = Enroll then
                     andThen (enrollGesture ev resp)
                       (\<lambda>success.
                          seq (if success then updateMethodStatus ev (Some u) Gesture True
                               else ret ())
                              (ret (success, 0)))
                   else
                     andThen (verifyGesture ev resp)
                       (\<lambda>result.
                          ret (er_success result
                                 \<and> (case er_match result of Some m \<Rightarrow> m | None \<Rightarrow> False),
                               (case er_confidence result of Some c \<Rightarrow> c | None \<Rightarrow> 0))))
                  (\<lambda>(success, confidence).
                     seq (logAuthAttempt ev (Some u) Gesture success (Some confidence) None)
                       (if success then
                          seq (emit (ToastSuccess (''Gesture ''
                                 @ (if mode = Enroll then ''enrolled'' else ''verified'')
                                 @ '' successfully'')))
                            (seq (emit (OnComplete True)) GestureAuth_handleClose)
                        else
                          seq (emit (ToastError (''Gesture ''
                                 @ (if mode = Enroll then ''enrollment'' else ''verification'')
                                 @ '' failed'')))
                              (emit (OnComplete False)))))
                (\<lambda>e. seq (emit (ConsoleError ''[GestureAuth] Authentication error:''))
                       (seq (emit (ToastError ''Failed to process gesture authentication''))
                            (emit (OnComplete False)))))
              (setComp (\<lambda>c. c\<lparr>gesture_isProcessing := False\<rparr>))) w
      | _ \<Rightarrow> emit (ToastError ''Please record a gesture first'') w)"

text \<open>The second \<^verbatim>\<open>GestureAuth\<close> takes one recording of the motion sensor over
  Bluetooth; it returns at once without a recording and leaves the closing to the parent.\<close>

record GestureSensorState =
  sensorGesture :: "frame option"
  sensor_isProcessing :: bool

definition processGestureAuth_sensor ::
  "env \<Rightarrow> http_outcome \<Rightarrow> uid option \<Rightarrow> auth_mode \<Rightarrow> (GestureSensorState, unit) proc" where
  "processGestureAuth_sensor ev resp user mode w =
     (case (sensorGesture (comp w), user) of
        (Some recording, Some u) \<Rightarrow>
          seq (setComp (\<lambda>c. c\<lparr>sensor_isProcessing := True\<rparr>))
            (tryFinally
              (tryCatch
                (andThen
                  (if mode = Enroll then
                     andThen (enrollGesture ev resp)
                       (\<lambda>success.
                          seq (if success then updateMethodStatus ev (Some u) Gesture True
                               else ret ())
                              (ret (success, 0)))
                   else
                     andThen (verifyGesture ev resp)
                       (\<lambda>result.
                          ret (er_success result
                                 \<and> (case er_match result of Some m \<Rightarrow> m | None \<Rightarrow> False),
                               (case er_confidence result of Some c \<Rightarrow> c | None \<Rightarrow> 0))))
                  (\<lambda>(success, confidence).
                     seq (logAuthAttempt ev (Some u) Gesture success (Some confidence) None)
                       (if success then
                          seq (emit (ToastSuccess (''Gesture ''
                                 @ (if mode = Enroll then ''enrolled'' else ''verified'')
                                 @ '' successfully'')))
                              (emit (OnComplete True))
                        else
                          seq (emit (ToastError (''Gesture ''
                                 @ (if mode = Enroll then ''enrollment'' else ''verification'')
                                 @ '' failed'')))
                              (emit (OnComplete False)))))
                (\<lambda>e. seq (emit (ConsoleError ''Gesture authentication error:''))
                       (seq (emit (ToastError ''Failed to process gesture authentication''))
                            (emit (OnComplete False)))))
              (setComp (\<lambda>c. c\<lparr>sensor_isProcessing := False\<rparr>))) w
      | _ \<Rightarrow> ret () w)"

section \<open>The page Authenticate\<close>

record AuthenticateState =
  currentStep :: AuthStep
  stepStatus :: "AuthStep \<Rightarrow> bool option"
  isAuthenticating :: bool
  showModal :: bool

text \<open>The page mounts the four dialogs, each with a state cell \<^verbatim>\<open>isProcessing\<close> of its
  own that is set from the click on its submit button until its verification has answered
  and the callbacks are made (\<^verbatim>\<open>setIsProcessing(true)\<close> up to \<^verbatim>\<open>finally\<close>).\<close>

record AuthenticatePage = AuthenticateState +
  processing :: "AuthStep \<Rightarrow> bool"

definition Authenticate_initial :: AuthenticatePage where
  "Authenticate_initial =
     \<lparr>currentStep = Face, stepStatus = (\<lambda>_. None), isAuthenticating = False,
      showModal = False, processing = (\<lambda>_. False)\<rparr>"

text \<open>\<^verbatim>\<open>startAuthentication\<close>: without a sensor connection one is requested first, and a
  failure to connect ends the handler.\<close>

definition startAuthentication ::
  "bool \<Rightarrow> bool \<Rightarrow> 'a AuthenticateState_scheme
     \<Rightarrow> 'a AuthenticateState_scheme \<times> effect list" where
  "startAuthentication isConnected connectSucceeds p =
     (if \<not> isConnected \<and> \<not> connectSucceeds then (p, [ToastError ''Please connect to Arduino first''])
      else (p\<lparr>isAuthenticating := True, currentStep := Face, showModal := True\<rparr>, []))"

text \<open>\<^verbatim>\<open>Array.prototype.indexOf\<close>: the first position of the element, or \<open>-1\<close>.\<close>

fun indexOf :: "'a list \<Rightarrow> 'a \<Rightarrow> int" where
  "indexOf [] x = -1"
| "indexOf (y # ys) x =
     (if y = x then 0 else (let i = indexOf ys x in if i < 0 then -1 else i + 1))"

text \<open>\<^verbatim>\<open>handleStepComplete(step, success)\<close>. It reads neither \<^verbatim>\<open>currentStep\<close> nor
  \<^verbatim>\<open>showModal\<close> nor \<^verbatim>\<open>isAuthenticating\<close>: the step is the one the calling dialog was
  mounted with.\<close>

definition handleStepComplete ::
  "AuthStep \<Rightarrow> bool \<Rightarrow> 'a AuthenticateState_scheme
     \<Rightarrow> 'a AuthenticateState_scheme \<times> effect list" where
  "handleStepComplete stp success p =
     (let p1 = p\<lparr>stepStatus := (stepStatus p)(stp := Some success)\<rparr>;
          p2 = p1\<lparr>showModal := False\<rparr>
      in if \<not> success then
           (p2\<lparr>isAuthenticating := False\<rparr>,
            [ToastError (methodName stp @ '' authentication failed'')])
         else
           (let steps = [Face, Voice, Gesture, Pin];
                currentIndex = indexOf steps stp
            in if currentIndex < int (length steps) - 1 then
                 (let nextStep = steps ! nat (currentIndex + 1)
                  in (p2\<lparr>currentStep := nextStep, showModal := True\<rparr>, []))
               else
                 (p2\<lparr>isAuthenticating := False\<rparr>,
                  [ToastSuccess ''Authentication successful!'', Navigate ''/dashboard''])))"

text \<open>The \<^verbatim>\<open>onClose\<close> given to each of the four dialogs.\<close>

definition modal_onClose :: "'a AuthenticateState_scheme \<Rightarrow> 'a AuthenticateState_scheme" where
  "modal_onClose p = p\<lparr>showModal := False, isAuthenticating := False\<rparr>"

text \<open>The dialog of a step is open when \<^verbatim>\<open>showModal && currentStep === step\<close>.\<close>

definition modalOpen :: "'a AuthenticateState_scheme \<Rightarrow> AuthStep \<Rightarrow> bool" where
  "modalOpen p stp = (showModal p \<and> currentStep p = stp)"

text \<open>What the page renders: the loading screen, the card \<^emph>\<open>Enrollment Required\<close> with the
  number of enrolled methods, or the page with the button \<^emph>\<open>Start Authentication\<close> and the
  four dialogs.\<close>

datatype view = LoadingView | EnrollmentRequiredView nat | AuthenticateView

definition enrolledMethods :: "AuthMethodStatus list \<Rightarrow> AuthMethod list" where
  "enrolledMethods ms = filter (\<lambda>m. isMethodEnrolled ms m) [Face, Voice, Gesture, Pin]"

definition Authenticate_render :: "bool \<Rightarrow> uid option \<Rightarrow> AuthMethodStatus list \<Rightarrow> view" where
  "Authenticate_render authLoading user ms =
     (if authLoading \<or> user = None then LoadingView
      else if length (enrolledMethods ms) < 3
        then EnrollmentRequiredView (length (enrolledMethods ms))
      else AuthenticateView)"

text \<open>The callbacks a dialog makes during one submission reach the page in their order.\<close>

fun apply_callbacks ::
  "AuthStep \<Rightarrow> effect list \<Rightarrow> 'a AuthenticateState_scheme
     \<Rightarrow> 'a AuthenticateState_scheme \<times> effect list" where
  "apply_callbacks stp [] p = (p, [])"
| "apply_callbacks stp (OnComplete b # es) p =
     (case handleStepComplete stp b p of
        (p1, t1) \<Rightarrow> (case apply_callbacks stp es p1 of (p2, t2) \<Rightarrow> (p2, t1 @ t2)))"
| "apply_callbacks stp (OnClose # es) p = apply_callbacks stp es (modal_onClose p)"
| "apply_callbacks stp (e # es) p = apply_callbacks stp es p"

text \<open>What a dialog tells the page when its verification has answered:
  \<^verbatim>\<open>onComplete(success)\<close> alone (VoiceAuth, the FaceAuth and the GestureAuth that leave
  the closing to the parent, PinAuth, and every failure), followed by \<^verbatim>\<open>onClose()\<close> (a
  success in the FaceAuth and the GestureAuth that close themselves), or preceded by it (the
  last wrong PIN).\<close>

datatype modal_report =
    Completed bool
  | CompletedThenClosed bool
  | ClosedThenCompleted bool

definition report_callbacks :: "modal_report \<Rightarrow> effect list" where
  "report_callbacks r =
     (case r of
        Completed b \<Rightarrow> [OnComplete b]
      | CompletedThenClosed b \<Rightarrow> [OnComplete b, OnClose]
      | ClosedThenCompleted b \<Rightarrow> [OnClose, OnComplete b])"

text \<open>The events of the page. A click on the start button, which is disabled while
  \<^verbatim>\<open>isAuthenticating\<close> (with the state of the sensor connection and whether connecting
  works). A click on the submit button of the dialog of a step, with a sample captured: the
  dialog has to be open and not processing (\<^verbatim>\<open>disabled={isProcessing}\<close>); the verification
  of the step is then invoked and awaited. The answer of an awaited verification: the dialog
  makes its callbacks and clears \<^verbatim>\<open>isProcessing\<close>; neither the dialog nor
  \<^verbatim>\<open>handleStepComplete\<close> asks whether the dialog is still open. The dismissal of an open
  dialog (\<^verbatim>\<open>onOpenChange\<close>), which calls \<^verbatim>\<open>onClose\<close>; the dialogs stay mounted.
  Nothing of this exists while the page renders something else. The second result is the
  step whose verification the event invokes, if it does.\<close>

datatype page_event =
    ClickStart bool bool
  | ModalSubmit AuthStep
  | ModalAnswer AuthStep modal_report
  | ModalDismiss AuthStep

definition Authenticate_event ::
  "bool \<Rightarrow> uid option \<Rightarrow> AuthMethodStatus list \<Rightarrow> page_event \<Rightarrow> AuthenticatePage
     \<Rightarrow> AuthenticatePage \<times> AuthStep option" where
  "Authenticate_event authLoading user ms e p =
     (if Authenticate_render authLoading user ms \<noteq> AuthenticateView then (p, None)
      else
        (case e of
           ClickStart isConnected connectSucceeds \<Rightarrow>
             (if isAuthenticating p then (p, None)
              else (fst (startAuthentication isConnected connectSucceeds p), None))
         | ModalSubmit stp \<Rightarrow>
             (if modalOpen p stp \<and> \<not> processing p stp then
                (p\<lparr>processing := (processing p)(stp := True)\<rparr>, Some stp)
              else (p, None))
         | ModalAnswer stp r \<Rightarrow>
             (if processing p stp then
                ((fst (apply_callbacks stp (report_callbacks r) p))
                   \<lparr>processing := (processing p)(stp := False)\<rparr>, None)
              else (p, None))
         | ModalDismiss stp \<Rightarrow>
             (if modalOpen p stp then (modal_onClose p, None) else (p, None))))"

text \<open>A run of the page over a list of events, with the steps whose verification was
  invoked, in order.\<close>

fun Authenticate_run ::
  "bool \<Rightarrow> uid option \<Rightarrow> AuthMethodStatus list \<Rightarrow> page_event list \<Rightarrow> AuthenticatePage
     \<Rightarrow> AuthenticatePage \<times> AuthStep list" where
  "Authenticate_run authLoading user ms [] p = (p, [])"
| "Authenticate_run authLoading user ms (e # es) p =
     (case Authenticate_event authLoading user ms e p of
        (p1, a) \<Rightarrow>
          (case Authenticate_run authLoading user ms es p1 of
             (p2, as) \<Rightarrow> (p2, (case a of Some stp \<Rightarrow> [stp] | None \<Rightarrow> []) @ as)))"

text \<open>The PIN dialog inside the page: a click on its submit button while the page shows it
  in verification mode, and the callbacks it makes.\<close>

definition Authenticate_pin_submit ::
  "(byte list \<Rightarrow> byte list) \<Rightarrow> env \<Rightarrow> uid option
     \<Rightarrow> AuthenticateState \<times> PinAuthState world
     \<Rightarrow> (AuthenticateState \<times> PinAuthState world) \<times> effect list" where
  "Authenticate_pin_submit digest ev user pw =
     (case pw of
        (p, w) \<Rightarrow>
          (case PinAuth_click digest ev user Verify (modalOpen p Pin) PressSubmit w of
             (r, w1, t) \<Rightarrow>
               (case apply_callbacks Pin t p of (p1, t1) \<Rightarrow> ((p1, w1), t @ t1))))"

section \<open>The matching decision\<close>

text \<open>Modelled from the spec: the decision step of \<^verbatim>\<open>MatchingService.verify\<close>. The
  recognition service (\<^verbatim>\<open>backend/services/face_service.py\<close>,
  \<^verbatim>\<open>voice_service.py\<close>) is not among the sources; only its callers and its
  documentation are. Following the specification, the candidates returned by the search are
  filtered to the claimed identity; no candidate gives \<open>NotEnrolled\<close>; otherwise the score
  of the candidate is compared with the threshold of the modality, a score greater than or
  equal to it being a match.\<close>

datatype VerifyOutcome = Match real | NoMatch real | NotEnrolled

text \<open>Modelled from the spec: the fixed threshold of the face modality, 0.75 (the
  configuration \<^verbatim>\<open>self.threshold\<close> of the absent \<^verbatim>\<open>face_service.py\<close>).\<close>

definition face_threshold :: real where
  "face_threshold = 0.75"

text \<open>Modelled from the spec: the fixed threshold of the voice modality, 0.70 (the
  configuration \<^verbatim>\<open>self.threshold\<close> of the absent \<^verbatim>\<open>voice_service.py\<close>).\<close>

definition voice_threshold :: real where
  "voice_threshold = 0.70"

text \<open>Modelled from the spec: the decision of \<^verbatim>\<open>MatchingService.verify\<close> on the
  candidates of the search, for the absent recognition service: the first candidate of the
  claimed identity decides, by \<open>score \<ge> threshold\<close>.\<close>

definition verify_decision :: "real \<Rightarrow> uid \<Rightarrow> (uid \<times> real) list \<Rightarrow> VerifyOutcome" where
  "verify_decision threshold claimed candidates =
     (case filter (\<lambda>c. fst c = claimed) candidates of
        [] \<Rightarrow> NotEnrolled
      | c # cs \<Rightarrow> (if snd c \<ge> threshold then Match (snd c) else NoMatch (snd c)))"

section \<open>The embedding index and the matching service\<close>

text \<open>Modelled from the spec: a feature vector and the per-modality store
  \<^verbatim>\<open>EmbeddingIndex\<close> of the recognition service, whose code
  (\<^verbatim>\<open>backend/services\<close>) is not among the sources: the entries (user, vector) in the
  order they were written.\<close>

type_synonym vector = "real list"

type_synonym EmbeddingIndex = "(uid \<times> vector) list"

text \<open>Modelled from the spec: the error taxonomy of the absent matching engine, as far
  as enrolment and verification can raise it.\<close>

datatype MatchError = DimensionMismatch | DegenerateVector

text \<open>Modelled from the spec: the Euclidean norm and the scaling of a vector to unit
  norm, for the absent \<^verbatim>\<open>EmbeddingIndex\<close> and \<^verbatim>\<open>MatchingService\<close>.\<close>

definition l2norm :: "vector \<Rightarrow> real" where
  "l2norm v = sqrt (sum_list (map (\<lambda>x. x * x) v))"

text \<open>Modelled from the spec: normalization, scaling a vector to unit Euclidean norm (the
  absent matching engine).\<close>

definition normalize :: "vector \<Rightarrow> vector" where
  "normalize v = map (\<lambda>x. x / l2norm v) v"

text \<open>Modelled from the spec: cosine similarity as the dot product of two unit-norm
  vectors (the absent \<^verbatim>\<open>EmbeddingIndex.search\<close>).\<close>

definition dot :: "vector \<Rightarrow> vector \<Rightarrow> real" where
  "dot a b = sum_list (map (\<lambda>(x, y). x * y) (zip a b))"

text \<open>Modelled from the spec: \<^verbatim>\<open>EmbeddingIndex.upsert(user_id, vector)\<close> of the absent
  recognition service: a vector of another length than the dimension fails with
  \<open>DimensionMismatch\<close>; otherwise the vector is normalized and replaces any existing
  vector of the user.\<close>

definition index_upsert ::
  "nat \<Rightarrow> uid \<Rightarrow> vector \<Rightarrow> EmbeddingIndex \<Rightarrow> MatchError + EmbeddingIndex" where
  "index_upsert dimension user_id v idx =
     (if length v \<noteq> dimension then Inl DimensionMismatch
      else Inr (filter (\<lambda>e. fst e \<noteq> user_id) idx @ [(user_id, normalize v)]))"

text \<open>Modelled from the spec: \<^verbatim>\<open>EmbeddingIndex.search(query_vector, k)\<close> of the absent
  recognition service: the \<open>k\<close> entries with the highest similarity to the query, as
  (user, score), in descending order of the score; the empty index gives the empty list.\<close>

definition index_search :: "vector \<Rightarrow> nat \<Rightarrow> EmbeddingIndex \<Rightarrow> (uid \<times> real) list" where
  "index_search query k idx =
     take k (sort_key (\<lambda>c. - snd c) (map (\<lambda>e. (fst e, dot query (snd e))) idx))"

text \<open>Modelled from the spec: \<^verbatim>\<open>MatchingService.enroll(user_id, modality, raw_vector)\<close>
  of the absent recognition service, over one index for each modality: a vector of norm
  zero fails with \<open>DegenerateVector\<close>; otherwise the normalized vector is handed to the
  \<open>upsert\<close> of the index of the modality. The dimension of each modality is a
  parameter.\<close>

definition MatchingService_enroll ::
  "(AuthMethod \<Rightarrow> nat) \<Rightarrow> uid \<Rightarrow> AuthMethod \<Rightarrow> vector \<Rightarrow> (AuthMethod \<Rightarrow> EmbeddingIndex)
     \<Rightarrow> MatchError + (AuthMethod \<Rightarrow> EmbeddingIndex)" where
  "MatchingService_enroll dimension user_id modality raw_vector store =
     (if l2norm raw_vector = 0 then Inl DegenerateVector
      else
        (case index_upsert (dimension modality) user_id (normalize raw_vector)
                (store modality) of
           Inl e \<Rightarrow> Inl e
         | Inr idx \<Rightarrow> Inr (store(modality := idx))))"

text \<open>Modelled from the spec: \<^verbatim>\<open>MatchingService.verify(user_id, modality, raw_vector)\<close>
  of the absent recognition service: the input is normalized, the index of the modality is
  searched for the \<open>k\<close> nearest entries, and the candidates decide as in
  \<open>verify_decision\<close>. The threshold of each modality and \<open>k\<close> are parameters.\<close>

definition MatchingService_verify ::
  "(AuthMethod \<Rightarrow> real) \<Rightarrow> nat \<Rightarrow> uid \<Rightarrow> AuthMethod \<Rightarrow> vector
     \<Rightarrow> (AuthMethod \<Rightarrow> EmbeddingIndex) \<Rightarrow> MatchError + VerifyOutcome" where
  "MatchingService_verify threshold k user_id modality raw_vector store =
     (if l2norm raw_vector = 0 then Inl DegenerateVector
      else Inr (verify_decision (threshold modality) user_id
                  (index_search (normalize raw_vector) k (store modality))))"

section \<open>Notions used in the statements\<close>

text \<open>The callbacks among the effects of a submission: what the operation reports to its
  caller.\<close>

definition is_callback :: "effect \<Rightarrow> bool" where
  "is_callback e = (case e of OnComplete b \<Rightarrow> True | OnClose \<Rightarrow> True | _ \<Rightarrow> False)"

definition callbacks :: "effect list \<Rightarrow> effect list" where
  "callbacks t = filter is_callback t"

text \<open>The same environment with other outcomes of the two inserts of the audit log.\<close>

definition with_log_outcomes :: "env \<Rightarrow> call_outcome \<Rightarrow> call_outcome \<Rightarrow> env" where
  "with_log_outcomes ev a b = ev\<lparr>auth_logs_insert := a, authentication_logs_insert := b\<rparr>"

text \<open>What the two kinds of request to the recognition service come to: an enrolment is
  accepted when the response has a status 200..299 and a readable body with
  \<^verbatim>\<open>success: true\<close>; the answer to a verification is the body, or the connection failure.\<close>

definition enroll_accepted :: "http_outcome \<Rightarrow> bool" where
  "enroll_accepted resp =
     (case resp of
        Response status (Some data) \<Rightarrow> response_ok status \<and> er_success data
      | _ \<Rightarrow> False)"

definition verify_answer :: "http_outcome \<Rightarrow> EmbeddingResponse" where
  "verify_answer resp =
     (case resp of Response status (Some data) \<Rightarrow> data | _ \<Rightarrow> connection_failed)"

text \<open>The codes handed to the digest function among the effects.\<close>

definition digested :: "effect list \<Rightarrow> string list" where
  "digested t = concat (map (\<lambda>e. case e of DigestCalled p \<Rightarrow> [p] | _ \<Rightarrow> []) t)"

text \<open>The decimal digits, and the entries the keypad can produce: at most six digits in
  each field; the confirmation step exists only in enrolment and is reached with at least
  four digits entered.\<close>

definition digits :: "char set" where
  "digits = set ''0123456789''"

definition pin_entry_ok :: "auth_mode \<Rightarrow> PinAuthState \<Rightarrow> bool" where
  "pin_entry_ok mode s =
     (length (pin s) \<le> 6 \<and> length (confirmPin s) \<le> 6
      \<and> set (pin s) \<subseteq> digits \<and> set (confirmPin s) \<subseteq> digits
      \<and> (case mode of
             Verify \<Rightarrow> step s = Enter
           | Enroll \<Rightarrow> step s = Enter \<or> 4 \<le> length (pin s)))"

section \<open>Auxiliary facts about the procedures\<close>

lemmas proc_defs = ret_def throw_def emit_def setComp_def setHook_def andThen_def seq_def
  tryCatch_def tryFinally_def

lemma callbacks_simps [simp]:
  "callbacks [] = []"
  "callbacks (OnComplete b # t) = OnComplete b # callbacks t"
  "callbacks (OnClose # t) = OnClose # callbacks t"
  "callbacks (ToastError x # t) = callbacks t"
  "callbacks (ToastSuccess x # t) = callbacks t"
  "callbacks (ConsoleError x # t) = callbacks t"
  "callbacks (DigestCalled x # t) = callbacks t"
  "callbacks (SupabaseCall x y # t) = callbacks t"
  "callbacks (Navigate x # t) = callbacks t"
  "callbacks (t1 @ t2) = callbacks t1 @ callbacks t2"
  by (simp_all add: callbacks_def is_callback_def)

lemma logAuthAttempt_result:
  "case logAuthAttempt ev userId m s c md w of
     (r, w1, t) \<Rightarrow> r = Inr () \<and> comp w1 = comp w \<and> hook w1 = hook w
        \<and> pins (db w1) = pins (db w)
        \<and> authentication_methods (db w1) = authentication_methods (db w)
        \<and> callbacks t = []"
proof (cases userId)
  case None
  then show ?thesis by (simp add: logAuthAttempt_def ret_def)
next
  case (Some u)
  show ?thesis
    unfolding Some
    by (cases "auth_logs_insert ev"; cases "authentication_logs_insert ev")
       (simp_all add: logAuthAttempt_def proc_defs insert_auth_logs_def
          insert_authentication_logs_def)
qed

lemma logAuthAttempt_proj [simp]:
  "fst (logAuthAttempt ev userId m s c md w) = Inr ()"
  "comp (fst (snd (logAuthAttempt ev userId m s c md w))) = comp w"
  "hook (fst (snd (logAuthAttempt ev userId m s c md w))) = hook w"
  "pins (db (fst (snd (logAuthAttempt ev userId m s c md w)))) = pins (db w)"
  "authentication_methods (db (fst (snd (logAuthAttempt ev userId m s c md w))))
     = authentication_methods (db w)"
  "callbacks (snd (snd (logAuthAttempt ev userId m s c md w))) = []"
  using logAuthAttempt_result [where ev = ev and userId = userId and m = m and s = s
      and c = c and md = md and w = w]
  by (simp_all add: split_beta)

lemma fetchMethods_result:
  "case fetchMethods ev userId w of
     (r, w1, t) \<Rightarrow> r = Inr () \<and> comp w1 = comp w \<and> db w1 = db w \<and> callbacks t = []"
proof (cases userId)
  case None
  then show ?thesis by (simp add: fetchMethods_def setHook_def)
next
  case (Some u)
  show ?thesis
    unfolding Some
    by (cases "methods_select ev")
       (simp_all add: fetchMethods_def proc_defs select_authentication_methods_def)
qed

lemma fetchMethods_proj [simp]:
  "fst (fetchMethods ev userId w) = Inr ()"
  "comp (fst (snd (fetchMethods ev userId w))) = comp w"
  "db (fst (snd (fetchMethods ev userId w))) = db w"
  "callbacks (snd (snd (fetchMethods ev userId w))) = []"
  using fetchMethods_result [where ev = ev and userId = userId and w = w]
  by (simp_all add: split_beta)

lemma updateMethodStatus_result:
  "case updateMethodStatus ev userId m b w of
     (r, w1, t) \<Rightarrow> r = Inr () \<and> comp w1 = comp w \<and> pins (db w1) = pins (db w)
        \<and> auth_logs (db w1) = auth_logs (db w)
        \<and> authentication_logs (db w1) = authentication_logs (db w)
        \<and> callbacks t = []"
proof (cases userId)
  case None
  then show ?thesis by (simp add: updateMethodStatus_def ret_def)
next
  case (Some u)
  show ?thesis
    unfolding Some
    by (cases "methods_upsert ev")
       (simp_all add: updateMethodStatus_def proc_defs upsert_authentication_methods_def
          split_beta)
qed

lemma updateMethodStatus_proj [simp]:
  "fst (updateMethodStatus ev userId m b w) = Inr ()"
  "comp (fst (snd (updateMethodStatus ev userId m b w))) = comp w"
  "pins (db (fst (snd (updateMethodStatus ev userId m b w)))) = pins (db w)"
  "auth_logs (db (fst (snd (updateMethodStatus ev userId m b w)))) = auth_logs (db w)"
  "authentication_logs (db (fst (snd (updateMethodStatus ev userId m b w))))
     = authentication_logs (db w)"
  "callbacks (snd (snd (updateMethodStatus ev userId m b w))) = []"
  using updateMethodStatus_result [where ev = ev and userId = userId and m = m and b = b
      and w = w]
  by (simp_all add: split_beta)

lemma enrollVoice_proj [simp]:
  "fst (enrollVoice ev resp w) = Inr (enroll_accepted resp)"
  "fst (snd (enrollVoice ev resp w)) = w\<lparr>db := recognition_service ev (db w)\<rparr>"
  "callbacks (snd (snd (enrollVoice ev resp w))) = []"
  by (simp_all add: enrollVoice_def enroll_accepted_def recognition_request_def proc_defs
        split: http_outcome.splits option.splits)

lemma enrollFace_proj [simp]:
  "fst (enrollFace ev resp w) = Inr (enroll_accepted resp)"
  "fst (snd (enrollFace ev resp w)) = w\<lparr>db := recognition_service ev (db w)\<rparr>"
  "callbacks (snd (snd (enrollFace ev resp w))) = []"
  by (simp_all add: enrollFace_def enroll_accepted_def recognition_request_def proc_defs
        split: http_outcome.splits option.splits)

lemma enrollGesture_proj [simp]:
  "fst (enrollGesture ev resp w) = Inr (enroll_accepted resp)"
  "fst (snd (enrollGesture ev resp w)) = w\<lparr>db := recognition_service ev (db w)\<rparr>"
  "callbacks (snd (snd (enrollGesture ev resp w))) = []"
  by (simp_all add: enrollGesture_def enroll_accepted_def recognition_request_def proc_defs
        split: http_outcome.splits option.splits)

lemma verifyVoice_proj [simp]:
  "fst (verifyVoice ev resp w) = Inr (verify_answer resp)"
  "fst (snd (verifyVoice ev resp w)) = w\<lparr>db := recognition_service ev (db w)\<rparr>"
  "callbacks (snd (snd (verifyVoice ev resp w))) = []"
  by (simp_all add: verifyVoice_def verify_answer_def recognition_request_def proc_defs
        split: http_outcome.splits option.splits)

lemma verifyFace_proj [simp]:
  "fst (verifyFace ev resp w) = Inr (verify_answer resp)"
  "fst (snd (verifyFace ev resp w)) = w\<lparr>db := recognition_service ev (db w)\<rparr>"
  "callbacks (snd (snd (verifyFace ev resp w))) = []"
  by (simp_all add: verifyFace_def verify_answer_def recognition_request_def proc_defs
        split: http_outcome.splits option.splits)

lemma verifyGesture_proj [simp]:
  "fst (verifyGesture ev resp w) = Inr (verify_answer resp)"
  "fst (snd (verifyGesture ev resp w)) = w\<lparr>db := recognition_service ev (db w)\<rparr>"
  "callbacks (snd (snd (verifyGesture ev resp w))) = []"
  by (simp_all add: verifyGesture_def verify_answer_def recognition_request_def proc_defs
        split: http_outcome.splits option.splits)

lemma upsert_keys: "key ` set (upsert key r xs) = insert (key r) (key ` set xs)"
  by (induction xs) auto

lemma distinct_upsert:
  "distinct (map key xs) \<Longrightarrow> distinct (map key (upsert key r xs))"
proof (induction xs)
  case Nil
  then show ?case by simp
next
  case (Cons x xs)
  have "key x \<noteq> key r \<Longrightarrow> key x \<notin> key ` set (upsert key r xs)"
    using Cons.prems by (simp add: upsert_keys)
  with Cons show ?case by auto
qed

lemma filter_absent_key:
  "k \<notin> key ` set xs \<Longrightarrow> filter (\<lambda>x. key x = k) xs = []"
  by (induction xs) auto

lemma filter_upsert_same:
  "distinct (map key xs) \<Longrightarrow> filter (\<lambda>x. key x = key r) (upsert key r xs) = [r]"
proof (induction xs)
  case Nil
  then show ?case by simp
next
  case (Cons x xs)
  show ?case
  proof (cases "key x = key r")
    case True
    then have "key r \<notin> key ` set xs" using Cons.prems by auto
    then have "filter (\<lambda>x. key x = key r) xs = []"
      by (rule filter_absent_key)
    with True show ?thesis by simp
  next
    case False
    with Cons show ?thesis by simp
  qed
qed

lemma filter_upsert_other:
  "k \<noteq> key r \<Longrightarrow> filter (\<lambda>x. key x = k) (upsert key r xs) = filter (\<lambda>x. key x = k) xs"
  by (induction xs) auto

lemma length_upsert:
  "length (upsert key r xs) = (if key r \<in> key ` set xs then length xs else Suc (length xs))"
  by (induction xs) auto

lemma upsert_idem_length:
  "length (upsert key r' (upsert key r xs)) = length (upsert key r xs)" if "key r' = key r"
  using that by (simp add: length_upsert upsert_keys)

lemma logAuthAttempt_db_cong:
  "db w = db w' \<Longrightarrow>
     db (fst (snd (logAuthAttempt ev userId m s c md w)))
       = db (fst (snd (logAuthAttempt ev userId m s c md w')))"
  by (cases userId; cases "auth_logs_insert ev"; cases "authentication_logs_insert ev")
     (simp_all add: logAuthAttempt_def proc_defs insert_auth_logs_def
        insert_authentication_logs_def)

lemma fetchMethods_db: "db (fst (snd (fetchMethods ev userId w))) = db w"
  by simp

lemma updateMethodStatus_db_cong:
  "db w = db w' \<Longrightarrow>
     db (fst (snd (updateMethodStatus ev userId m b w)))
       = db (fst (snd (updateMethodStatus ev userId m b w')))"
  by (cases userId; cases "methods_upsert ev")
     (simp_all add: updateMethodStatus_def proc_defs upsert_authentication_methods_def split_beta)

lemma digested_simps [simp]:
  "digested [] = []"
  "digested (DigestCalled p # t) = p # digested t"
  "digested (OnComplete b # t) = digested t"
  "digested (OnClose # t) = digested t"
  "digested (ToastError x # t) = digested t"
  "digested (ToastSuccess x # t) = digested t"
  "digested (ConsoleError x # t) = digested t"
  "digested (SupabaseCall x y # t) = digested t"
  "digested (Navigate x # t) = digested t"
  "digested (t1 @ t2) = digested t1 @ digested t2"
  by (simp_all add: digested_def)

lemma logAuthAttempt_digested [simp]:
  "digested (snd (snd (logAuthAttempt ev userId m s c md w))) = []"
  by (cases userId; cases "auth_logs_insert ev"; cases "authentication_logs_insert ev")
     (simp_all add: logAuthAttempt_def proc_defs insert_auth_logs_def
        insert_authentication_logs_def)

lemma fetchMethods_digested [simp]:
  "digested (snd (snd (fetchMethods ev userId w))) = []"
  by (cases userId; cases "methods_select ev")
     (simp_all add: fetchMethods_def proc_defs select_authentication_methods_def)

lemma updateMethodStatus_digested [simp]:
  "digested (snd (snd (updateMethodStatus ev userId m b w))) = []"
  by (cases userId; cases "methods_upsert ev")
     (simp_all add: updateMethodStatus_def proc_defs upsert_authentication_methods_def
        split_beta)

lemma processPinAuth_verify_short:
  "length (pin (comp w)) < 4 \<Longrightarrow>
     processPinAuth_verify digest ev u w
       = (Inr (), w, [ToastError ''Please enter at least 4 digits.''])"
  by (simp add: processPinAuth_verify_def emit_def)

lemma processPinAuth_enroll_short:
  "step (comp w) = Enter \<Longrightarrow> length (pin (comp w)) < 4 \<Longrightarrow>
     processPinAuth_enroll digest ev u w
       = (Inr (), w, [ToastError ''Please enter at least 4 digits.''])"
  by (simp add: processPinAuth_enroll_def emit_def)

lemma processPinAuth_verify_digested:
  "digested (snd (snd (processPinAuth_verify digest ev u w)))
     = (if length (pin (comp w)) < 4 then [] else [pin (comp w)])"
  by (cases "pins_select ev"; cases "filter (\<lambda>r. pr_user_id r = u) (pins (db w))")
     (simp_all add: processPinAuth_verify_def Let_def proc_defs hashPin_call_def
        select_pin_hash_def split_beta split: list.splits)

lemma processPinAuth_enroll_digested:
  "digested (snd (snd (processPinAuth_enroll digest ev u w)))
     = (if step (comp w) = Confirm \<and> pin (comp w) = confirmPin (comp w)
        then [pin (comp w)] else [])"
  by (cases "pins_upsert ev"; cases "step (comp w)")
     (simp_all add: processPinAuth_enroll_def Let_def proc_defs hashPin_call_def
        upsert_pins_def split_beta)

lemma processPinAuth_verify_entry_ok:
  "pin_entry_ok Verify (comp w) \<Longrightarrow>
     pin_entry_ok Verify (comp (fst (snd (processPinAuth_verify digest ev u w))))"
  by (cases "pins_select ev"; cases "filter (\<lambda>r. pr_user_id r = u) (pins (db w))")
     (simp_all add: processPinAuth_verify_def Let_def proc_defs hashPin_call_def
        select_pin_hash_def split_beta pin_entry_ok_def split: list.splits)

lemma processPinAuth_enroll_entry_ok:
  "pin_entry_ok Enroll (comp w) \<Longrightarrow>
     pin_entry_ok Enroll (comp (fst (snd (processPinAuth_enroll digest ev u w))))"
  by (cases "pins_upsert ev"; cases "step (comp w)")
     (auto simp add: processPinAuth_enroll_def Let_def proc_defs hashPin_call_def
        upsert_pins_def split_beta pin_entry_ok_def)

lemma filter_key_at_most_one:
  "distinct (map key xs) \<Longrightarrow>
     filter (\<lambda>x. key x = k) xs = []
     \<or> (\<exists>r. r \<in> set xs \<and> key r = k \<and> filter (\<lambda>x. key x = k) xs = [r])"
proof (induction xs)
  case Nil
  then show ?case by simp
next
  case (Cons x xs)
  show ?case
  proof (cases "key x = k")
    case True
    then have "k \<notin> key ` set xs" using Cons.prems by auto
    then have "filter (\<lambda>x. key x = k) xs = []" by (rule filter_absent_key)
    with True show ?thesis by simp
  next
    case False
    with Cons show ?thesis by auto
  qed
qed

lemma processPinAuth_verify_callbacks:
  "callbacks (snd (snd (processPinAuth_verify digest ev u w))) =
     (if length (pin (comp w)) < 4 then []
      else (case pins_select ev of
              Succeeds \<Rightarrow>
                (case filter (\<lambda>r. pr_user_id r = u) (pins (db w)) of
                   [] \<Rightarrow> (if attempts (comp w) + 1 \<ge> maxAttempts
                           then [OnClose, OnComplete False] else [OnComplete False])
                 | [r] \<Rightarrow> (if pr_pin_hash r = hashPin digest (pin (comp w)) then [OnComplete True]
                           else if attempts (comp w) + 1 \<ge> maxAttempts
                           then [OnClose, OnComplete False] else [OnComplete False])
                 | _ \<Rightarrow> [OnComplete False])
            | _ \<Rightarrow> [OnComplete False]))"
  by (cases "pins_select ev"; cases "filter (\<lambda>r. pr_user_id r = u) (pins (db w))")
     (simp_all add: processPinAuth_verify_def Let_def proc_defs hashPin_call_def
        select_pin_hash_def split_beta split: list.splits)

lemma processPinAuth_enroll_pins:
  "step (comp w) = Confirm \<Longrightarrow> pin (comp w) = confirmPin (comp w) \<Longrightarrow>
   pins_upsert ev = Succeeds \<Longrightarrow>
     pins (db (fst (snd (processPinAuth_enroll digest ev u w))))
       = upsert pr_user_id \<lparr>pr_user_id = u, pr_pin_hash = hashPin digest (pin (comp w))\<rparr>
           (pins (db w))"
  by (simp add: processPinAuth_enroll_def Let_def proc_defs hashPin_call_def upsert_pins_def
        split_beta)

lemma processPinAuth_enroll_db_by_hash:
  assumes "step (comp w) = Confirm" and "pin (comp w) = confirmPin (comp w)"
    and "step (comp w') = Confirm" and "pin (comp w') = confirmPin (comp w')"
    and "db w = db w'"
    and "hashPin digest (pin (comp w)) = hashPin digest (pin (comp w'))"
  shows "db (fst (snd (processPinAuth_enroll digest ev u w)))
           = db (fst (snd (processPinAuth_enroll digest ev u w')))"
proof (cases "pins_upsert ev")
  case Succeeds
  show ?thesis
    using assms Succeeds
    apply (simp add: processPinAuth_enroll_def Let_def proc_defs hashPin_call_def
        upsert_pins_def split_beta)
    apply (rule logAuthAttempt_db_cong)
    apply (rule updateMethodStatus_db_cong)
    apply simp
    done
next
  case ReturnsError
  with assms show ?thesis
    by (simp add: processPinAuth_enroll_def Let_def proc_defs hashPin_call_def
        upsert_pins_def split_beta)
next
  case Throws
  with assms show ?thesis
    by (simp add: processPinAuth_enroll_def Let_def proc_defs hashPin_call_def
        upsert_pins_def split_beta)
qed

lemma logAuthAttempt_auth_logs:
  "auth_logs_insert ev = Succeeds \<Longrightarrow>
     auth_logs (db (fst (snd (logAuthAttempt ev (Some u) m s c md w))))
       = auth_logs (db w)
         @ [\<lparr>al_user_id = u, al_auth_type = m,
              al_status = (if s then ''success'' else ''failure''),
              al_confidence_score = c,
              al_metadata = (case md of None \<Rightarrow> [] | Some x \<Rightarrow> x)\<rparr>]"
  by (cases "authentication_logs_insert ev")
     (simp_all add: logAuthAttempt_def proc_defs insert_auth_logs_def
        insert_authentication_logs_def)

lemma logAuthAttempt_authentication_logs:
  "auth_logs_insert ev \<noteq> Throws \<Longrightarrow> authentication_logs_insert ev = Succeeds \<Longrightarrow>
     authentication_logs (db (fst (snd (logAuthAttempt ev (Some u) m s c md w))))
       = authentication_logs (db w)
         @ [\<lparr>lg_user_id = u, lg_method_type = m, lg_success = s,
              lg_confidence_score = c, lg_metadata = md\<rparr>]"
  by (cases "auth_logs_insert ev")
     (simp_all add: logAuthAttempt_def proc_defs insert_auth_logs_def
        insert_authentication_logs_def)

lemma logAuthAttempt_effects:
  "SupabaseCall ''auth_logs'' ''insert''
      \<in> set (snd (snd (logAuthAttempt ev (Some u) m s c md w)))
   \<and> set (snd (snd (logAuthAttempt ev (Some u) m s c md w)))
      \<subseteq> {SupabaseCall ''auth_logs'' ''insert'', SupabaseCall ''authentication_logs'' ''insert'',
          ConsoleError ''Failed to log to auth_logs:'',
          ConsoleError ''Failed to log authentication attempt:''}"
  by (cases "auth_logs_insert ev"; cases "authentication_logs_insert ev")
     (simp_all add: logAuthAttempt_def proc_defs insert_auth_logs_def
        insert_authentication_logs_def)

lemma processPinAuth_verify_no_row:
  assumes "4 \<le> length (pin (comp w))" and "pins_select ev = Succeeds"
    and "filter (\<lambda>r. pr_user_id r = u) (pins (db w)) = []"
  shows "processPinAuth_verify digest ev u w =
           (Inr (),
            (fst (snd (logAuthAttempt ev (Some u) Pin False None None
                         (w\<lparr>comp := (comp w)\<lparr>isProcessing := True\<rparr>\<rparr>))))
              \<lparr>comp := (comp w)\<lparr>isProcessing := False, attempts := attempts (comp w) + 1,
                         pin := (if maxAttempts \<le> attempts (comp w) + 1
                                 then pin (comp w) else [])\<rparr>\<rparr>,
            [DigestCalled (pin (comp w)), SupabaseCall ''pins'' ''select'']
            @ snd (snd (logAuthAttempt ev (Some u) Pin False None None
                          (w\<lparr>comp := (comp w)\<lparr>isProcessing := True\<rparr>\<rparr>)))
            @ (if maxAttempts \<le> attempts (comp w) + 1
               then [ToastError ''Too many failed attempts. Please try again later.'', OnClose]
               else [ToastError (''Incorrect PIN. ''
                       @ showNat (maxAttempts - (attempts (comp w) + 1))
                       @ '' attempts remaining.'')])
            @ [OnComplete False])"
  using assms
  by (simp add: processPinAuth_verify_def Let_def proc_defs hashPin_call_def
        select_pin_hash_def split_beta prod_eq_iff del: showNat.simps)

lemma processPinAuth_verify_comp:
  "comp (fst (snd (processPinAuth_verify digest ev u w))) =
     (if length (pin (comp w)) < 4 then comp w
      else (case pins_select ev of
              Succeeds \<Rightarrow>
                (case filter (\<lambda>r. pr_user_id r = u) (pins (db w)) of
                   [] \<Rightarrow> (comp w)\<lparr>isProcessing := False, attempts := attempts (comp w) + 1,
                           pin := (if maxAttempts \<le> attempts (comp w) + 1
                                   then pin (comp w) else [])\<rparr>
                 | [r] \<Rightarrow> (if pr_pin_hash r = hashPin digest (pin (comp w))
                           then (comp w)\<lparr>isProcessing := False\<rparr>
                           else (comp w)\<lparr>isProcessing := False,
                                  attempts := attempts (comp w) + 1,
                                  pin := (if maxAttempts \<le> attempts (comp w) + 1
                                          then pin (comp w) else [])\<rparr>)
                 | _ \<Rightarrow> (comp w)\<lparr>isProcessing := False\<rparr>)
            | _ \<Rightarrow> (comp w)\<lparr>isProcessing := False\<rparr>))"
  by (cases "pins_select ev"; cases "filter (\<lambda>r. pr_user_id r = u) (pins (db w))")
     (simp_all add: processPinAuth_verify_def Let_def proc_defs hashPin_call_def
        select_pin_hash_def split_beta split: list.splits)

lemma processPinAuth_verify_pins:
  "pins (db (fst (snd (processPinAuth_verify digest ev u w)))) = pins (db w)"
  by (cases "pins_select ev"; cases "filter (\<lambda>r. pr_user_id r = u) (pins (db w))")
     (simp_all add: processPinAuth_verify_def Let_def proc_defs hashPin_call_def
        select_pin_hash_def split_beta split: list.splits)

lemma apply_callbacks_callbacks:
  "apply_callbacks stp t p = apply_callbacks stp (callbacks t) p"
  by (induction stp t p rule: apply_callbacks.induct)
     (auto simp add: callbacks_def is_callback_def split: prod.splits)

lemma showNat_small: "showNat 1 = ''1''" "showNat 2 = ''2''"
  by code_simp+

lemma identity_digest_hashes:
  "hashPin (\<lambda>bs. bs) ''0000'' = ''30303030''"
  "hashPin (\<lambda>bs. bs) ''1234'' = ''31323334''"
  by (simp_all add: hashPin_def encode_def toString16_def padStart2_def hexDigit_def)

section \<open>The claims\<close>

lemma processVoiceAuth_verify_report:
  "audioBlob (comp w) = Some blob \<Longrightarrow>
     callbacks (snd (snd (processVoiceAuth ev resp (Some u) Verify w)))
       = report_callbacks (Completed (er_success (verify_answer resp)
                                        \<and> er_match (verify_answer resp) = Some True))"
  by (cases "er_match (verify_answer resp)")
     (auto simp add: processVoiceAuth_def Let_def proc_defs split_beta report_callbacks_def)

lemma processFaceAuth_verify_report:
  "capturedImages (comp w) = img # imgs \<Longrightarrow>
     callbacks (snd (snd (processFaceAuth ev resp (Some u) Verify w)))
       = report_callbacks
           (if er_success (verify_answer resp) \<and> er_match (verify_answer resp) = Some True
            then CompletedThenClosed True else Completed False)"
  by (cases "er_match (verify_answer resp)")
     (auto simp add: processFaceAuth_def FaceAuth_handleClose_def Let_def proc_defs split_beta
        report_callbacks_def)

lemma processFaceAuth_single_verify_report:
  "capturedImage (comp w) = Some captured \<Longrightarrow> captured \<noteq> [] \<Longrightarrow>
     callbacks (snd (snd (processFaceAuth_single ev readable resp (Some u) Verify w)))
       = report_callbacks (Completed (readable \<and> er_success (verify_answer resp)
                                        \<and> er_match (verify_answer resp) = Some True))"
  by (cases "er_match (verify_answer resp)"; cases readable)
     (auto simp add: processFaceAuth_single_def Let_def proc_defs split_beta
        report_callbacks_def)

lemma processGestureAuth_verify_report:
  "gestureData (comp w) = fr # frs \<Longrightarrow>
     callbacks (snd (snd (processGestureAuth ev resp (Some u) Verify w)))
       = report_callbacks
           (if er_success (verify_answer resp) \<and> er_match (verify_answer resp) = Some True
            then CompletedThenClosed True else Completed False)"
  by (cases "er_match (verify_answer resp)")
     (auto simp add: processGestureAuth_def GestureAuth_handleClose_def Let_def proc_defs
        split_beta report_callbacks_def)

lemma processGestureAuth_sensor_verify_report:
  "sensorGesture (comp w) = Some recording \<Longrightarrow>
     callbacks (snd (snd (processGestureAuth_sensor ev resp (Some u) Verify w)))
       = report_callbacks (Completed (er_success (verify_answer resp)
                                        \<and> er_match (verify_answer resp) = Some True))"
  by (cases "er_match (verify_answer resp)")
     (auto simp add: processGestureAuth_sensor_def Let_def proc_defs split_beta
        report_callbacks_def)

lemma processPinAuth_verify_report:
  "4 \<le> length (pin (comp w)) \<Longrightarrow>
     \<exists>b. callbacks (snd (snd (processPinAuth digest ev (Some u) Verify w)))
           = report_callbacks (Completed b)
       \<or> callbacks (snd (snd (processPinAuth digest ev (Some u) Verify w)))
           = report_callbacks (ClosedThenCompleted False)"
  by (cases "pins_select ev"; cases "filter (\<lambda>r. pr_user_id r = u) (pins (db w))")
     (auto simp add: processPinAuth_def processPinAuth_verify_callbacks report_callbacks_def
        split: list.splits)

lemma all_enrolled_rendered:
  "Authenticate_render False (Some ''u1'')
     [\<lparr>method_type = Face, is_enrolled = True, enrolled_at = Some 11\<rparr>,
      \<lparr>method_type = Voice, is_enrolled = True, enrolled_at = Some 12\<rparr>,
      \<lparr>method_type = Gesture, is_enrolled = True, enrolled_at = Some 13\<rparr>,
      \<lparr>method_type = Pin, is_enrolled = True, enrolled_at = Some 14\<rparr>] = AuthenticateView"
  by (simp add: Authenticate_render_def enrolledMethods_def isMethodEnrolled_def)

lemmas page_defs = Authenticate_event_def all_enrolled_rendered startAuthentication_def
  modalOpen_def modal_onClose_def report_callbacks_def handleStepComplete_def Let_def

lemma voice_left_in_flight:
  "Authenticate_run False (Some ''u1'')
     [\<lparr>method_type = Face, is_enrolled = True, enrolled_at = Some 11\<rparr>,
      \<lparr>method_type = Voice, is_enrolled = True, enrolled_at = Some 12\<rparr>,
      \<lparr>method_type = Gesture, is_enrolled = True, enrolled_at = Some 13\<rparr>,
      \<lparr>method_type = Pin, is_enrolled = True, enrolled_at = Some 14\<rparr>]
     [ClickStart True True, ModalSubmit Face, ModalAnswer Face (Completed True),
      ModalSubmit Voice, ModalDismiss Voice]
     Authenticate_initial
   = (\<lparr>currentStep = Voice, stepStatus = (\<lambda>_. None)(Face := Some True),
       isAuthenticating = False, showModal = False,
       processing = (\<lambda>_. False)(Face := False, Voice := True)\<rparr>,
      [Face, Voice])"
  by (simp add: page_defs Authenticate_initial_def)

lemma late_answer_opens_gesture:
  "Authenticate_run False (Some ''u1'')
     [\<lparr>method_type = Face, is_enrolled = True, enrolled_at = Some 11\<rparr>,
      \<lparr>method_type = Voice, is_enrolled = True, enrolled_at = Some 12\<rparr>,
      \<lparr>method_type = Gesture, is_enrolled = True, enrolled_at = Some 13\<rparr>,
      \<lparr>method_type = Pin, is_enrolled = True, enrolled_at = Some 14\<rparr>]
     [ClickStart True True, ModalAnswer Voice (Completed True), ModalSubmit Gesture]
     \<lparr>currentStep = Voice, stepStatus = (\<lambda>_. None)(Face := Some True),
      isAuthenticating = False, showModal = False,
      processing = (\<lambda>_. False)(Face := False, Voice := True)\<rparr>
   = (\<lparr>currentStep = Gesture,
       stepStatus = (\<lambda>_. None)(Face := Some True, Voice := Some True),
       isAuthenticating = True, showModal = True,
       processing = (\<lambda>_. False)(Face := False, Voice := False, Gesture := True)\<rparr>,
      [Gesture])"
  by (simp add: page_defs fun_upd_twist)

lemma face_fails_in_second_sequence:
  "Authenticate_run False (Some ''u1'')
     [\<lparr>method_type = Face, is_enrolled = True, enrolled_at = Some 11\<rparr>,
      \<lparr>method_type = Voice, is_enrolled = True, enrolled_at = Some 12\<rparr>,
      \<lparr>method_type = Gesture, is_enrolled = True, enrolled_at = Some 13\<rparr>,
      \<lparr>method_type = Pin, is_enrolled = True, enrolled_at = Some 14\<rparr>]
     [ClickStart True True, ModalSubmit Face, ModalAnswer Face (Completed False)]
     \<lparr>currentStep = Voice, stepStatus = (\<lambda>_. None)(Face := Some True),
      isAuthenticating = False, showModal = False,
      processing = (\<lambda>_. False)(Face := False, Voice := True)\<rparr>
   = (\<lparr>currentStep = Face, stepStatus = (\<lambda>_. None)(Face := Some False),
       isAuthenticating = False, showModal = False,
       processing = (\<lambda>_. False)(Face := False, Voice := True)\<rparr>,
      [Face])"
  by (simp add: page_defs fun_upd_twist)

lemma gesture_invoked_after_failed_face:
  "Authenticate_run False (Some ''u1'')
     [\<lparr>method_type = Face, is_enrolled = True, enrolled_at = Some 11\<rparr>,
      \<lparr>method_type = Voice, is_enrolled = True, enrolled_at = Some 12\<rparr>,
      \<lparr>method_type = Gesture, is_enrolled = True, enrolled_at = Some 13\<rparr>,
      \<lparr>method_type = Pin, is_enrolled = True, enrolled_at = Some 14\<rparr>]
     [ModalAnswer Voice (Completed True), ModalSubmit Gesture]
     \<lparr>currentStep = Face, stepStatus = (\<lambda>_. None)(Face := Some False),
      isAuthenticating = False, showModal = False,
      processing = (\<lambda>_. False)(Face := False, Voice := True)\<rparr>
   = (\<lparr>currentStep = Gesture,
       stepStatus = (\<lambda>_. None)(Face := Some False, Voice := Some True),
       isAuthenticating = False, showModal = True,
       processing = (\<lambda>_. False)(Face := False, Voice := False, Gesture := True)\<rparr>,
      [Gesture])"
  by (simp add: page_defs fun_upd_twist)

lemma self_closing_face_dialog_ends_sequence:
  "Authenticate_run False (Some ''u1'')
     [\<lparr>method_type = Face, is_enrolled = True, enrolled_at = Some 11\<rparr>,
      \<lparr>method_type = Voice, is_enrolled = True, enrolled_at = Some 12\<rparr>,
      \<lparr>method_type = Gesture, is_enrolled = True, enrolled_at = Some 13\<rparr>,
      \<lparr>method_type = Pin, is_enrolled = True, enrolled_at = Some 14\<rparr>]
     [ClickStart True True, ModalSubmit Face, ModalAnswer Face (CompletedThenClosed True),
      ModalSubmit Voice]
     Authenticate_initial
   = (\<lparr>currentStep = Voice, stepStatus = (\<lambda>_. None)(Face := Some True),
       isAuthenticating = False, showModal = False,
       processing = (\<lambda>_. False)(Face := False)\<rparr>,
      [Face])"
  by (simp add: page_defs Authenticate_initial_def)

text \<open>
  Claim C1, the code at an input where it departs from the claim. All four methods are
  enrolled; the face dialog is the one that leaves the closing to the page. In a first
  sequence the face is verified and matches, the voice is submitted, and the voice dialog is
  dismissed while its verification is awaited: the sequence is over, the start button is
  enabled again, the voice verification is still in flight. Its late answer is handled like
  any other, because neither the dialog nor \<open>handleStepComplete\<close> looks at the state of the
  page. So, in a second sequence, a late match of the voice closes the face dialog and opens
  the gesture dialog: the first verification invoked in that sequence is the gesture. And
  when the face is verified in the second sequence and does not match, the sequence has
  failed (no dialog, not authenticating), yet the late match of the voice opens the gesture
  dialog and the gesture verification is invoked after the failing step. The reports used
  are the ones the face and voice dialogs make for such answers of the service.
\<close>

theorem late_answer_breaks_order_and_fail_fast:
  "(let ms = [\<lparr>method_type = Face, is_enrolled = True, enrolled_at = Some 11\<rparr>,
              \<lparr>method_type = Voice, is_enrolled = True, enrolled_at = Some 12\<rparr>,
              \<lparr>method_type = Gesture, is_enrolled = True, enrolled_at = Some 13\<rparr>,
              \<lparr>method_type = Pin, is_enrolled = True, enrolled_at = Some 14\<rparr>];
        run1 = Authenticate_run False (Some ''u1'') ms
                 [ClickStart True True, ModalSubmit Face, ModalAnswer Face (Completed True),
                  ModalSubmit Voice, ModalDismiss Voice]
                 Authenticate_initial;
        run2 = Authenticate_run False (Some ''u1'') ms
                 [ClickStart True True, ModalAnswer Voice (Completed True),
                  ModalSubmit Gesture]
                 (fst run1);
        run3 = Authenticate_run False (Some ''u1'') ms
                 [ClickStart True True, ModalSubmit Face, ModalAnswer Face (Completed False)]
                 (fst run1);
        run4 = Authenticate_run False (Some ''u1'') ms
                 [ModalAnswer Voice (Completed True), ModalSubmit Gesture]
                 (fst run3)
    in snd run1 = [Face, Voice]
       \<and> \<not> isAuthenticating (fst run1) \<and> \<not> showModal (fst run1)
       \<and> processing (fst run1) Voice
       \<and> snd run2 = [Gesture]
       \<and> isAuthenticating (fst run2) \<and> modalOpen (fst run2) Gesture
       \<and> snd run3 = [Face]
       \<and> stepStatus (fst run3) Face = Some False
       \<and> \<not> isAuthenticating (fst run3) \<and> \<not> showModal (fst run3)
       \<and> snd run4 = [Gesture]
       \<and> stepStatus (fst run4) Face = Some False \<and> modalOpen (fst run4) Gesture)
   \<and> callbacks (snd (snd (processFaceAuth_single (all_succeed 0) True
        (Response 200 (Some \<lparr>er_success = True, er_match = Some True,
                              er_confidence = Some 0.9, er_message = None\<rparr>))
        (Some ''u1'') Verify
        \<lparr>db = empty_database, hook = \<lparr>methods = [], loading = False\<rparr>,
         comp = \<lparr>capturedImage = Some ''data:image/jpeg;base64,AAAA'',
                 capture_isProcessing = False\<rparr>\<rparr>)))
       = report_callbacks (Completed True)
   \<and> callbacks (snd (snd (processFaceAuth_single (all_succeed 0) True
        (Response 200 (Some \<lparr>er_success = True, er_match = Some False,
                              er_confidence = Some 0.2, er_message = None\<rparr>))
        (Some ''u1'') Verify
        \<lparr>db = empty_database, hook = \<lparr>methods = [], loading = False\<rparr>,
         comp = \<lparr>capturedImage = Some ''data:image/jpeg;base64,AAAA'',
                 capture_isProcessing = False\<rparr>\<rparr>)))
       = report_callbacks (Completed False)
   \<and> callbacks (snd (snd (processVoiceAuth (all_succeed 0)
        (Response 200 (Some \<lparr>er_success = True, er_match = Some True,
                              er_confidence = Some 0.8, er_message = None\<rparr>))
        (Some ''u1'') Verify
        \<lparr>db = empty_database, hook = \<lparr>methods = [], loading = False\<rparr>,
         comp = \<lparr>audioBlob = Some [1, 2, 3], voice_isProcessing = False\<rparr>\<rparr>)))
       = report_callbacks (Completed True)"
proof -
  have page: "(let ms = [\<lparr>method_type = Face, is_enrolled = True, enrolled_at = Some 11\<rparr>,
              \<lparr>method_type = Voice, is_enrolled = True, enrolled_at = Some 12\<rparr>,
              \<lparr>method_type = Gesture, is_enrolled = True, enrolled_at = Some 13\<rparr>,
              \<lparr>method_type = Pin, is_enrolled = True, enrolled_at = Some 14\<rparr>];
        run1 = Authenticate_run False (Some ''u1'') ms
                 [ClickStart True True, ModalSubmit Face, ModalAnswer Face (Completed True),
                  ModalSubmit Voice, ModalDismiss Voice]
                 Authenticate_initial;
        run2 = Authenticate_run False (Some ''u1'') ms
                 [ClickStart True True, ModalAnswer Voice (Completed True),
                  ModalSubmit Gesture]
                 (fst run1);
        run3 = Authenticate_run False (Some ''u1'') ms
                 [ClickStart True True, ModalSubmit Face, ModalAnswer Face (Completed False)]
                 (fst run1);
        run4 = Authenticate_run False (Some ''u1'') ms
                 [ModalAnswer Voice (Completed True), ModalSubmit Gesture]
                 (fst run3)
    in snd run1 = [Face, Voice]
       \<and> \<not> isAuthenticating (fst run1) \<and> \<not> showModal (fst run1)
       \<and> processing (fst run1) Voice
       \<and> snd run2 = [Gesture]
       \<and> isAuthenticating (fst run2) \<and> modalOpen (fst run2) Gesture
       \<and> snd run3 = [Face]
       \<and> stepStatus (fst run3) Face = Some False
       \<and> \<not> isAuthenticating (fst run3) \<and> \<not> showModal (fst run3)
       \<and> snd run4 = [Gesture]
       \<and> stepStatus (fst run4) Face = Some False \<and> modalOpen (fst run4) Gesture)"
    unfolding Let_def voice_left_in_flight fst_conv snd_conv late_answer_opens_gesture
      face_fails_in_second_sequence gesture_invoked_after_failed_face
    by (simp add: modalOpen_def)
  have face_match: "callbacks (snd (snd (processFaceAuth_single (all_succeed 0) True
        (Response 200 (Some \<lparr>er_success = True, er_match = Some True,
                              er_confidence = Some 0.9, er_message = None\<rparr>))
        (Some ''u1'') Verify
        \<lparr>db = empty_database, hook = \<lparr>methods = [], loading = False\<rparr>,
         comp = \<lparr>capturedImage = Some ''data:image/jpeg;base64,AAAA'',
                 capture_isProcessing = False\<rparr>\<rparr>)))
       = report_callbacks (Completed True)"
    by (simp add: verify_answer_def processFaceAuth_single_verify_report
          [where captured = "''data:image/jpeg;base64,AAAA''"])
  have face_no_match: "callbacks (snd (snd (processFaceAuth_single (all_succeed 0) True
        (Response 200 (Some \<lparr>er_success = True, er_match = Some False,
                              er_confidence = Some 0.2, er_message = None\<rparr>))
        (Some ''u1'') Verify
        \<lparr>db = empty_database, hook = \<lparr>methods = [], loading = False\<rparr>,
         comp = \<lparr>capturedImage = Some ''data:image/jpeg;base64,AAAA'',
                 capture_isProcessing = False\<rparr>\<rparr>)))
       = report_callbacks (Completed False)"
    by (simp add: verify_answer_def processFaceAuth_single_verify_report
          [where captured = "''data:image/jpeg;base64,AAAA''"])
  have voice_match: "callbacks (snd (snd (processVoiceAuth (all_succeed 0)
        (Response 200 (Some \<lparr>er_success = True, er_match = Some True,
                              er_confidence = Some 0.8, er_message = None\<rparr>))
        (Some ''u1'') Verify
        \<lparr>db = empty_database, hook = \<lparr>methods = [], loading = False\<rparr>,
         comp = \<lparr>audioBlob = Some [1, 2, 3], voice_isProcessing = False\<rparr>\<rparr>)))
       = report_callbacks (Completed True)"
    by (subst processVoiceAuth_verify_report) (simp_all add: verify_answer_def)
  show ?thesis
    by (rule conjI [OF page conjI [OF face_match conjI [OF face_no_match voice_match]]])
qed

lemma first_wrong_pin_ends_sequence:
  "case Authenticate_pin_submit (\<lambda>bs. bs) (all_succeed 0) (Some ''u1'')
      (\<lparr>currentStep = Pin,
        stepStatus = (\<lambda>s. if s = Pin then None else Some True),
        isAuthenticating = True, showModal = True\<rparr>,
       \<lparr>db = empty_database
               \<lparr>pins := [\<lparr>pr_user_id = ''u1'', pr_pin_hash = hashPin (\<lambda>bs. bs) ''1234''\<rparr>]\<rparr>,
        hook = \<lparr>methods = [], loading = False\<rparr>,
        comp = \<lparr>pin = ''0000'', confirmPin = [], step = Enter, isProcessing = False,
                attempts = 0\<rparr>\<rparr>)
   of ((p, w), t) \<Rightarrow>
     \<not> showModal p \<and> \<not> isAuthenticating p \<and> stepStatus p Pin = Some False
     \<and> attempts (comp w) = 1 \<and> pin (comp w) = []
     \<and> ToastError ''Incorrect PIN. 2 attempts remaining.'' \<in> set t
     \<and> ToastError ''pin authentication failed'' \<in> set t"
proof -
  let ?p = "\<lparr>currentStep = Pin,
        stepStatus = (\<lambda>s. if s = Pin then None else Some True),
        isAuthenticating = True, showModal = True\<rparr>"
  let ?w = "\<lparr>db = empty_database
               \<lparr>pins := [\<lparr>pr_user_id = ''u1'', pr_pin_hash = hashPin (\<lambda>bs. bs) ''1234''\<rparr>]\<rparr>,
        hook = \<lparr>methods = [], loading = False\<rparr>,
        comp = \<lparr>pin = ''0000'', confirmPin = [], step = Enter, isProcessing = False,
                attempts = 0\<rparr>\<rparr>"
  let ?run = "processPinAuth_verify (\<lambda>bs. bs) (all_succeed 0) ''u1'' ?w"
  have click: "PinAuth_click (\<lambda>bs. bs) (all_succeed 0) (Some ''u1'') Verify True
                 PressSubmit ?w = ?run"
    by (simp add: PinAuth_click_def processPinAuth_def)
  have cb: "callbacks (snd (snd ?run)) = [OnComplete False]"
    by (simp add: processPinAuth_verify_callbacks identity_digest_hashes all_succeed_def
          empty_database_def maxAttempts_def)
  have st: "comp (fst (snd ?run))
              = \<lparr>pin = [], confirmPin = [], step = Enter, isProcessing = False, attempts = 1\<rparr>"
    by (simp add: processPinAuth_verify_comp identity_digest_hashes all_succeed_def
          empty_database_def maxAttempts_def)
  have toast: "ToastError ''Incorrect PIN. 2 attempts remaining.'' \<in> set (snd (snd ?run))"
    by (simp add: processPinAuth_verify_def Let_def proc_defs hashPin_call_def
          select_pin_hash_def split_beta all_succeed_def empty_database_def maxAttempts_def
          identity_digest_hashes showNat_small del: showNat.simps)
  have page: "apply_callbacks Pin (snd (snd ?run)) ?p
                = (\<lparr>currentStep = Pin,
                    stepStatus = (\<lambda>s. if s = Pin then Some False else Some True),
                    isAuthenticating = False, showModal = False\<rparr>,
                   [ToastError ''pin authentication failed''])"
    by (subst apply_callbacks_callbacks)
       (auto simp add: cb handleStepComplete_def methodName_def)
  show ?thesis
    using st toast by (simp add: Authenticate_pin_submit_def modalOpen_def click split_beta page)
qed


lemma PinAuth_clicks_append:
  "PinAuth_clicks digest ev user mode (xs @ ys) w =
     (case PinAuth_clicks digest ev user mode xs w of
        (w1, t1) \<Rightarrow>
          (case PinAuth_clicks digest ev user mode ys w1 of (w2, t2) \<Rightarrow> (w2, t1 @ t2)))"
  by (induction xs arbitrary: w) (simp_all add: split_beta)

lemma wrong_round:
  assumes "comp w = \<lparr>pin = [], confirmPin = [], step = Enter, isProcessing = False,
                      attempts = n\<rparr>"
    and "pins (db w) = [\<lparr>pr_user_id = ''u1'', pr_pin_hash = ''31323334''\<rparr>]"
  shows "comp (fst (PinAuth_clicks (\<lambda>bs. bs) (all_succeed 0) (Some ''u1'') Verify
            [PressNumber 3 1, PressNumber 3 1, PressNumber 3 1, PressNumber 3 1, PressSubmit] w))
          = \<lparr>pin = (if 3 \<le> n + 1 then ''0000'' else []), confirmPin = [], step = Enter,
             isProcessing = False, attempts = n + 1\<rparr>
       \<and> pins (db (fst (PinAuth_clicks (\<lambda>bs. bs) (all_succeed 0) (Some ''u1'') Verify
            [PressNumber 3 1, PressNumber 3 1, PressNumber 3 1, PressNumber 3 1, PressSubmit] w)))
          = [\<lparr>pr_user_id = ''u1'', pr_pin_hash = ''31323334''\<rparr>]
       \<and> callbacks (snd (PinAuth_clicks (\<lambda>bs. bs) (all_succeed 0) (Some ''u1'') Verify
            [PressNumber 3 1, PressNumber 3 1, PressNumber 3 1, PressNumber 3 1, PressSubmit] w))
          = (if 3 \<le> n + 1 then [OnClose, OnComplete False] else [OnComplete False])"
  using assms
  by (simp add: PinAuth_click_def keypadNumbers_def handleNumberPress_def
        processPinAuth_def setComp_def ret_def split_beta Let_def
        processPinAuth_verify_callbacks processPinAuth_verify_comp processPinAuth_verify_pins
        identity_digest_hashes all_succeed_def maxAttempts_def)

lemma right_round:
  assumes "comp w = \<lparr>pin = ''0000'', confirmPin = [], step = Enter, isProcessing = False,
                      attempts = n\<rparr>"
    and "pins (db w) = [\<lparr>pr_user_id = ''u1'', pr_pin_hash = ''31323334''\<rparr>]"
  shows "callbacks (snd (PinAuth_clicks (\<lambda>bs. bs) (all_succeed 0) (Some ''u1'') Verify
            [PressClear, PressNumber 0 0, PressNumber 0 1, PressNumber 0 2, PressNumber 1 0,
             PressSubmit] w))
          = [OnComplete True]"
  using assms
  by (simp add: PinAuth_click_def keypadNumbers_def handleNumberPress_def handleClear_def
        processPinAuth_def setComp_def ret_def split_beta Let_def
        processPinAuth_verify_callbacks processPinAuth_verify_comp processPinAuth_verify_pins
        identity_digest_hashes all_succeed_def maxAttempts_def)

lemma fourth_submission_accepted:
  "callbacks (snd (PinAuth_clicks (\<lambda>bs. bs) (all_succeed 0) (Some ''u1'') Verify
      [PressNumber 3 1, PressNumber 3 1, PressNumber 3 1, PressNumber 3 1, PressSubmit,
       PressNumber 3 1, PressNumber 3 1, PressNumber 3 1, PressNumber 3 1, PressSubmit,
       PressNumber 3 1, PressNumber 3 1, PressNumber 3 1, PressNumber 3 1, PressSubmit,
       PressClear,
       PressNumber 0 0, PressNumber 0 1, PressNumber 0 2, PressNumber 1 0, PressSubmit]
      \<lparr>db = empty_database
              \<lparr>pins := [\<lparr>pr_user_id = ''u1'', pr_pin_hash = hashPin (\<lambda>bs. bs) ''1234''\<rparr>]\<rparr>,
       hook = \<lparr>methods = [], loading = False\<rparr>,
       comp = PinAuth_initial\<rparr>))
   = [OnComplete False, OnComplete False, OnClose, OnComplete False, OnComplete True]"
proof -
  let ?wrong = "[PressNumber 3 1, PressNumber 3 1, PressNumber 3 1, PressNumber 3 1, PressSubmit]"
  let ?right = "[PressClear, PressNumber 0 0, PressNumber 0 1, PressNumber 0 2, PressNumber 1 0,
             PressSubmit]"
  let ?run = "PinAuth_clicks (\<lambda>bs. bs) (all_succeed 0) (Some ''u1'') Verify"
  let ?w0 = "\<lparr>db = empty_database
              \<lparr>pins := [\<lparr>pr_user_id = ''u1'', pr_pin_hash = hashPin (\<lambda>bs. bs) ''1234''\<rparr>]\<rparr>,
       hook = \<lparr>methods = [], loading = False\<rparr>,
       comp = PinAuth_initial\<rparr>"
  let ?w1 = "fst (?run ?wrong ?w0)"
  let ?w2 = "fst (?run ?wrong ?w1)"
  let ?w3 = "fst (?run ?wrong ?w2)"
  have r1: "comp ?w1 = \<lparr>pin = [], confirmPin = [], step = Enter, isProcessing = False,
                         attempts = 1\<rparr>
            \<and> pins (db ?w1) = [\<lparr>pr_user_id = ''u1'', pr_pin_hash = ''31323334''\<rparr>]
            \<and> callbacks (snd (?run ?wrong ?w0)) = [OnComplete False]"
    using wrong_round [of ?w0 0]
    by (simp add: PinAuth_initial_def empty_database_def identity_digest_hashes)
  have r2: "comp ?w2 = \<lparr>pin = [], confirmPin = [], step = Enter, isProcessing = False,
                         attempts = 2\<rparr>
            \<and> pins (db ?w2) = [\<lparr>pr_user_id = ''u1'', pr_pin_hash = ''31323334''\<rparr>]
            \<and> callbacks (snd (?run ?wrong ?w1)) = [OnComplete False]"
    using wrong_round [of ?w1 1] r1 by simp
  have r3: "comp ?w3 = \<lparr>pin = ''0000'', confirmPin = [], step = Enter, isProcessing = False,
                         attempts = 3\<rparr>
            \<and> pins (db ?w3) = [\<lparr>pr_user_id = ''u1'', pr_pin_hash = ''31323334''\<rparr>]
            \<and> callbacks (snd (?run ?wrong ?w2)) = [OnClose, OnComplete False]"
    using wrong_round [of ?w2 2] r2 by simp
  have r4: "callbacks (snd (?run ?right ?w3)) = [OnComplete True]"
    using right_round [of ?w3 3] r3 by simp
  have "?run (?wrong @ ?wrong @ ?wrong @ ?right) ?w0
          = (fst (?run ?right ?w3),
             snd (?run ?wrong ?w0) @ snd (?run ?wrong ?w1) @ snd (?run ?wrong ?w2)
               @ snd (?run ?right ?w3))"
    by (simp only: PinAuth_clicks_append split_beta fst_conv snd_conv)
  then have "callbacks (snd (?run (?wrong @ ?wrong @ ?wrong @ ?right) ?w0))
          = [OnComplete False, OnComplete False, OnClose, OnComplete False, OnComplete True]"
    using r1 r2 r3 r4 by simp
  then show ?thesis by simp
qed


lemma correct_pin_after_three_failures_completes:
  "case Authenticate_pin_submit (\<lambda>bs. bs) (all_succeed 0) (Some ''u1'')
      (\<lparr>currentStep = Pin,
        stepStatus = (\<lambda>s. if s = Pin then None else Some True),
        isAuthenticating = True, showModal = True\<rparr>,
       \<lparr>db = empty_database
               \<lparr>pins := [\<lparr>pr_user_id = ''u1'', pr_pin_hash = hashPin (\<lambda>bs. bs) ''1234''\<rparr>]\<rparr>,
        hook = \<lparr>methods = [], loading = False\<rparr>,
        comp = \<lparr>pin = ''1234'', confirmPin = [], step = Enter, isProcessing = False,
                attempts = 3\<rparr>\<rparr>)
   of ((p, w), t) \<Rightarrow>
     stepStatus p Pin = Some True \<and> ToastSuccess ''Authentication successful!'' \<in> set t"
proof -
  let ?p = "\<lparr>currentStep = Pin,
        stepStatus = (\<lambda>s. if s = Pin then None else Some True),
        isAuthenticating = True, showModal = True\<rparr>"
  let ?w = "\<lparr>db = empty_database
               \<lparr>pins := [\<lparr>pr_user_id = ''u1'', pr_pin_hash = hashPin (\<lambda>bs. bs) ''1234''\<rparr>]\<rparr>,
        hook = \<lparr>methods = [], loading = False\<rparr>,
        comp = \<lparr>pin = ''1234'', confirmPin = [], step = Enter, isProcessing = False,
                attempts = 3\<rparr>\<rparr>"
  let ?run = "processPinAuth_verify (\<lambda>bs. bs) (all_succeed 0) ''u1'' ?w"
  have click: "PinAuth_click (\<lambda>bs. bs) (all_succeed 0) (Some ''u1'') Verify True
                 PressSubmit ?w = ?run"
    by (simp add: PinAuth_click_def processPinAuth_def)
  have cb: "callbacks (snd (snd ?run)) = [OnComplete True]"
    by (simp add: processPinAuth_verify_callbacks identity_digest_hashes all_succeed_def
          empty_database_def maxAttempts_def)
  have page: "apply_callbacks Pin (snd (snd ?run)) ?p
                = (\<lparr>currentStep = Pin,
                    stepStatus = (\<lambda>s. if s = Pin then Some True else Some True),
                    isAuthenticating = False, showModal = False\<rparr>,
                   [ToastSuccess ''Authentication successful!'', Navigate ''/dashboard''])"
    by (subst apply_callbacks_callbacks)
       (auto simp add: cb handleStepComplete_def)
  show ?thesis
    by (simp add: Authenticate_pin_submit_def modalOpen_def click split_beta page)
qed

text \<open>
  Claim C2, the code at the inputs where it departs from the claim. With the code
  \<open>1234\<close> enrolled (the identity stands for the digest): a first wrong entry \<open>0000\<close>
  in the PIN step makes the dialog announce two remaining attempts and clear the field, but
  its \<open>OnComplete False\<close> makes the page close the dialog and end the sequence; and in
  the dialog, three wrong submissions are followed by a fourth, correct one that is accepted
  (\<open>OnComplete True\<close>), which the page then takes as the completion of the sequence.
\<close>

theorem pin_retry_ends_sequence_and_lockout_is_not_enforced:
  "(case Authenticate_pin_submit (\<lambda>bs. bs) (all_succeed 0) (Some ''u1'')
      (\<lparr>currentStep = Pin,
        stepStatus = (\<lambda>s. if s = Pin then None else Some True),
        isAuthenticating = True, showModal = True\<rparr>,
       \<lparr>db = empty_database
               \<lparr>pins := [\<lparr>pr_user_id = ''u1'', pr_pin_hash = hashPin (\<lambda>bs. bs) ''1234''\<rparr>]\<rparr>,
        hook = \<lparr>methods = [], loading = False\<rparr>,
        comp = \<lparr>pin = ''0000'', confirmPin = [], step = Enter, isProcessing = False,
                attempts = 0\<rparr>\<rparr>)
   of ((p, w), t) \<Rightarrow>
     \<not> showModal p \<and> \<not> isAuthenticating p \<and> stepStatus p Pin = Some False
     \<and> attempts (comp w) = 1 \<and> pin (comp w) = []
     \<and> ToastError ''Incorrect PIN. 2 attempts remaining.'' \<in> set t
     \<and> ToastError ''pin authentication failed'' \<in> set t)
   \<and> callbacks (snd (PinAuth_clicks (\<lambda>bs. bs) (all_succeed 0) (Some ''u1'') Verify
      [PressNumber 3 1, PressNumber 3 1, PressNumber 3 1, PressNumber 3 1, PressSubmit,
       PressNumber 3 1, PressNumber 3 1, PressNumber 3 1, PressNumber 3 1, PressSubmit,
       PressNumber 3 1, PressNumber 3 1, PressNumber 3 1, PressNumber 3 1, PressSubmit,
       PressClear,
       PressNumber 0 0, PressNumber 0 1, PressNumber 0 2, PressNumber 1 0, PressSubmit]
      \<lparr>db = empty_database
              \<lparr>pins := [\<lparr>pr_user_id = ''u1'', pr_pin_hash = hashPin (\<lambda>bs. bs) ''1234''\<rparr>]\<rparr>,
       hook = \<lparr>methods = [], loading = False\<rparr>,
       comp = PinAuth_initial\<rparr>))
     = [OnComplete False, OnComplete False, OnClose, OnComplete False, OnComplete True]
   \<and> (case Authenticate_pin_submit (\<lambda>bs. bs) (all_succeed 0) (Some ''u1'')
      (\<lparr>currentStep = Pin,
        stepStatus = (\<lambda>s. if s = Pin then None else Some True),
        isAuthenticating = True, showModal = True\<rparr>,
       \<lparr>db = empty_database
               \<lparr>pins := [\<lparr>pr_user_id = ''u1'', pr_pin_hash = hashPin (\<lambda>bs. bs) ''1234''\<rparr>]\<rparr>,
        hook = \<lparr>methods = [], loading = False\<rparr>,
        comp = \<lparr>pin = ''1234'', confirmPin = [], step = Enter, isProcessing = False,
                attempts = 3\<rparr>\<rparr>)
   of ((p, w), t) \<Rightarrow>
     stepStatus p Pin = Some True \<and> ToastSuccess ''Authentication successful!'' \<in> set t)"
  by (rule conjI [OF first_wrong_pin_ends_sequence
        conjI [OF fourth_submission_accepted correct_pin_after_three_failures_completes]])

lemma find_as_filter:
  "find P xs = (case filter P xs of [] \<Rightarrow> None | x # rest \<Rightarrow> Some x)"
  by (induction xs) simp_all

lemma verify_decision_found:
  "find (\<lambda>c. fst c = claimed) candidates = Some (v, score) \<Longrightarrow>
     verify_decision threshold claimed candidates
       = (if threshold \<le> score then Match score else NoMatch score)"
  by (auto simp: verify_decision_def find_as_filter split: list.splits)

text \<open>
  Claim C3. When the search returns a candidate for the claimed user, the decision depends
  only on the comparison of its score with the threshold of the modality, 0.75 for the face
  and 0.70 for the voice: a score greater than or equal to the threshold gives \<open>Match\<close>
  with the score as confidence, a smaller score gives \<open>NoMatch\<close> with the score as
  confidence, and a score equal to the threshold is a match.
\<close>

theorem threshold_comparison_is_inclusive:
  "find (\<lambda>c. fst c = claimed) candidates = Some (v, score) \<longrightarrow>
     (face_threshold \<le> score \<longrightarrow>
        verify_decision face_threshold claimed candidates = Match score)
     \<and> (score < face_threshold \<longrightarrow>
        verify_decision face_threshold claimed candidates = NoMatch score)
     \<and> (score = 0.75 \<longrightarrow>
        verify_decision face_threshold claimed candidates = Match 0.75)
     \<and> (voice_threshold \<le> score \<longrightarrow>
        verify_decision voice_threshold claimed candidates = Match score)
     \<and> (score < voice_threshold \<longrightarrow>
        verify_decision voice_threshold claimed candidates = NoMatch score)
     \<and> (score = 0.70 \<longrightarrow>
        verify_decision voice_threshold claimed candidates = Match 0.70)
     \<and> verify_decision threshold claimed candidates
         = (if threshold \<le> score then Match score else NoMatch score)"
proof
  assume found: "find (\<lambda>c. fst c = claimed) candidates = Some (v, score)"
  note d = verify_decision_found [OF found]
  show "(face_threshold \<le> score \<longrightarrow>
        verify_decision face_threshold claimed candidates = Match score)
     \<and> (score < face_threshold \<longrightarrow>
        verify_decision face_threshold claimed candidates = NoMatch score)
     \<and> (score = 0.75 \<longrightarrow>
        verify_decision face_threshold claimed candidates = Match 0.75)
     \<and> (voice_threshold \<le> score \<longrightarrow>
        verify_decision voice_threshold claimed candidates = Match score)
     \<and> (score < voice_threshold \<longrightarrow>
        verify_decision voice_threshold claimed candidates = NoMatch score)
     \<and> (score = 0.70 \<longrightarrow>
        verify_decision voice_threshold claimed candidates = Match 0.70)
     \<and> verify_decision threshold claimed candidates
         = (if threshold \<le> score then Match score else NoMatch score)"
    by (simp add: d face_threshold_def voice_threshold_def)
qed

theorem threshold_comparison_is_inclusive_witness:
  "verify_decision face_threshold ''u1'' [(''u2'', 0.9), (''u1'', 0.75), (''u3'', 0.1)]
     = Match 0.75
   \<and> verify_decision voice_threshold ''u1'' [(''u2'', 0.9), (''u1'', 0.75), (''u3'', 0.1)]
     = Match 0.75
   \<and> verify_decision 0.8 ''u1'' [(''u2'', 0.9), (''u1'', 0.75), (''u3'', 0.1)]
     = NoMatch 0.75"
  using threshold_comparison_is_inclusive
    [where claimed = "''u1''" and candidates = "[(''u2'', 0.9), (''u1'', 0.75), (''u3'', 0.1)]"
       and v = "''u1''" and score = "0.75" and threshold = "0.8"]
  by (simp add: face_threshold_def voice_threshold_def)












lemma Authenticate_run_not_rendered:
  "Authenticate_render l u ms \<noteq> AuthenticateView \<Longrightarrow>
     Authenticate_run l u ms evs p = (p, [])"
  by (induction evs) (simp_all add: Authenticate_event_def)

lemma isMethodEnrolled_completeMethodsList:
  "isMethodEnrolled (completeMethodsList rows) m
     = (case methodsMap_get rows m of Some r \<Rightarrow> am_is_enrolled r | None \<Rightarrow> False)"
proof -
  have found: "\<And>m r. methodsMap_get rows m = Some r \<Longrightarrow> am_method_type r = m"
    by (auto simp: methodsMap_get_def find_Some_iff)
  show ?thesis
    by (cases m)
       (auto simp: isMethodEnrolled_def completeMethodsList_def allMethods_def
          split: option.splits dest: found)
qed

text \<open>
  Claim C5. The page shows the start button, and reacts to any event, only when at least
  three of the four methods are enrolled for the signed-in user; with fewer, it renders the
  card \<^emph>\<open>Enrollment Required\<close> with the number of enrolled methods, and no event starts
  a sequence or runs a verification. A click that starts a sequence therefore implies three
  enrolled methods. A method counts as enrolled when the row of the user for it in
  \<open>authentication_methods\<close> says so.
\<close>

theorem authentication_requires_three_enrolled_methods:
  "(Authenticate_render False (Some u) ms = AuthenticateView
      \<longleftrightarrow> 3 \<le> length (enrolledMethods ms))
   \<and> (length (enrolledMethods ms) < 3 \<longrightarrow>
        Authenticate_render False (Some u) ms
          = EnrollmentRequiredView (length (enrolledMethods ms))
        \<and> Authenticate_event False (Some u) ms e p = (p, None)
        \<and> Authenticate_run False (Some u) ms evs p = (p, []))
   \<and> (\<not> isAuthenticating p
       \<and> isAuthenticating (fst (Authenticate_event l usr ms (ClickStart c d) p)) \<longrightarrow>
        3 \<le> length (enrolledMethods ms))
   \<and> length (enrolledMethods ms) \<le> 4
   \<and> enrolledMethods (completeMethodsList rows)
       = filter (\<lambda>m. case methodsMap_get rows m of Some r \<Rightarrow> am_is_enrolled r | None \<Rightarrow> False)
           [Face, Voice, Gesture, Pin]"
proof -
  have view: "Authenticate_render False (Some u) ms = AuthenticateView
      \<longleftrightarrow> 3 \<le> length (enrolledMethods ms)"
    by (simp add: Authenticate_render_def)
  have blocked: "length (enrolledMethods ms) < 3 \<longrightarrow>
        Authenticate_render False (Some u) ms
          = EnrollmentRequiredView (length (enrolledMethods ms))
        \<and> Authenticate_event False (Some u) ms e p = (p, None)
        \<and> Authenticate_run False (Some u) ms evs p = (p, [])"
  proof
    assume few: "length (enrolledMethods ms) < 3"
    then have v: "Authenticate_render False (Some u) ms
                    = EnrollmentRequiredView (length (enrolledMethods ms))"
      by (simp add: Authenticate_render_def)
    then have nv: "Authenticate_render False (Some u) ms \<noteq> AuthenticateView" by simp
    from nv have "Authenticate_event False (Some u) ms e p = (p, None)"
      by (simp add: Authenticate_event_def)
    moreover from nv have "Authenticate_run False (Some u) ms evs p = (p, [])"
      by (rule Authenticate_run_not_rendered)
    ultimately show "Authenticate_render False (Some u) ms
          = EnrollmentRequiredView (length (enrolledMethods ms))
        \<and> Authenticate_event False (Some u) ms e p = (p, None)
        \<and> Authenticate_run False (Some u) ms evs p = (p, [])"
      using v by simp
  qed
  have only_if: "\<not> isAuthenticating p
       \<and> isAuthenticating (fst (Authenticate_event l usr ms (ClickStart c d) p)) \<longrightarrow>
        3 \<le> length (enrolledMethods ms)"
    by (auto simp: Authenticate_event_def Authenticate_render_def split: if_splits)
  have at_most: "length (enrolledMethods ms) \<le> 4"
    using length_filter_le [of "\<lambda>m. isMethodEnrolled ms m" "[Face, Voice, Gesture, Pin]"]
    by (simp add: enrolledMethods_def del: length_filter_le)
  have rows: "enrolledMethods (completeMethodsList rows)
       = filter (\<lambda>m. case methodsMap_get rows m of Some r \<Rightarrow> am_is_enrolled r | None \<Rightarrow> False)
           [Face, Voice, Gesture, Pin]"
    unfolding enrolledMethods_def isMethodEnrolled_completeMethodsList ..
  show ?thesis
    by (rule conjI [OF view conjI [OF blocked conjI [OF only_if conjI [OF at_most rows]]]])
qed

theorem authentication_requires_three_enrolled_methods_witness:
  "Authenticate_render False (Some ''u1'')
       [\<lparr>method_type = Face, is_enrolled = True, enrolled_at = Some 1\<rparr>,
        \<lparr>method_type = Voice, is_enrolled = True, enrolled_at = Some 2\<rparr>,
        \<lparr>method_type = Gesture, is_enrolled = False, enrolled_at = None\<rparr>,
        \<lparr>method_type = Pin, is_enrolled = False, enrolled_at = None\<rparr>]
     = EnrollmentRequiredView 2
   \<and> Authenticate_event False (Some ''u1'')
       [\<lparr>method_type = Face, is_enrolled = True, enrolled_at = Some 1\<rparr>,
        \<lparr>method_type = Voice, is_enrolled = True, enrolled_at = Some 2\<rparr>,
        \<lparr>method_type = Gesture, is_enrolled = False, enrolled_at = None\<rparr>,
        \<lparr>method_type = Pin, is_enrolled = False, enrolled_at = None\<rparr>]
       (ClickStart True True) Authenticate_initial
     = (Authenticate_initial, None)"
  using authentication_requires_three_enrolled_methods
    [where u = "''u1''"
       and ms = "[\<lparr>method_type = Face, is_enrolled = True, enrolled_at = Some 1\<rparr>,
        \<lparr>method_type = Voice, is_enrolled = True, enrolled_at = Some 2\<rparr>,
        \<lparr>method_type = Gesture, is_enrolled = False, enrolled_at = None\<rparr>,
        \<lparr>method_type = Pin, is_enrolled = False, enrolled_at = None\<rparr>]"
       and e = "ClickStart True True" and p = Authenticate_initial]
  by (simp add: enrolledMethods_def isMethodEnrolled_def Authenticate_initial_def)

lemma updateMethodStatus_methods:
  "methods_upsert ev = Succeeds \<Longrightarrow>
     authentication_methods (db (fst (snd (updateMethodStatus ev (Some u) m b w))))
       = upsert methods_key
           \<lparr>am_user_id = u, am_method_type = m, am_is_enrolled = b,
            am_enrolled_at = (if b then Some (now ev) else None)\<rparr>
           (authentication_methods (db w))"
  by (simp add: updateMethodStatus_def proc_defs upsert_authentication_methods_def split_beta)

lemma upsert_upsert:
  "key r1 = key r2 \<Longrightarrow> upsert key r2 (upsert key r1 xs) = upsert key r2 xs"
  by (induction xs) auto

lemma sum_list_scaled_squares:
  "sum_list (map (\<lambda>x. x * x / c) v) = sum_list (map (\<lambda>x. x * x) v) / (c :: real)"
  by (induction v) (simp_all add: add_divide_distrib)

lemma sum_list_squares_nonneg: "0 \<le> sum_list (map (\<lambda>x. x * x) (v :: real list))"
  by (induction v) simp_all

lemma l2norm_normalize:
  assumes "l2norm v \<noteq> 0"
  shows "l2norm (normalize v) = 1"
proof -
  let ?S = "sum_list (map (\<lambda>x. x * x) v)"
  have nonneg: "0 \<le> ?S" by (rule sum_list_squares_nonneg)
  from assms have pos: "?S \<noteq> 0" by (auto simp: l2norm_def)
  have sq: "l2norm v * l2norm v = ?S" using nonneg by (simp add: l2norm_def)
  have "sum_list (map (\<lambda>x. x * x) (normalize v)) = ?S / (l2norm v * l2norm v)"
    by (simp add: normalize_def o_def sum_list_scaled_squares)
  also have "\<dots> = 1" using pos by (simp add: sq)
  finally show ?thesis by (simp add: l2norm_def)
qed

lemma normalize_unit: "l2norm v = 1 \<Longrightarrow> normalize v = v"
  by (simp add: normalize_def)

lemma normalize_idem: "l2norm v \<noteq> 0 \<Longrightarrow> normalize (normalize v) = normalize v"
  by (rule normalize_unit) (rule l2norm_normalize)

lemma length_normalize [simp]: "length (normalize v) = length v"
  by (simp add: normalize_def)

lemma filter_other_then_same:
  "filter (\<lambda>e. fst e = u) (filter (\<lambda>e. fst e \<noteq> u) idx) = []"
  by (induction idx) auto

lemma index_upsert_facts:
  assumes "index_upsert dimension u v idx = Inr idx'"
  shows "idx' = filter (\<lambda>e. fst e \<noteq> u) idx @ [(u, normalize v)]"
    and "length v = dimension"
    and "filter (\<lambda>e. fst e = u) idx' = [(u, normalize v)]"
    and "filter (\<lambda>e. fst e \<noteq> u) idx' = filter (\<lambda>e. fst e \<noteq> u) idx"
    and "distinct (map fst idx) \<Longrightarrow> distinct (map fst idx')"
proof -
  from assms show eq: "idx' = filter (\<lambda>e. fst e \<noteq> u) idx @ [(u, normalize v)]"
    and "length v = dimension"
    by (auto simp: index_upsert_def split: if_splits)
  show "filter (\<lambda>e. fst e = u) idx' = [(u, normalize v)]"
    by (simp add: eq filter_other_then_same)
  show "filter (\<lambda>e. fst e \<noteq> u) idx' = filter (\<lambda>e. fst e \<noteq> u) idx"
    by (simp add: eq)
  show "distinct (map fst idx')" if "distinct (map fst idx)"
    using that by (auto simp: eq distinct_map_filter)
qed

lemma index_upsert_twice:
  assumes "index_upsert dimension u v1 idx = Inr idx1"
    and "index_upsert dimension u v2 idx1 = Inr idx2"
  shows "index_upsert dimension u v2 idx = Inr idx2"
    and "length (filter (\<lambda>e. fst e = u) idx) = 1 \<Longrightarrow> length idx1 = length idx"
    and "length idx2 = length idx1"
proof -
  note a = index_upsert_facts [OF assms(1)] and b = index_upsert_facts [OF assms(2)]
  have same: "filter (\<lambda>e. fst e \<noteq> u) idx1 = filter (\<lambda>e. fst e \<noteq> u) idx" by (rule a(4))
  show "index_upsert dimension u v2 idx = Inr idx2"
    using b(1) b(2) same by (simp add: index_upsert_def)
  have split: "\<And>xs :: (uid \<times> vector) list.
      length xs = length (filter (\<lambda>e. fst e = u) xs) + length (filter (\<lambda>e. fst e \<noteq> u) xs)"
    using sum_length_filter_compl [where P = "\<lambda>e. fst e = u"] by (simp add: eq_commute)
  show "length idx1 = length idx" if "length (filter (\<lambda>e. fst e = u) idx) = 1"
    using that split [of idx] by (simp add: a(1))
  show "length idx2 = length idx1"
    using split [of idx1] by (simp add: b(1) a(3))
qed

lemma MatchingService_enroll_facts:
  assumes "MatchingService_enroll dimension u m v store = Inr store'"
  shows "l2norm v \<noteq> 0"
    and "index_upsert (dimension m) u (normalize v) (store m) = Inr (store' m)"
    and "store' = store(m := store' m)"
  using assms
  by (auto simp: MatchingService_enroll_def split: if_splits sum.splits)

lemma MatchingService_enroll_twice:
  assumes "MatchingService_enroll dimension u m v1 store = Inr s1"
    and "MatchingService_enroll dimension u m v2 s1 = Inr s2"
  shows "MatchingService_enroll dimension u m v2 store = Inr s2"
proof -
  note a = MatchingService_enroll_facts [OF assms(1)]
    and b = MatchingService_enroll_facts [OF assms(2)]
  have up: "index_upsert (dimension m) u (normalize v2) (store m) = Inr (s2 m)"
    using index_upsert_twice(1) [OF a(2) b(2)] .
  have "s2 = store(m := s2 m)"
    using a(3) b(3) by (metis fun_upd_upd)
  with up b(1) show ?thesis by (simp add: MatchingService_enroll_def)
qed

lemma index_search_candidate:
  assumes "c \<in> set (index_search q k idx)" and "fst c = u"
    and "filter (\<lambda>e. fst e = u) idx = [(u, v)]"
  shows "snd c = dot q v"
proof -
  from assms(1) have "c \<in> set (map (\<lambda>e. (fst e, dot q (snd e))) idx)"
    by (auto simp: index_search_def dest: in_set_takeD)
  then obtain e where e: "e \<in> set idx" "c = (fst e, dot q (snd e))" by auto
  with assms(2) have "e \<in> set (filter (\<lambda>e. fst e = u) idx)" by simp
  with assms(3) have "e = (u, v)" by simp
  with e(2) show ?thesis by simp
qed

lemma verify_decision_below_threshold:
  assumes "\<And>c. c \<in> set cands \<Longrightarrow> fst c = u \<Longrightarrow> snd c < threshold"
  shows "verify_decision threshold u cands \<noteq> Match x"
proof (cases "filter (\<lambda>c. fst c = u) cands")
  case Nil
  then show ?thesis by (simp add: verify_decision_def)
next
  case (Cons c cs)
  then have "c \<in> set (filter (\<lambda>c. fst c = u) cands)" by simp
  then have "c \<in> set cands" "fst c = u" by auto
  then have "snd c < threshold" by (rule assms)
  with Cons show ?thesis by (simp add: verify_decision_def)
qed

text \<open>
  Claim C6. One live record for each user and modality; enrolling again replaces it, and
  what is stored afterwards is what the second enrolment alone would have stored, so that
  a later verification depends on the most recent data only.
  For the biometric modalities the records are kept by the recognition service, modelled
  from the specification: after two enrolments of one user in one modality the index holds
  exactly one entry of the user, the second vector normalized; it has as many entries as
  after the first enrolment; the entries of other users, and the other modalities, are
  untouched; users stay distinct; the store equals the store the second enrolment alone
  gives; and verifying with the first vector does not match when the two vectors are less
  similar than the threshold.
  For the status rows of \<open>authentication_methods\<close> and for the stored code, as the sources
  write them: \<open>updateMethodStatus\<close> keeps the keys (user, method) distinct, leaves exactly
  one row for the pair, the one just written, and a second call for the pair adds no row
  and gives the table the second call alone gives; after two enrolments of a code the table
  \<open>pins\<close> has distinct users and one row of the user, with the hash of the second code,
  it is the table the second enrolment alone gives, and a later verification succeeds
  exactly when the entry has the hash of the second code.
\<close>

theorem one_record_per_user_and_modality:
  "(MatchingService_enroll dimension u m v1 store = Inr s1
      \<and> MatchingService_enroll dimension u m v2 s1 = Inr s2 \<longrightarrow>
      filter (\<lambda>e. fst e = u) (s1 m) = [(u, normalize v1)]
      \<and> filter (\<lambda>e. fst e = u) (s2 m) = [(u, normalize v2)]
      \<and> length (s2 m) = length (s1 m)
      \<and> filter (\<lambda>e. fst e \<noteq> u) (s2 m) = filter (\<lambda>e. fst e \<noteq> u) (store m)
      \<and> (\<forall>m'. m' \<noteq> m \<longrightarrow> s2 m' = store m')
      \<and> (distinct (map fst (store m)) \<longrightarrow>
           distinct (map fst (s1 m)) \<and> distinct (map fst (s2 m)))
      \<and> MatchingService_enroll dimension u m v2 store = Inr s2
      \<and> (dot (normalize v1) (normalize v2) < threshold m \<longrightarrow>
           (\<forall>c. MatchingService_verify threshold k u m v1 s2 \<noteq> Inr (Match c))))
   \<and> (distinct (map methods_key (authentication_methods (db w0)))
      \<and> methods_upsert ev = Succeeds \<longrightarrow>
      distinct (map methods_key
         (authentication_methods (db (fst (snd (updateMethodStatus ev (Some u) m b w0))))))
      \<and> filter (\<lambda>r. methods_key r = (u, m))
           (authentication_methods (db (fst (snd (updateMethodStatus ev (Some u) m b w0)))))
         = [\<lparr>am_user_id = u, am_method_type = m, am_is_enrolled = b,
             am_enrolled_at = (if b then Some (now ev) else None)\<rparr>]
      \<and> length (authentication_methods
           (db (fst (snd (updateMethodStatus ev (Some u) m b'
                            (fst (snd (updateMethodStatus ev (Some u) m b w0))))))))
         = length (authentication_methods
             (db (fst (snd (updateMethodStatus ev (Some u) m b w0)))))
      \<and> authentication_methods
           (db (fst (snd (updateMethodStatus ev (Some u) m b'
                            (fst (snd (updateMethodStatus ev (Some u) m b w0)))))))
         = authentication_methods (db (fst (snd (updateMethodStatus ev (Some u) m b' w0)))))
   \<and> (distinct (map pr_user_id (pins (db w)))
       \<and> pins_upsert ev = Succeeds \<and> pins_select ev = Succeeds
       \<and> step (comp w) = Confirm \<and> pin (comp w) = confirmPin (comp w)
       \<and> step c2 = Confirm \<and> pin c2 = confirmPin c2 \<and> 4 \<le> length (pin cv) \<longrightarrow>
       (let w1 = fst (snd (processPinAuth digest ev (Some u) Enroll w));
            w2 = fst (snd (processPinAuth digest ev (Some u) Enroll (w1\<lparr>comp := c2\<rparr>)))
        in filter (\<lambda>r. pr_user_id r = u) (pins (db w2))
             = [\<lparr>pr_user_id = u, pr_pin_hash = hashPin digest (pin c2)\<rparr>]
           \<and> length (pins (db w2)) = length (pins (db w1))
           \<and> distinct (map pr_user_id (pins (db w2)))
           \<and> pins (db w2)
               = pins (db (fst (snd (processPinAuth digest ev (Some u) Enroll
                                      (w\<lparr>comp := c2\<rparr>)))))
           \<and> (callbacks (snd (snd (processPinAuth digest ev (Some u) Verify
                                     (w2\<lparr>comp := cv\<rparr>)))) = [OnComplete True]
                \<longleftrightarrow> hashPin digest (pin cv) = hashPin digest (pin c2))))"
proof -
  have index: "MatchingService_enroll dimension u m v1 store = Inr s1
      \<and> MatchingService_enroll dimension u m v2 s1 = Inr s2 \<longrightarrow>
      filter (\<lambda>e. fst e = u) (s1 m) = [(u, normalize v1)]
      \<and> filter (\<lambda>e. fst e = u) (s2 m) = [(u, normalize v2)]
      \<and> length (s2 m) = length (s1 m)
      \<and> filter (\<lambda>e. fst e \<noteq> u) (s2 m) = filter (\<lambda>e. fst e \<noteq> u) (store m)
      \<and> (\<forall>m'. m' \<noteq> m \<longrightarrow> s2 m' = store m')
      \<and> (distinct (map fst (store m)) \<longrightarrow>
           distinct (map fst (s1 m)) \<and> distinct (map fst (s2 m)))
      \<and> MatchingService_enroll dimension u m v2 store = Inr s2
      \<and> (dot (normalize v1) (normalize v2) < threshold m \<longrightarrow>
           (\<forall>c. MatchingService_verify threshold k u m v1 s2 \<noteq> Inr (Match c)))"
  proof (intro impI, elim conjE)
    assume e1: "MatchingService_enroll dimension u m v1 store = Inr s1"
      and e2: "MatchingService_enroll dimension u m v2 s1 = Inr s2"
    note a = MatchingService_enroll_facts [OF e1] and b = MatchingService_enroll_facts [OF e2]
    note ia = index_upsert_facts [OF a(2)] and ib = index_upsert_facts [OF b(2)]
    have f1: "filter (\<lambda>e. fst e = u) (s1 m) = [(u, normalize v1)]"
      using ia(3) a(1) by (simp add: normalize_idem)
    have f2: "filter (\<lambda>e. fst e = u) (s2 m) = [(u, normalize v2)]"
      using ib(3) b(1) by (simp add: normalize_idem)
    have len: "length (s2 m) = length (s1 m)"
      using index_upsert_twice(3) [OF a(2) b(2)] .
    have others: "filter (\<lambda>e. fst e \<noteq> u) (s2 m) = filter (\<lambda>e. fst e \<noteq> u) (store m)"
      using ia(4) ib(4) by simp
    have modalities: "\<forall>m'. m' \<noteq> m \<longrightarrow> s2 m' = store m'"
    proof (intro allI impI)
      fix m' assume "m' \<noteq> m"
      then have "s2 m' = s1 m'" "s1 m' = store m'"
        using a(3) b(3) by (metis fun_upd_other)+
      then show "s2 m' = store m'" by simp
    qed
    have dist: "distinct (map fst (store m)) \<longrightarrow>
           distinct (map fst (s1 m)) \<and> distinct (map fst (s2 m))"
      using ia(5) ib(5) by blast
    have once: "MatchingService_enroll dimension u m v2 store = Inr s2"
      using e1 e2 by (rule MatchingService_enroll_twice)
    have dissimilar: "dot (normalize v1) (normalize v2) < threshold m \<longrightarrow>
           (\<forall>c. MatchingService_verify threshold k u m v1 s2 \<noteq> Inr (Match c))"
    proof (intro impI allI)
      fix c assume low: "dot (normalize v1) (normalize v2) < threshold m"
      have "verify_decision (threshold m) u (index_search (normalize v1) k (s2 m)) \<noteq> Match c"
      proof (rule verify_decision_below_threshold)
        fix cand assume "cand \<in> set (index_search (normalize v1) k (s2 m))" "fst cand = u"
        then have "snd cand = dot (normalize v1) (normalize v2)"
          using f2 by (rule index_search_candidate)
        with low show "snd cand < threshold m" by simp
      qed
      then show "MatchingService_verify threshold k u m v1 s2 \<noteq> Inr (Match c)"
        by (simp add: MatchingService_verify_def)
    qed
    show "filter (\<lambda>e. fst e = u) (s1 m) = [(u, normalize v1)]
      \<and> filter (\<lambda>e. fst e = u) (s2 m) = [(u, normalize v2)]
      \<and> length (s2 m) = length (s1 m)
      \<and> filter (\<lambda>e. fst e \<noteq> u) (s2 m) = filter (\<lambda>e. fst e \<noteq> u) (store m)
      \<and> (\<forall>m'. m' \<noteq> m \<longrightarrow> s2 m' = store m')
      \<and> (distinct (map fst (store m)) \<longrightarrow>
           distinct (map fst (s1 m)) \<and> distinct (map fst (s2 m)))
      \<and> MatchingService_enroll dimension u m v2 store = Inr s2
      \<and> (dot (normalize v1) (normalize v2) < threshold m \<longrightarrow>
           (\<forall>c. MatchingService_verify threshold k u m v1 s2 \<noteq> Inr (Match c)))"
      by (rule conjI [OF f1 conjI [OF f2 conjI [OF len conjI [OF others
            conjI [OF modalities conjI [OF dist conjI [OF once dissimilar]]]]]]])
  qed
  have methods: "distinct (map methods_key (authentication_methods (db w0)))
      \<and> methods_upsert ev = Succeeds \<longrightarrow>
      distinct (map methods_key
         (authentication_methods (db (fst (snd (updateMethodStatus ev (Some u) m b w0))))))
      \<and> filter (\<lambda>r. methods_key r = (u, m))
           (authentication_methods (db (fst (snd (updateMethodStatus ev (Some u) m b w0)))))
         = [\<lparr>am_user_id = u, am_method_type = m, am_is_enrolled = b,
             am_enrolled_at = (if b then Some (now ev) else None)\<rparr>]
      \<and> length (authentication_methods
           (db (fst (snd (updateMethodStatus ev (Some u) m b'
                            (fst (snd (updateMethodStatus ev (Some u) m b w0))))))))
         = length (authentication_methods
             (db (fst (snd (updateMethodStatus ev (Some u) m b w0)))))
      \<and> authentication_methods
           (db (fst (snd (updateMethodStatus ev (Some u) m b'
                            (fst (snd (updateMethodStatus ev (Some u) m b w0)))))))
         = authentication_methods (db (fst (snd (updateMethodStatus ev (Some u) m b' w0))))"
  proof (intro impI, elim conjE)
    assume dist: "distinct (map methods_key (authentication_methods (db w0)))"
      and ok: "methods_upsert ev = Succeeds"
    let ?row = "\<lambda>e. \<lparr>am_user_id = u, am_method_type = m, am_is_enrolled = e,
             am_enrolled_at = (if e then Some (now ev) else None)\<rparr>"
    have key: "\<And>e. methods_key (?row e) = (u, m)" by (simp add: methods_key_def)
    have d1: "distinct (map methods_key
                (upsert methods_key (?row b) (authentication_methods (db w0))))"
      using dist by (rule distinct_upsert)
    have f1: "filter (\<lambda>r. methods_key r = (u, m))
                (upsert methods_key (?row b) (authentication_methods (db w0))) = [?row b]"
      using filter_upsert_same [OF dist, of "?row b"] by (simp only: key)
    have l1: "length (upsert methods_key (?row b')
                (upsert methods_key (?row b) (authentication_methods (db w0))))
              = length (upsert methods_key (?row b) (authentication_methods (db w0)))"
      by (rule upsert_idem_length) (simp only: key)
    have u1: "upsert methods_key (?row b')
                (upsert methods_key (?row b) (authentication_methods (db w0)))
              = upsert methods_key (?row b') (authentication_methods (db w0))"
      by (rule upsert_upsert) (simp only: key)
    from d1 f1 l1 u1 show "distinct (map methods_key
         (authentication_methods (db (fst (snd (updateMethodStatus ev (Some u) m b w0))))))
      \<and> filter (\<lambda>r. methods_key r = (u, m))
           (authentication_methods (db (fst (snd (updateMethodStatus ev (Some u) m b w0)))))
         = [\<lparr>am_user_id = u, am_method_type = m, am_is_enrolled = b,
             am_enrolled_at = (if b then Some (now ev) else None)\<rparr>]
      \<and> length (authentication_methods
           (db (fst (snd (updateMethodStatus ev (Some u) m b'
                            (fst (snd (updateMethodStatus ev (Some u) m b w0))))))))
         = length (authentication_methods
             (db (fst (snd (updateMethodStatus ev (Some u) m b w0)))))
      \<and> authentication_methods
           (db (fst (snd (updateMethodStatus ev (Some u) m b'
                            (fst (snd (updateMethodStatus ev (Some u) m b w0)))))))
         = authentication_methods (db (fst (snd (updateMethodStatus ev (Some u) m b' w0))))"
      by (simp only: updateMethodStatus_methods [OF ok])
  qed
  have codes: "distinct (map pr_user_id (pins (db w)))
       \<and> pins_upsert ev = Succeeds \<and> pins_select ev = Succeeds
       \<and> step (comp w) = Confirm \<and> pin (comp w) = confirmPin (comp w)
       \<and> step c2 = Confirm \<and> pin c2 = confirmPin c2 \<and> 4 \<le> length (pin cv) \<longrightarrow>
       (let w1 = fst (snd (processPinAuth digest ev (Some u) Enroll w));
            w2 = fst (snd (processPinAuth digest ev (Some u) Enroll (w1\<lparr>comp := c2\<rparr>)))
        in filter (\<lambda>r. pr_user_id r = u) (pins (db w2))
             = [\<lparr>pr_user_id = u, pr_pin_hash = hashPin digest (pin c2)\<rparr>]
           \<and> length (pins (db w2)) = length (pins (db w1))
           \<and> distinct (map pr_user_id (pins (db w2)))
           \<and> pins (db w2)
               = pins (db (fst (snd (processPinAuth digest ev (Some u) Enroll
                                      (w\<lparr>comp := c2\<rparr>)))))
           \<and> (callbacks (snd (snd (processPinAuth digest ev (Some u) Verify
                                     (w2\<lparr>comp := cv\<rparr>)))) = [OnComplete True]
                \<longleftrightarrow> hashPin digest (pin cv) = hashPin digest (pin c2)))"
  proof (intro impI, elim conjE)
    assume dist: "distinct (map pr_user_id (pins (db w)))"
      and up: "pins_upsert ev = Succeeds" and sel: "pins_select ev = Succeeds"
      and s1: "step (comp w) = Confirm" "pin (comp w) = confirmPin (comp w)"
      and s2: "step c2 = Confirm" "pin c2 = confirmPin c2" and len: "4 \<le> length (pin cv)"
    let ?w1 = "fst (snd (processPinAuth digest ev (Some u) Enroll w))"
    let ?w2 = "fst (snd (processPinAuth digest ev (Some u) Enroll (?w1\<lparr>comp := c2\<rparr>)))"
    let ?r1 = "\<lparr>pr_user_id = u, pr_pin_hash = hashPin digest (pin (comp w))\<rparr>"
    let ?r2 = "\<lparr>pr_user_id = u, pr_pin_hash = hashPin digest (pin c2)\<rparr>"
    have p1: "pins (db ?w1) = upsert pr_user_id ?r1 (pins (db w))"
      using processPinAuth_enroll_pins [OF s1 up, of digest u]
      by (simp add: processPinAuth_def)
    have p2: "pins (db ?w2) = upsert pr_user_id ?r2 (pins (db ?w1))"
      using processPinAuth_enroll_pins [of "?w1\<lparr>comp := c2\<rparr>" ev digest u] s2 up
      by (simp add: processPinAuth_def)
    have p3: "pins (db (fst (snd (processPinAuth digest ev (Some u) Enroll
                                      (w\<lparr>comp := c2\<rparr>)))))
              = upsert pr_user_id ?r2 (pins (db w))"
      using processPinAuth_enroll_pins [of "w\<lparr>comp := c2\<rparr>" ev digest u] s2 up
      by (simp add: processPinAuth_def)
    have d1: "distinct (map pr_user_id (pins (db ?w1)))"
      unfolding p1 using dist by (rule distinct_upsert)
    have d2: "distinct (map pr_user_id (pins (db ?w2)))"
      unfolding p2 using d1 by (rule distinct_upsert)
    have f2: "filter (\<lambda>r. pr_user_id r = u) (pins (db ?w2)) = [?r2]"
      unfolding p2 using filter_upsert_same [OF d1, of ?r2] by simp
    have l2: "length (pins (db ?w2)) = length (pins (db ?w1))"
      unfolding p2 p1 by (rule upsert_idem_length) simp
    have same: "pins (db ?w2)
               = pins (db (fst (snd (processPinAuth digest ev (Some u) Enroll
                                      (w\<lparr>comp := c2\<rparr>)))))"
      unfolding p2 p1 p3 by (rule upsert_upsert) simp
    have v: "callbacks (snd (snd (processPinAuth digest ev (Some u) Verify
                                     (?w2\<lparr>comp := cv\<rparr>)))) = [OnComplete True]
                \<longleftrightarrow> hashPin digest (pin cv) = hashPin digest (pin c2)"
      using len sel f2
      by (auto simp add: processPinAuth_def processPinAuth_verify_callbacks)
    from f2 l2 d2 same v
    show "let w1 = fst (snd (processPinAuth digest ev (Some u) Enroll w));
            w2 = fst (snd (processPinAuth digest ev (Some u) Enroll (w1\<lparr>comp := c2\<rparr>)))
        in filter (\<lambda>r. pr_user_id r = u) (pins (db w2))
             = [\<lparr>pr_user_id = u, pr_pin_hash = hashPin digest (pin c2)\<rparr>]
           \<and> length (pins (db w2)) = length (pins (db w1))
           \<and> distinct (map pr_user_id (pins (db w2)))
           \<and> pins (db w2)
               = pins (db (fst (snd (processPinAuth digest ev (Some u) Enroll
                                      (w\<lparr>comp := c2\<rparr>)))))
           \<and> (callbacks (snd (snd (processPinAuth digest ev (Some u) Verify
                                     (w2\<lparr>comp := cv\<rparr>)))) = [OnComplete True]
                \<longleftrightarrow> hashPin digest (pin cv) = hashPin digest (pin c2))"
      unfolding Let_def by (intro conjI)
  qed
  show ?thesis by (rule conjI [OF index conjI [OF methods codes]])
qed

theorem one_record_per_user_and_modality_witness:
  "MatchingService_enroll (\<lambda>_. 2) ''u1'' Face [0, 1]
       ((\<lambda>_. [])(Face := [(''u1'', [1, 0]), (''u2'', [0, 1])]))
     = Inr ((\<lambda>_. [])(Face := [(''u2'', [0, 1]), (''u1'', [0, 1])]))
   \<and> MatchingService_enroll (\<lambda>_. 2) ''u1'' Face [1, 0]
       ((\<lambda>_. [])(Face := [(''u2'', [0, 1]), (''u1'', [0, 1])]))
     = Inr ((\<lambda>_. [])(Face := [(''u2'', [0, 1]), (''u1'', [1, 0])]))
   \<and> MatchingService_enroll (\<lambda>_. 2) ''u1'' Face [1, 0]
       ((\<lambda>_. [])(Face := [(''u1'', [1, 0]), (''u2'', [0, 1])]))
     = Inr ((\<lambda>_. [])(Face := [(''u2'', [0, 1]), (''u1'', [1, 0])]))
   \<and> MatchingService_verify (\<lambda>_. 3 / 4) 10 ''u1'' Face [0, 1]
       ((\<lambda>_. [])(Face := [(''u2'', [0, 1]), (''u1'', [1, 0])]))
     \<noteq> Inr (Match 1)
   \<and> filter (\<lambda>r. methods_key r = (''u1'', Face))
       (authentication_methods (db (fst (snd (updateMethodStatus (all_succeed 7) (Some ''u1'')
          Face True
          \<lparr>db = empty_database\<lparr>authentication_methods :=
                  [\<lparr>am_user_id = ''u1'', am_method_type = Face, am_is_enrolled = False,
                    am_enrolled_at = None\<rparr>,
                   \<lparr>am_user_id = ''u2'', am_method_type = Face, am_is_enrolled = True,
                    am_enrolled_at = Some 3\<rparr>]\<rparr>,
           hook = \<lparr>methods = [], loading = False\<rparr>, comp = ()\<rparr>)))))
     = [\<lparr>am_user_id = ''u1'', am_method_type = Face, am_is_enrolled = True,
         am_enrolled_at = Some 7\<rparr>]
   \<and> callbacks (snd (snd (processPinAuth (\<lambda>bs. bs) (all_succeed 7) (Some ''u1'') Verify
        ((fst (snd (processPinAuth (\<lambda>bs. bs) (all_succeed 7) (Some ''u1'') Enroll
           ((fst (snd (processPinAuth (\<lambda>bs. bs) (all_succeed 7) (Some ''u1'') Enroll
              \<lparr>db = empty_database\<lparr>pins :=
                      [\<lparr>pr_user_id = ''u1'', pr_pin_hash = ''30303030''\<rparr>,
                       \<lparr>pr_user_id = ''u2'', pr_pin_hash = ''39393939''\<rparr>]\<rparr>,
               hook = \<lparr>methods = [], loading = False\<rparr>,
               comp = \<lparr>pin = ''1234'', confirmPin = ''1234'', step = Confirm,
                       isProcessing = False, attempts = 0\<rparr>\<rparr>)))
            \<lparr>comp := \<lparr>pin = ''5678'', confirmPin = ''5678'', step = Confirm,
                       isProcessing = False, attempts = 0\<rparr>\<rparr>))))
         \<lparr>comp := \<lparr>pin = ''5678'', confirmPin = [], step = Enter,
                    isProcessing = False, attempts = 0\<rparr>\<rparr>))))
     = [OnComplete True]"
proof -
  have first: "MatchingService_enroll (\<lambda>_. 2) ''u1'' Face [0, 1]
       ((\<lambda>_. [])(Face := [(''u1'', [1, 0]), (''u2'', [0, 1])]))
     = Inr ((\<lambda>_. [])(Face := [(''u2'', [0, 1]), (''u1'', [0, 1])]))"
    by (simp add: MatchingService_enroll_def index_upsert_def l2norm_def normalize_def)
  have second: "MatchingService_enroll (\<lambda>_. 2) ''u1'' Face [1, 0]
       ((\<lambda>_. [])(Face := [(''u2'', [0, 1]), (''u1'', [0, 1])]))
     = Inr ((\<lambda>_. [])(Face := [(''u2'', [0, 1]), (''u1'', [1, 0])]))"
    by (simp add: MatchingService_enroll_def index_upsert_def l2norm_def normalize_def)
  have apart: "dot (normalize [0, 1]) (normalize [1, 0]) < (3 / 4 :: real)"
    by (simp add: dot_def l2norm_def normalize_def)
  show ?thesis
    using one_record_per_user_and_modality
      [where dimension = "\<lambda>_. 2" and u = "''u1''" and m = Face
         and ?v1.0 = "[0, 1]" and ?v2.0 = "[1, 0]"
         and store = "(\<lambda>_. [])(Face := [(''u1'', [1, 0]), (''u2'', [0, 1])])"
         and ?s1.0 = "(\<lambda>_. [])(Face := [(''u2'', [0, 1]), (''u1'', [0, 1])])"
         and ?s2.0 = "(\<lambda>_. [])(Face := [(''u2'', [0, 1]), (''u1'', [1, 0])])"
         and threshold = "\<lambda>_. 3 / 4" and k = 10
         and ?w0.0 = "\<lparr>db = empty_database\<lparr>authentication_methods :=
                  [\<lparr>am_user_id = ''u1'', am_method_type = Face, am_is_enrolled = False,
                    am_enrolled_at = None\<rparr>,
                   \<lparr>am_user_id = ''u2'', am_method_type = Face, am_is_enrolled = True,
                    am_enrolled_at = Some 3\<rparr>]\<rparr>,
           hook = \<lparr>methods = [], loading = False\<rparr>, comp = ()\<rparr>"
         and ev = "all_succeed 7" and b = True and b' = True
         and digest = "\<lambda>bs. bs"
         and w = "\<lparr>db = empty_database\<lparr>pins :=
                      [\<lparr>pr_user_id = ''u1'', pr_pin_hash = ''30303030''\<rparr>,
                       \<lparr>pr_user_id = ''u2'', pr_pin_hash = ''39393939''\<rparr>]\<rparr>,
               hook = \<lparr>methods = [], loading = False\<rparr>,
               comp = \<lparr>pin = ''1234'', confirmPin = ''1234'', step = Confirm,
                       isProcessing = False, attempts = 0\<rparr>\<rparr>"
         and ?c2.0 = "\<lparr>pin = ''5678'', confirmPin = ''5678'', step = Confirm,
                       isProcessing = False, attempts = 0\<rparr>"
         and cv = "\<lparr>pin = ''5678'', confirmPin = [], step = Enter,
                    isProcessing = False, attempts = 0\<rparr>"]
      first second apart
    by (simp add: all_succeed_def empty_database_def Let_def methods_key_def)
qed

lemma hexDigit_inj:
  assumes "i < 16" "j < 16" "hexDigit i = hexDigit j"
  shows "i = j"
proof -
  have d: "distinct ''0123456789abcdef''" by simp
  from assms have "''0123456789abcdef'' ! i = ''0123456789abcdef'' ! j"
    by (simp add: hexDigit_def)
  with d assms(1,2) show ?thesis by (simp add: nth_eq_iff_index_eq)
qed

lemma two_hex_digits:
  "padStart2 (toString16 b) = [hexDigit (unat b div 16), hexDigit (unat b mod 16)]"
  by (simp add: padStart2_def toString16_def Let_def hexDigit_def)

lemma two_hex_digits_inj:
  assumes "padStart2 (toString16 a) = padStart2 (toString16 b)"
  shows "a = b"
proof -
  have bound: "\<And>c :: byte. unat c div 16 < 16"
  proof -
    fix c :: byte
    have "unat c < 2 ^ LENGTH(8)" by (rule unsigned_less)
    then show "unat c div 16 < 16" by simp
  qed
  from assms have hi: "hexDigit (unat a div 16) = hexDigit (unat b div 16)"
    and lo: "hexDigit (unat a mod 16) = hexDigit (unat b mod 16)"
    by (simp_all add: two_hex_digits)
  have "unat a div 16 = unat b div 16"
    using bound [of a] bound [of b] hi by (rule hexDigit_inj)
  moreover have "unat a mod 16 = unat b mod 16"
    using _ _ lo by (rule hexDigit_inj) simp_all
  ultimately have "unat a = unat b"
    by (metis div_mult_mod_eq)
  then show ?thesis by (simp add: word_unat_eq_iff)
qed

lemma hex_string_length:
  "length (concat (map (\<lambda>b. padStart2 (toString16 b)) bs)) = 2 * length bs"
  by (induction bs) (simp_all add: two_hex_digits)

lemma hex_string_inj:
  "concat (map (\<lambda>b. padStart2 (toString16 b)) xs)
     = concat (map (\<lambda>b. padStart2 (toString16 b)) ys) \<Longrightarrow> xs = ys"
proof (induction xs arbitrary: ys)
  case Nil
  have "length (concat (map (\<lambda>b. padStart2 (toString16 b)) ([] :: byte list)))
          = length (concat (map (\<lambda>b. padStart2 (toString16 b)) ys))"
    using Nil.prems by (rule arg_cong)
  then show ?case by (simp only: hex_string_length) simp
next
  case (Cons x xs)
  show ?case
  proof (cases ys)
    case Nil
    have "length (concat (map (\<lambda>b. padStart2 (toString16 b)) (x # xs)))
            = length (concat (map (\<lambda>b. padStart2 (toString16 b)) ys))"
      using Cons.prems by (rule arg_cong)
    then show ?thesis by (simp only: hex_string_length Nil) simp
  next
    case (Cons y ys')
    from Cons.prems have
      "padStart2 (toString16 x) @ concat (map (\<lambda>b. padStart2 (toString16 b)) xs)
         = padStart2 (toString16 y) @ concat (map (\<lambda>b. padStart2 (toString16 b)) ys')"
      by (simp add: Cons)
    moreover have "length (padStart2 (toString16 x)) = length (padStart2 (toString16 y))"
      by (simp add: two_hex_digits)
    ultimately have h: "padStart2 (toString16 x) = padStart2 (toString16 y)"
      and t: "concat (map (\<lambda>b. padStart2 (toString16 b)) xs)
                = concat (map (\<lambda>b. padStart2 (toString16 b)) ys')"
      by simp_all
    from h have "x = y" by (rule two_hex_digits_inj)
    moreover from t have "xs = ys'" by (rule Cons.IH)
    ultimately show ?thesis by (simp add: Cons)
  qed
qed

lemma hashPin_eq_iff:
  "hashPin digest p = hashPin digest q \<longleftrightarrow> digest (encode p) = digest (encode q)"
  by (auto simp: hashPin_def dest: hex_string_inj)

text \<open>
  Claim C7. Setting the code stores the digest of the code and nothing else of it. After
  the confirmed submission the row of the user in \<open>pins\<close> holds, as two hexadecimal
  digits for each byte, what the digest function returns for the bytes of the code: a
  string twice as long as the digest, and the digest function has been called on the code.
  The whole database afterwards is the same for two codes with the same digest, so nothing
  written depends on the code except through its digest. A verification that reaches the
  stored rows succeeds exactly when the row of the user holds the digest of the submitted
  code in that form; hence, after a code has been set, a submitted code is accepted exactly
  when its digest equals the digest of the code that was set. The digest function itself,
  SHA-256 of the platform, is a parameter: the statements hold for every function from
  bytes to bytes.
\<close>

theorem code_is_stored_and_compared_as_digest:
  "(step (comp w) = Confirm \<and> pin (comp w) = confirmPin (comp w) \<and> pins_upsert ev = Succeeds
      \<longrightarrow> pins (db (fst (snd (processPinAuth digest ev (Some u) Enroll w))))
            = upsert pr_user_id
                \<lparr>pr_user_id = u,
                 pr_pin_hash = concat (map (\<lambda>b. padStart2 (toString16 b))
                                        (digest (encode (pin (comp w)))))\<rparr>
                (pins (db w))
          \<and> length (concat (map (\<lambda>b. padStart2 (toString16 b))
                               (digest (encode (pin (comp w))))))
              = 2 * length (digest (encode (pin (comp w))))
          \<and> digested (snd (snd (processPinAuth digest ev (Some u) Enroll w)))
              = [pin (comp w)])
   \<and> (step (comp w) = Confirm \<and> pin (comp w) = confirmPin (comp w)
       \<and> step (comp w') = Confirm \<and> pin (comp w') = confirmPin (comp w')
       \<and> db w = db w' \<and> digest (encode (pin (comp w))) = digest (encode (pin (comp w')))
      \<longrightarrow> db (fst (snd (processPinAuth digest ev (Some u) Enroll w)))
            = db (fst (snd (processPinAuth digest ev (Some u) Enroll w'))))
   \<and> (4 \<le> length (pin (comp wv)) \<and> pins_select ev = Succeeds
       \<and> distinct (map pr_user_id (pins (db wv)))
      \<longrightarrow> (callbacks (snd (snd (processPinAuth digest ev (Some u) Verify wv))) = [OnComplete True]
            \<longleftrightarrow> (\<exists>r \<in> set (pins (db wv)).
                   pr_user_id r = u
                   \<and> pr_pin_hash r = concat (map (\<lambda>b. padStart2 (toString16 b))
                                              (digest (encode (pin (comp wv))))))))
   \<and> (step (comp w) = Confirm \<and> pin (comp w) = confirmPin (comp w)
       \<and> pins_upsert ev = Succeeds \<and> pins_select ev = Succeeds
       \<and> distinct (map pr_user_id (pins (db w))) \<and> 4 \<le> length (pin cv)
      \<longrightarrow> (callbacks (snd (snd (processPinAuth digest ev (Some u) Verify
               ((fst (snd (processPinAuth digest ev (Some u) Enroll w)))\<lparr>comp := cv\<rparr>))))
              = [OnComplete True]
            \<longleftrightarrow> digest (encode (pin cv)) = digest (encode (pin (comp w)))))"
proof -
  have store: "step (comp w) = Confirm \<and> pin (comp w) = confirmPin (comp w)
      \<and> pins_upsert ev = Succeeds
      \<longrightarrow> pins (db (fst (snd (processPinAuth digest ev (Some u) Enroll w))))
            = upsert pr_user_id
                \<lparr>pr_user_id = u,
                 pr_pin_hash = concat (map (\<lambda>b. padStart2 (toString16 b))
                                        (digest (encode (pin (comp w)))))\<rparr>
                (pins (db w))
          \<and> length (concat (map (\<lambda>b. padStart2 (toString16 b))
                               (digest (encode (pin (comp w))))))
              = 2 * length (digest (encode (pin (comp w))))
          \<and> digested (snd (snd (processPinAuth digest ev (Some u) Enroll w)))
              = [pin (comp w)]"
    by (simp add: processPinAuth_def processPinAuth_enroll_pins hex_string_length
          processPinAuth_enroll_digested hashPin_def)
  have only_digest: "step (comp w) = Confirm \<and> pin (comp w) = confirmPin (comp w)
       \<and> step (comp w') = Confirm \<and> pin (comp w') = confirmPin (comp w')
       \<and> db w = db w' \<and> digest (encode (pin (comp w))) = digest (encode (pin (comp w')))
      \<longrightarrow> db (fst (snd (processPinAuth digest ev (Some u) Enroll w)))
            = db (fst (snd (processPinAuth digest ev (Some u) Enroll w')))"
  proof (intro impI, elim conjE)
    assume a: "step (comp w) = Confirm" "pin (comp w) = confirmPin (comp w)"
      "step (comp w') = Confirm" "pin (comp w') = confirmPin (comp w')"
      "db w = db w'"
      and d: "digest (encode (pin (comp w))) = digest (encode (pin (comp w')))"
    from d have "hashPin digest (pin (comp w)) = hashPin digest (pin (comp w'))"
      by (simp add: hashPin_eq_iff)
    with a have "db (fst (snd (processPinAuth_enroll digest ev u w)))
           = db (fst (snd (processPinAuth_enroll digest ev u w')))"
      by (rule processPinAuth_enroll_db_by_hash)
    then show "db (fst (snd (processPinAuth digest ev (Some u) Enroll w)))
            = db (fst (snd (processPinAuth digest ev (Some u) Enroll w')))"
      by (simp add: processPinAuth_def)
  qed
  have compare_general: "\<And>wx. 4 \<le> length (pin (comp wx)) \<Longrightarrow> pins_select ev = Succeeds
       \<Longrightarrow> distinct (map pr_user_id (pins (db wx)))
       \<Longrightarrow> (callbacks (snd (snd (processPinAuth digest ev (Some u) Verify wx)))
              = [OnComplete True]
            \<longleftrightarrow> (\<exists>r \<in> set (pins (db wx)).
                   pr_user_id r = u \<and> pr_pin_hash r = hashPin digest (pin (comp wx))))"
  proof -
    fix wx :: "PinAuthState world"
    assume len: "4 \<le> length (pin (comp wx))" and sel: "pins_select ev = Succeeds"
      and dist: "distinct (map pr_user_id (pins (db wx)))"
    from filter_key_at_most_one [OF dist, of u]
    consider (none) "filter (\<lambda>x. pr_user_id x = u) (pins (db wx)) = []"
      | (one) r where "r \<in> set (pins (db wx))" "pr_user_id r = u"
          "filter (\<lambda>x. pr_user_id x = u) (pins (db wx)) = [r]"
      by blast
    then show "callbacks (snd (snd (processPinAuth digest ev (Some u) Verify wx)))
                 = [OnComplete True]
            \<longleftrightarrow> (\<exists>r \<in> set (pins (db wx)).
                   pr_user_id r = u \<and> pr_pin_hash r = hashPin digest (pin (comp wx)))"
    proof cases
      case none
      then have "\<forall>r \<in> set (pins (db wx)). pr_user_id r \<noteq> u"
        by (simp add: filter_empty_conv)
      then have no_row: "\<not> (\<exists>r \<in> set (pins (db wx)).
                   pr_user_id r = u \<and> pr_pin_hash r = hashPin digest (pin (comp wx)))"
        by blast
      from none len sel
      have "callbacks (snd (snd (processPinAuth digest ev (Some u) Verify wx)))
              \<noteq> [OnComplete True]"
        by (simp add: processPinAuth_def processPinAuth_verify_callbacks)
      with no_row show ?thesis by simp
    next
      case one
      have uniq: "\<And>r'. r' \<in> set (pins (db wx)) \<Longrightarrow> pr_user_id r' = u \<Longrightarrow> r' = r"
      proof -
        fix r' assume "r' \<in> set (pins (db wx))" "pr_user_id r' = u"
        then have "r' \<in> set (filter (\<lambda>x. pr_user_id x = u) (pins (db wx)))" by simp
        with one(3) show "r' = r" by simp
      qed
      have row: "(\<exists>r' \<in> set (pins (db wx)).
                   pr_user_id r' = u \<and> pr_pin_hash r' = hashPin digest (pin (comp wx)))
                 \<longleftrightarrow> pr_pin_hash r = hashPin digest (pin (comp wx))"
        using one(1,2) uniq by blast
      from one(3) len sel
      have "callbacks (snd (snd (processPinAuth digest ev (Some u) Verify wx)))
              = [OnComplete True]
            \<longleftrightarrow> pr_pin_hash r = hashPin digest (pin (comp wx))"
        by (simp add: processPinAuth_def processPinAuth_verify_callbacks)
      with row show ?thesis by simp
    qed
  qed
  have compare: "4 \<le> length (pin (comp wv)) \<and> pins_select ev = Succeeds
       \<and> distinct (map pr_user_id (pins (db wv)))
      \<longrightarrow> (callbacks (snd (snd (processPinAuth digest ev (Some u) Verify wv))) = [OnComplete True]
            \<longleftrightarrow> (\<exists>r \<in> set (pins (db wv)).
                   pr_user_id r = u
                   \<and> pr_pin_hash r = concat (map (\<lambda>b. padStart2 (toString16 b))
                                              (digest (encode (pin (comp wv)))))))"
    using compare_general [of wv] by (simp add: hashPin_def)
  have set_then_verify: "step (comp w) = Confirm \<and> pin (comp w) = confirmPin (comp w)
       \<and> pins_upsert ev = Succeeds \<and> pins_select ev = Succeeds
       \<and> distinct (map pr_user_id (pins (db w))) \<and> 4 \<le> length (pin cv)
      \<longrightarrow> (callbacks (snd (snd (processPinAuth digest ev (Some u) Verify
               ((fst (snd (processPinAuth digest ev (Some u) Enroll w)))\<lparr>comp := cv\<rparr>))))
              = [OnComplete True]
            \<longleftrightarrow> digest (encode (pin cv)) = digest (encode (pin (comp w))))"
  proof (intro impI, elim conjE)
    assume s: "step (comp w) = Confirm" "pin (comp w) = confirmPin (comp w)"
      and up: "pins_upsert ev = Succeeds" and sel: "pins_select ev = Succeeds"
      and dist: "distinct (map pr_user_id (pins (db w)))" and len: "4 \<le> length (pin cv)"
    let ?w1 = "fst (snd (processPinAuth digest ev (Some u) Enroll w))"
    let ?r = "\<lparr>pr_user_id = u, pr_pin_hash = hashPin digest (pin (comp w))\<rparr>"
    have p1: "pins (db ?w1) = upsert pr_user_id ?r (pins (db w))"
      using processPinAuth_enroll_pins [OF s up, of digest u]
      by (simp add: processPinAuth_def)
    have f1: "filter (\<lambda>x. pr_user_id x = u) (pins (db ?w1)) = [?r]"
      unfolding p1 using filter_upsert_same [OF dist, of ?r] by simp
    have "callbacks (snd (snd (processPinAuth digest ev (Some u) Verify (?w1\<lparr>comp := cv\<rparr>))))
              = [OnComplete True]
            \<longleftrightarrow> hashPin digest (pin cv) = hashPin digest (pin (comp w))"
      using len sel f1
      by (auto simp add: processPinAuth_def processPinAuth_verify_callbacks)
    then show "callbacks (snd (snd (processPinAuth digest ev (Some u) Verify
               ((fst (snd (processPinAuth digest ev (Some u) Enroll w)))\<lparr>comp := cv\<rparr>))))
              = [OnComplete True]
            \<longleftrightarrow> digest (encode (pin cv)) = digest (encode (pin (comp w)))"
      by (simp add: hashPin_eq_iff)
  qed
  show ?thesis
    by (rule conjI [OF store conjI [OF only_digest conjI [OF compare set_then_verify]]])
qed

theorem code_is_stored_and_compared_as_digest_witness:
  "pins (db (fst (snd (processPinAuth (\<lambda>bs. [sum_list bs]) (all_succeed 0) (Some ''u1'') Enroll
       \<lparr>db = empty_database\<lparr>pins := [\<lparr>pr_user_id = ''u2'', pr_pin_hash = ''d4''\<rparr>]\<rparr>,
        hook = \<lparr>methods = [], loading = False\<rparr>,
        comp = \<lparr>pin = ''1234'', confirmPin = ''1234'', step = Confirm, isProcessing = False,
                attempts = 0\<rparr>\<rparr>))))
     = [\<lparr>pr_user_id = ''u2'', pr_pin_hash = ''d4''\<rparr>,
        \<lparr>pr_user_id = ''u1'', pr_pin_hash = ''ca''\<rparr>]
   \<and> db (fst (snd (processPinAuth (\<lambda>bs. [sum_list bs]) (all_succeed 0) (Some ''u1'') Enroll
       \<lparr>db = empty_database\<lparr>pins := [\<lparr>pr_user_id = ''u2'', pr_pin_hash = ''d4''\<rparr>]\<rparr>,
        hook = \<lparr>methods = [], loading = False\<rparr>,
        comp = \<lparr>pin = ''1234'', confirmPin = ''1234'', step = Confirm, isProcessing = False,
                attempts = 0\<rparr>\<rparr>)))
     = db (fst (snd (processPinAuth (\<lambda>bs. [sum_list bs]) (all_succeed 0) (Some ''u1'') Enroll
       \<lparr>db = empty_database\<lparr>pins := [\<lparr>pr_user_id = ''u2'', pr_pin_hash = ''d4''\<rparr>]\<rparr>,
        hook = \<lparr>methods = [], loading = False\<rparr>,
        comp = \<lparr>pin = ''4321'', confirmPin = ''4321'', step = Confirm, isProcessing = False,
                attempts = 0\<rparr>\<rparr>)))
   \<and> callbacks (snd (snd (processPinAuth (\<lambda>bs. [sum_list bs]) (all_succeed 0) (Some ''u1'') Verify
       ((fst (snd (processPinAuth (\<lambda>bs. [sum_list bs]) (all_succeed 0) (Some ''u1'') Enroll
       \<lparr>db = empty_database\<lparr>pins := [\<lparr>pr_user_id = ''u2'', pr_pin_hash = ''d4''\<rparr>]\<rparr>,
        hook = \<lparr>methods = [], loading = False\<rparr>,
        comp = \<lparr>pin = ''1234'', confirmPin = ''1234'', step = Confirm, isProcessing = False,
                attempts = 0\<rparr>\<rparr>)))
        \<lparr>comp := \<lparr>pin = ''4321'', confirmPin = [], step = Enter, isProcessing = False,
                   attempts = 0\<rparr>\<rparr>))))
     = [OnComplete True]
   \<and> callbacks (snd (snd (processPinAuth (\<lambda>bs. [sum_list bs]) (all_succeed 0) (Some ''u1'') Verify
       ((fst (snd (processPinAuth (\<lambda>bs. [sum_list bs]) (all_succeed 0) (Some ''u1'') Enroll
       \<lparr>db = empty_database\<lparr>pins := [\<lparr>pr_user_id = ''u2'', pr_pin_hash = ''d4''\<rparr>]\<rparr>,
        hook = \<lparr>methods = [], loading = False\<rparr>,
        comp = \<lparr>pin = ''1234'', confirmPin = ''1234'', step = Confirm, isProcessing = False,
                attempts = 0\<rparr>\<rparr>)))
        \<lparr>comp := \<lparr>pin = ''1235'', confirmPin = [], step = Enter, isProcessing = False,
                   attempts = 0\<rparr>\<rparr>))))
     \<noteq> [OnComplete True]"
  using code_is_stored_and_compared_as_digest
    [where digest = "\<lambda>bs. [sum_list bs]" and ev = "all_succeed 0" and u = "''u1''"
       and w = "\<lparr>db = empty_database\<lparr>pins := [\<lparr>pr_user_id = ''u2'', pr_pin_hash = ''d4''\<rparr>]\<rparr>,
        hook = \<lparr>methods = [], loading = False\<rparr>,
        comp = \<lparr>pin = ''1234'', confirmPin = ''1234'', step = Confirm, isProcessing = False,
                attempts = 0\<rparr>\<rparr>"
       and w' = "\<lparr>db = empty_database\<lparr>pins := [\<lparr>pr_user_id = ''u2'', pr_pin_hash = ''d4''\<rparr>]\<rparr>,
        hook = \<lparr>methods = [], loading = False\<rparr>,
        comp = \<lparr>pin = ''4321'', confirmPin = ''4321'', step = Confirm, isProcessing = False,
                attempts = 0\<rparr>\<rparr>"
       and cv = "\<lparr>pin = ''4321'', confirmPin = [], step = Enter, isProcessing = False,
                   attempts = 0\<rparr>"]
    code_is_stored_and_compared_as_digest
    [where digest = "\<lambda>bs. [sum_list bs]" and ev = "all_succeed 0" and u = "''u1''"
       and w = "\<lparr>db = empty_database\<lparr>pins := [\<lparr>pr_user_id = ''u2'', pr_pin_hash = ''d4''\<rparr>]\<rparr>,
        hook = \<lparr>methods = [], loading = False\<rparr>,
        comp = \<lparr>pin = ''1234'', confirmPin = ''1234'', step = Confirm, isProcessing = False,
                attempts = 0\<rparr>\<rparr>"
       and cv = "\<lparr>pin = ''1235'', confirmPin = [], step = Enter, isProcessing = False,
                   attempts = 0\<rparr>"]
  by (simp add: all_succeed_def empty_database_def encode_def toString16_def padStart2_def
        hexDigit_def)

text \<open>
  Claim C8. When no code is stored for the user, a submitted code of at least four
  characters, with the read of \<open>pins\<close> carried out, ends as an ordinary failure: the
  operation returns normally, the error branch is not taken, the parent is told
  \<open>OnComplete False\<close> (after \<open>OnClose\<close> when it is the third failure), and the attempt is
  handed to the audit log as a failure: the insert into \<open>auth_logs\<close> is requested, and the
  rows with status \<open>failure\<close> are appended when the inserts are carried out.
\<close>

theorem missing_code_credential_is_ordinary_failure:
  "4 \<le> length (pin (comp w)) \<and> pins_select ev = Succeeds
     \<and> u \<notin> pr_user_id ` set (pins (db w)) \<longrightarrow>
   fst (processPinAuth digest ev (Some u) Verify w) = Inr ()
   \<and> callbacks (snd (snd (processPinAuth digest ev (Some u) Verify w)))
       = (if maxAttempts \<le> attempts (comp w) + 1 then [OnClose, OnComplete False]
          else [OnComplete False])
   \<and> ToastError ''Failed to verify PIN''
       \<notin> set (snd (snd (processPinAuth digest ev (Some u) Verify w)))
   \<and> SupabaseCall ''auth_logs'' ''insert''
       \<in> set (snd (snd (processPinAuth digest ev (Some u) Verify w)))
   \<and> (auth_logs_insert ev = Succeeds \<longrightarrow>
        auth_logs (db (fst (snd (processPinAuth digest ev (Some u) Verify w))))
          = auth_logs (db w)
            @ [\<lparr>al_user_id = u, al_auth_type = Pin, al_status = ''failure'',
                 al_confidence_score = None, al_metadata = []\<rparr>])
   \<and> (auth_logs_insert ev \<noteq> Throws \<and> authentication_logs_insert ev = Succeeds \<longrightarrow>
        authentication_logs (db (fst (snd (processPinAuth digest ev (Some u) Verify w))))
          = authentication_logs (db w)
            @ [\<lparr>lg_user_id = u, lg_method_type = Pin, lg_success = False,
                 lg_confidence_score = None, lg_metadata = None\<rparr>])"
proof (intro impI, elim conjE)
  assume len: "4 \<le> length (pin (comp w))" and sel: "pins_select ev = Succeeds"
    and absent: "u \<notin> pr_user_id ` set (pins (db w))"
  from absent have none: "filter (\<lambda>r. pr_user_id r = u) (pins (db w)) = []"
    by (rule filter_absent_key)
  let ?w1 = "w\<lparr>comp := (comp w)\<lparr>isProcessing := True\<rparr>\<rparr>"
  note run = processPinAuth_verify_no_row [OF len sel none, of digest]
  note eff = logAuthAttempt_effects [of ev u Pin False None None ?w1]
  have r: "fst (processPinAuth digest ev (Some u) Verify w) = Inr ()"
    by (simp add: processPinAuth_def run)
  have cb: "callbacks (snd (snd (processPinAuth digest ev (Some u) Verify w)))
       = (if maxAttempts \<le> attempts (comp w) + 1 then [OnClose, OnComplete False]
          else [OnComplete False])"
    by (simp add: processPinAuth_def run del: showNat.simps)
  have no_err: "ToastError ''Failed to verify PIN''
       \<notin> set (snd (snd (processPinAuth digest ev (Some u) Verify w)))"
    using eff by (auto simp: processPinAuth_def run simp del: showNat.simps)
  have req: "SupabaseCall ''auth_logs'' ''insert''
       \<in> set (snd (snd (processPinAuth digest ev (Some u) Verify w)))"
    using eff by (simp add: processPinAuth_def run del: showNat.simps)
  have al: "auth_logs_insert ev = Succeeds \<longrightarrow>
        auth_logs (db (fst (snd (processPinAuth digest ev (Some u) Verify w))))
          = auth_logs (db w)
            @ [\<lparr>al_user_id = u, al_auth_type = Pin, al_status = ''failure'',
                 al_confidence_score = None, al_metadata = []\<rparr>]"
    by (simp add: processPinAuth_def run logAuthAttempt_auth_logs)
  have lg: "auth_logs_insert ev \<noteq> Throws \<and> authentication_logs_insert ev = Succeeds \<longrightarrow>
        authentication_logs (db (fst (snd (processPinAuth digest ev (Some u) Verify w))))
          = authentication_logs (db w)
            @ [\<lparr>lg_user_id = u, lg_method_type = Pin, lg_success = False,
                 lg_confidence_score = None, lg_metadata = None\<rparr>]"
    by (simp add: processPinAuth_def run logAuthAttempt_authentication_logs)
  from r cb no_err req al lg
  show "fst (processPinAuth digest ev (Some u) Verify w) = Inr ()
   \<and> callbacks (snd (snd (processPinAuth digest ev (Some u) Verify w)))
       = (if maxAttempts \<le> attempts (comp w) + 1 then [OnClose, OnComplete False]
          else [OnComplete False])
   \<and> ToastError ''Failed to verify PIN''
       \<notin> set (snd (snd (processPinAuth digest ev (Some u) Verify w)))
   \<and> SupabaseCall ''auth_logs'' ''insert''
       \<in> set (snd (snd (processPinAuth digest ev (Some u) Verify w)))
   \<and> (auth_logs_insert ev = Succeeds \<longrightarrow>
        auth_logs (db (fst (snd (processPinAuth digest ev (Some u) Verify w))))
          = auth_logs (db w)
            @ [\<lparr>al_user_id = u, al_auth_type = Pin, al_status = ''failure'',
                 al_confidence_score = None, al_metadata = []\<rparr>])
   \<and> (auth_logs_insert ev \<noteq> Throws \<and> authentication_logs_insert ev = Succeeds \<longrightarrow>
        authentication_logs (db (fst (snd (processPinAuth digest ev (Some u) Verify w))))
          = authentication_logs (db w)
            @ [\<lparr>lg_user_id = u, lg_method_type = Pin, lg_success = False,
                 lg_confidence_score = None, lg_metadata = None\<rparr>])"
    by (intro conjI)
qed

theorem missing_code_credential_is_ordinary_failure_witness:
  "fst (processPinAuth (\<lambda>bs. bs) (all_succeed 0) (Some ''u1'') Verify
       \<lparr>db = empty_database, hook = \<lparr>methods = [], loading = False\<rparr>,
        comp = \<lparr>pin = ''1234'', confirmPin = [], step = Enter, isProcessing = False,
                attempts = 0\<rparr>\<rparr>) = Inr ()
   \<and> callbacks (snd (snd (processPinAuth (\<lambda>bs. bs) (all_succeed 0) (Some ''u1'') Verify
       \<lparr>db = empty_database, hook = \<lparr>methods = [], loading = False\<rparr>,
        comp = \<lparr>pin = ''1234'', confirmPin = [], step = Enter, isProcessing = False,
                attempts = 0\<rparr>\<rparr>))) = [OnComplete False]
   \<and> auth_logs (db (fst (snd (processPinAuth (\<lambda>bs. bs) (all_succeed 0) (Some ''u1'') Verify
       \<lparr>db = empty_database, hook = \<lparr>methods = [], loading = False\<rparr>,
        comp = \<lparr>pin = ''1234'', confirmPin = [], step = Enter, isProcessing = False,
                attempts = 0\<rparr>\<rparr>))))
       = [\<lparr>al_user_id = ''u1'', al_auth_type = Pin, al_status = ''failure'',
            al_confidence_score = None, al_metadata = []\<rparr>]"
  using missing_code_credential_is_ordinary_failure
    [where digest = "\<lambda>bs. bs" and ev = "all_succeed 0" and u = "''u1''"
       and w = "\<lparr>db = empty_database, hook = \<lparr>methods = [], loading = False\<rparr>,
                  comp = \<lparr>pin = ''1234'', confirmPin = [], step = Enter,
                          isProcessing = False, attempts = 0\<rparr>\<rparr>"]
  by (simp add: all_succeed_def empty_database_def maxAttempts_def)

lemma keypad_number:
  assumes "r < length keypadNumbers" and "c < length (keypadNumbers ! r)"
    and "keypadNumbers ! r ! c \<noteq> []"
  shows "length (keypadNumbers ! r ! c) = 1 \<and> set (keypadNumbers ! r ! c) \<subseteq> digits"
proof -
  from assms(1) have "r = 0 \<or> r = 1 \<or> r = 2 \<or> r = 3"
    by (auto simp: keypadNumbers_def)
  moreover from assms(1,2) have "c = 0 \<or> c = 1 \<or> c = 2"
    by (auto simp: keypadNumbers_def nth_Cons' split: if_splits)
  ultimately show ?thesis
    using assms(3) by (auto simp: keypadNumbers_def digits_def)
qed

lemma handleNumberPress_entry_ok:
  "pin_entry_ok mode s \<Longrightarrow> length number = 1 \<Longrightarrow> set number \<subseteq> digits \<Longrightarrow>
     pin_entry_ok mode (handleNumberPress number s)"
  by (cases mode) (auto simp: pin_entry_ok_def handleNumberPress_def)

lemma handleDelete_entry_ok:
  "pin_entry_ok mode s \<Longrightarrow> pin_entry_ok mode (handleDelete s)"
  by (cases mode; cases "step s")
     (auto simp: pin_entry_ok_def handleDelete_def dest: in_set_butlastD)

lemma handleClear_entry_ok:
  "pin_entry_ok mode s \<Longrightarrow> pin_entry_ok mode (handleClear s)"
  by (cases mode; cases "step s") (auto simp: pin_entry_ok_def handleClear_def)

lemma processPinAuth_entry_ok:
  "pin_entry_ok mode (comp w) \<Longrightarrow>
     pin_entry_ok mode (comp (fst (snd (processPinAuth digest ev user mode w))))"
  by (cases user; cases mode)
     (simp_all add: processPinAuth_def ret_def processPinAuth_verify_entry_ok
        processPinAuth_enroll_entry_ok)

lemma processPinAuth_digested:
  "pin_entry_ok mode (comp w) \<Longrightarrow>
     p \<in> set (digested (snd (snd (processPinAuth digest ev user mode w)))) \<Longrightarrow>
     4 \<le> length p \<and> length p \<le> 6 \<and> set p \<subseteq> digits"
  by (cases user; cases mode)
     (auto simp: processPinAuth_def ret_def processPinAuth_verify_digested
        processPinAuth_enroll_digested pin_entry_ok_def split: if_splits)

lemma PinAuth_click_entry_ok:
  "pin_entry_ok mode (comp w) \<Longrightarrow>
     pin_entry_ok mode (comp (fst (snd (PinAuth_click digest ev user mode isOpen click w))))"
  by (cases click)
     (auto simp: PinAuth_click_def Let_def ret_def setComp_def keypad_number
        handleNumberPress_entry_ok handleDelete_entry_ok handleClear_entry_ok
        processPinAuth_entry_ok)

lemma PinAuth_click_digested:
  "pin_entry_ok mode (comp w) \<Longrightarrow>
     p \<in> set (digested (snd (snd (PinAuth_click digest ev user mode isOpen click w)))) \<Longrightarrow>
     4 \<le> length p \<and> length p \<le> 6 \<and> set p \<subseteq> digits"
  by (cases click)
     (auto simp: PinAuth_click_def Let_def ret_def setComp_def
        dest: processPinAuth_digested split: if_splits)

lemma PinAuth_clicks_digested:
  "pin_entry_ok mode (comp w) \<Longrightarrow>
     p \<in> set (digested (snd (PinAuth_clicks digest ev user mode clicks w))) \<Longrightarrow>
     4 \<le> length p \<and> length p \<le> 6 \<and> set p \<subseteq> digits"
proof (induction clicks arbitrary: w)
  case Nil
  then show ?case by simp
next
  case (Cons c cs)
  obtain r w1 t1 where step1: "PinAuth_click digest ev user mode True c w = (r, w1, t1)"
    by (cases "PinAuth_click digest ev user mode True c w") auto
  obtain w2 t2 where rest: "PinAuth_clicks digest ev user mode cs w1 = (w2, t2)"
    by (cases "PinAuth_clicks digest ev user mode cs w1") auto
  have ok1: "pin_entry_ok mode (comp w1)"
    using PinAuth_click_entry_ok [OF Cons.prems(1), of digest ev user True c] step1 by simp
  from Cons.prems(2) step1 rest
  have "p \<in> set (digested t1) \<or> p \<in> set (digested t2)" by simp
  then show ?case
  proof
    assume "p \<in> set (digested t1)"
    then show ?thesis
      using PinAuth_click_digested [OF Cons.prems(1), of p digest ev user True c] step1 by simp
  next
    assume "p \<in> set (digested t2)"
    then show ?thesis using Cons.IH [OF ok1, unfolded rest] by simp
  qed
qed

text \<open>
  Claim C9. A code submitted through the PIN dialog has between 4 and 6 digits: a digit
  pressed when the field already holds six characters changes nothing; a submission with
  fewer than four characters (in verification, or at the first step of enrolment) only shows
  a toast, so no digest is computed, no request is sent, nothing is logged and the state
  stays as it was; and whatever is clicked in a dialog that starts empty, every code handed to
  the digest function has 4 to 6 characters, all of them decimal digits.
\<close>

theorem pin_submission_four_to_six_digits:
  "(step s = Enter \<and> 6 \<le> length (pin s) \<longrightarrow> handleNumberPress number s = s)
   \<and> (step s = Confirm \<and> 6 \<le> length (confirmPin s) \<longrightarrow> handleNumberPress number s = s)
   \<and> (length (pin (comp w)) < 4 \<and> (mode = Verify \<or> step (comp w) = Enter) \<longrightarrow>
        processPinAuth digest ev (Some u) mode w
          = (Inr (), w, [ToastError ''Please enter at least 4 digits.'']))
   \<and> (comp w0 = PinAuth_initial \<longrightarrow>
        (\<forall>p \<in> set (digested (snd (PinAuth_clicks digest ev user mode clicks w0))).
           4 \<le> length p \<and> length p \<le> 6 \<and> set p \<subseteq> digits))"
proof -
  have press: "(step s = Enter \<and> 6 \<le> length (pin s) \<longrightarrow> handleNumberPress number s = s)
     \<and> (step s = Confirm \<and> 6 \<le> length (confirmPin s) \<longrightarrow> handleNumberPress number s = s)"
    by (simp add: handleNumberPress_def)
  have short: "length (pin (comp w)) < 4 \<and> (mode = Verify \<or> step (comp w) = Enter) \<longrightarrow>
        processPinAuth digest ev (Some u) mode w
          = (Inr (), w, [ToastError ''Please enter at least 4 digits.''])"
    by (cases mode)
       (auto simp: processPinAuth_def processPinAuth_verify_short processPinAuth_enroll_short)
  have init: "pin_entry_ok mode PinAuth_initial"
    by (cases mode) (simp_all add: pin_entry_ok_def PinAuth_initial_def)
  have run: "comp w0 = PinAuth_initial \<longrightarrow>
        (\<forall>p \<in> set (digested (snd (PinAuth_clicks digest ev user mode clicks w0))).
           4 \<le> length p \<and> length p \<le> 6 \<and> set p \<subseteq> digits)"
    using init PinAuth_clicks_digested [of mode w0 _ digest ev user clicks] by auto
  from press short run show ?thesis by blast
qed

lemma four_digits_submitted:
  "digested (snd (PinAuth_clicks (\<lambda>bs. bs) (all_succeed 0) (Some ''u1'') Verify
       [PressNumber 0 0, PressNumber 0 1, PressNumber 0 2, PressNumber 1 0, PressSubmit]
       \<lparr>db = empty_database, hook = \<lparr>methods = [], loading = False\<rparr>,
        comp = PinAuth_initial\<rparr>))
     = [''1234'']"
  by (simp add: PinAuth_click_def PinAuth_initial_def keypadNumbers_def handleNumberPress_def
        setComp_def ret_def processPinAuth_def processPinAuth_verify_digested split_beta Let_def)

theorem pin_submission_four_to_six_digits_witness:
  "handleNumberPress ''7''
       \<lparr>pin = ''123456'', confirmPin = [], step = Enter, isProcessing = False, attempts = 0\<rparr>
     = \<lparr>pin = ''123456'', confirmPin = [], step = Enter, isProcessing = False, attempts = 0\<rparr>
   \<and> processPinAuth (\<lambda>bs. bs) (all_succeed 0) (Some ''u1'') Verify
        \<lparr>db = empty_database, hook = \<lparr>methods = [], loading = False\<rparr>,
         comp = \<lparr>pin = ''123'', confirmPin = [], step = Enter, isProcessing = False,
                 attempts = 0\<rparr>\<rparr>
     = (Inr (),
        \<lparr>db = empty_database, hook = \<lparr>methods = [], loading = False\<rparr>,
         comp = \<lparr>pin = ''123'', confirmPin = [], step = Enter, isProcessing = False,
                 attempts = 0\<rparr>\<rparr>,
        [ToastError ''Please enter at least 4 digits.''])
   \<and> digested (snd (PinAuth_clicks (\<lambda>bs. bs) (all_succeed 0) (Some ''u1'') Verify
         [PressNumber 0 0, PressNumber 0 1, PressNumber 0 2, PressNumber 1 0, PressSubmit]
         \<lparr>db = empty_database, hook = \<lparr>methods = [], loading = False\<rparr>,
          comp = PinAuth_initial\<rparr>))
       = [''1234'']
   \<and> 4 \<le> length ''1234'' \<and> length ''1234'' \<le> 6 \<and> set ''1234'' \<subseteq> digits"
  using pin_submission_four_to_six_digits
    [where s = "\<lparr>pin = ''123456'', confirmPin = [], step = Enter, isProcessing = False,
                   attempts = 0\<rparr>"
       and number = "''7''" and mode = Verify and digest = "\<lambda>bs. bs"
       and ev = "all_succeed 0" and u = "''u1''" and user = "Some ''u1''"
       and w = "\<lparr>db = empty_database, hook = \<lparr>methods = [], loading = False\<rparr>,
                  comp = \<lparr>pin = ''123'', confirmPin = [], step = Enter, isProcessing = False,
                          attempts = 0\<rparr>\<rparr>"
       and ?w0.0 = "\<lparr>db = empty_database, hook = \<lparr>methods = [], loading = False\<rparr>,
                  comp = PinAuth_initial\<rparr>"
       and clicks = "[PressNumber 0 0, PressNumber 0 1, PressNumber 0 2, PressNumber 1 0,
                      PressSubmit]"]
    four_digits_submitted
  by simp

lemma processPinAuth_log_independent:
  "fst (processPinAuth digest (with_log_outcomes ev a b) user mode w)
       = fst (processPinAuth digest ev user mode w)
    \<and> callbacks (snd (snd (processPinAuth digest (with_log_outcomes ev a b) user mode w)))
        = callbacks (snd (snd (processPinAuth digest ev user mode w)))
    \<and> comp (fst (snd (processPinAuth digest (with_log_outcomes ev a b) user mode w)))
        = comp (fst (snd (processPinAuth digest ev user mode w)))
    \<and> pins (db (fst (snd (processPinAuth digest (with_log_outcomes ev a b) user mode w))))
        = pins (db (fst (snd (processPinAuth digest ev user mode w))))"
proof (cases user)
  case None
  then show ?thesis by (simp add: processPinAuth_def)
next
  case (Some u)
  show ?thesis
  proof (cases mode)
    case Enroll
    show ?thesis
      unfolding Some Enroll
      by (cases "pins_upsert ev")
         (simp_all add: with_log_outcomes_def processPinAuth_def processPinAuth_enroll_def
            Let_def proc_defs hashPin_call_def upsert_pins_def split_beta)
  next
    case Verify
    show ?thesis
      unfolding Some Verify
      by (cases "pins_select ev"; cases "filter (\<lambda>r. pr_user_id r = u) (pins (db w))")
         (simp_all add: with_log_outcomes_def processPinAuth_def processPinAuth_verify_def
            Let_def proc_defs hashPin_call_def select_pin_hash_def split_beta
            split: list.splits)
  qed
qed

lemma processVoiceAuth_log_independent:
  "callbacks (snd (snd (processVoiceAuth (with_log_outcomes ev a b) resp user mode w)))
     = callbacks (snd (snd (processVoiceAuth ev resp user mode w)))"
  by (cases "audioBlob (comp w)"; cases user; cases mode)
     (simp_all add: with_log_outcomes_def processVoiceAuth_def Let_def proc_defs split_beta)

lemma processFaceAuth_log_independent:
  "callbacks (snd (snd (processFaceAuth (with_log_outcomes ev a b) resp user mode w)))
     = callbacks (snd (snd (processFaceAuth ev resp user mode w)))"
  by (cases "capturedImages (comp w)"; cases user; cases mode)
     (simp_all add: with_log_outcomes_def processFaceAuth_def FaceAuth_handleClose_def Let_def
        proc_defs split_beta)

text \<open>
  Claim C10. Writing the audit record never fails towards the caller: whatever the two
  inserts do (carried out, answered with an error, or rejected), \<open>logAuthAttempt\<close> returns
  normally. Hence the outcome of the operation that logs does not depend on the fate of the
  audit record: the PIN operation returns the same result, makes the same callbacks, and
  leaves the same component state and the same stored PINs, and the voice and face operations
  make the same callbacks, for all outcomes of the two inserts.
\<close>

theorem audit_failure_never_propagates:
  "fst (logAuthAttempt ev userId m s c md wlog) = Inr ()
    \<and> fst (processPinAuth digest (with_log_outcomes ev a b) user mode w)
        = fst (processPinAuth digest ev user mode w)
    \<and> callbacks (snd (snd (processPinAuth digest (with_log_outcomes ev a b) user mode w)))
        = callbacks (snd (snd (processPinAuth digest ev user mode w)))
    \<and> comp (fst (snd (processPinAuth digest (with_log_outcomes ev a b) user mode w)))
        = comp (fst (snd (processPinAuth digest ev user mode w)))
    \<and> pins (db (fst (snd (processPinAuth digest (with_log_outcomes ev a b) user mode w))))
        = pins (db (fst (snd (processPinAuth digest ev user mode w))))
    \<and> callbacks (snd (snd (processVoiceAuth (with_log_outcomes ev a b) resp user mode wvoice)))
        = callbacks (snd (snd (processVoiceAuth ev resp user mode wvoice)))
    \<and> callbacks (snd (snd (processFaceAuth (with_log_outcomes ev a b) resp user mode wface)))
        = callbacks (snd (snd (processFaceAuth ev resp user mode wface)))"
  using processPinAuth_log_independent [where digest = digest and ev = ev and a = a and b = b
      and user = user and mode = mode and w = w]
    processVoiceAuth_log_independent [where ev = ev and a = a and b = b and resp = resp
      and user = user and mode = mode and w = wvoice]
    processFaceAuth_log_independent [where ev = ev and a = a and b = b and resp = resp
      and user = user and mode = mode and w = wface]
  by simp

theorem audit_failure_never_propagates_witness:
  "fst (logAuthAttempt (with_log_outcomes (all_succeed 0) Throws ReturnsError) (Some ''u1'') Pin
          False None None
          \<lparr>db = empty_database, hook = \<lparr>methods = [], loading = False\<rparr>,
           comp = PinAuth_initial\<rparr>) = Inr ()"
  by (rule conjunct1 [OF audit_failure_never_propagates])

end
